(* ===== verification/Prelude.thy ===== *)
theory Prelude
  imports Main "HOL-Library.Word" "HOL-Library.AList"
begin

text \<open>
  Shared vocabulary of the development: the machine integers of the program, the
  result type of fallible code, the model of \<^verbatim>\<open>std::unordered_map\<close> with the interface its
  clients rely on, and the generic lemmas the component theories share.
\<close>

unbundle bit_operations_syntax

section \<open>Machine integers and named fact collections\<close>

type_synonym u8 = "8 word"
type_synonym u16 = "16 word"
type_synonym u32 = "32 word"
type_synonym u64 = "64 word"

named_theorems op_defs \<open>definitions of the engine operations, for unfolding\<close>
named_theorems umap_simps \<open>lookup and key facts of the unordered map operations\<close>
named_theorems codec_rt \<open>round trips of the byte codecs\<close>

lemma u64_max: "unat (- 1 :: u64) = 2 ^ 64 - 1"
  by (simp add: unat_eq_nat_uint uint_word_ariths unsigned_minus_1_eq_mask mask_eq_exp_minus_1)

lemma u64_le_iff: "(a::u64) \<le> b \<longleftrightarrow> unat a \<le> unat b"
  by (rule word_le_nat_alt)

lemma u64_less_iff: "(a::u64) < b \<longleftrightarrow> unat a < unat b"
  by (rule word_less_nat_alt)

lemma unat_u64_bound: "unat (a::u64) < 2 ^ 64"
  using unsigned_less [of a, where ?'a = nat] by simp

lemma unat_u64_add: "unat a + unat b < 2 ^ 64 \<Longrightarrow> unat (a + b :: u64) = unat a + unat b"
  by (simp add: unat_word_ariths)

lemma unat_u64_diff: "unat b \<le> unat a \<Longrightarrow> unat (a - b :: u64) = unat a - unat b"
  by (rule unat_sub) (simp add: word_le_nat_alt)

lemma unat_u64_inc: "a \<noteq> - 1 \<Longrightarrow> unat (a + 1 :: u64) = unat a + 1"
  by (metis Suc_eq_plus1 add.right_neutral add_eq_0_iff2 unatSuc add.commute)

lemma word_min_unat: "unat (min a b :: u64) = min (unat a) (unat b)"
  by (simp add: min_def word_le_nat_alt)

section \<open>Unordered maps\<close>

text \<open>
  A \<^verbatim>\<open>std::unordered_map\<close> is an association list with distinct keys, in iteration order.
  The iteration order of the container is unspecified: statements about code that iterates
  hold for every list, so for every order. \<open>um_emplace\<close> is \<^verbatim>\<open>emplace\<close> (an existing key is
  left alone), \<open>um_assign\<close> is \<^verbatim>\<open>m[k] = v\<close> and writing through an iterator, \<open>um_erase\<close> is
  \<^verbatim>\<open>erase(k)\<close>, \<open>um_map\<close> is a loop \<^verbatim>\<open>for (auto& [k, v] : m)\<close> that overwrites every value.
\<close>

type_synonym ('k, 'v) umap = "('k \<times> 'v) list"

definition um_find :: "('k, 'v) umap \<Rightarrow> 'k \<Rightarrow> 'v option" where
  "um_find m k = map_of m k"

definition um_emplace :: "('k, 'v) umap \<Rightarrow> 'k \<Rightarrow> 'v \<Rightarrow> ('k, 'v) umap" where
  "um_emplace m k v = (case map_of m k of None \<Rightarrow> m @ [(k, v)] | Some _ \<Rightarrow> m)"

definition um_assign :: "('k, 'v) umap \<Rightarrow> 'k \<Rightarrow> 'v \<Rightarrow> ('k, 'v) umap" where
  "um_assign m k v = AList.update k v m"

definition um_erase :: "('k, 'v) umap \<Rightarrow> 'k \<Rightarrow> ('k, 'v) umap" where
  "um_erase m k = AList.delete k m"

definition um_map :: "('v \<Rightarrow> 'v) \<Rightarrow> ('k, 'v) umap \<Rightarrow> ('k, 'v) umap" where
  "um_map g m = map (\<lambda>(k, v). (k, g v)) m"

definition um_wf :: "('k, 'v) umap \<Rightarrow> bool" where
  "um_wf m \<longleftrightarrow> distinct (map fst m)"

text \<open>
  The interface the engine relies on: what a lookup returns after each mutation, and that
  every mutation keeps the representation invariant. The client lemmas lift a property of
  the values through the mutations.
\<close>

locale unordered_map =
  fixes find :: "'m \<Rightarrow> 'k \<Rightarrow> 'v option"
    and emplace :: "'m \<Rightarrow> 'k \<Rightarrow> 'v \<Rightarrow> 'm"
    and assign :: "'m \<Rightarrow> 'k \<Rightarrow> 'v \<Rightarrow> 'm"
    and erase :: "'m \<Rightarrow> 'k \<Rightarrow> 'm"
    and mapv :: "('v \<Rightarrow> 'v) \<Rightarrow> 'm \<Rightarrow> 'm"
    and wf :: "'m \<Rightarrow> bool"
  assumes find_emplace: "find (emplace m k v) j =
      (case find m j of None \<Rightarrow> if j = k then Some v else None | Some w \<Rightarrow> Some w)"
    and find_assign: "find (assign m k v) j = (if j = k then Some v else find m j)"
    and find_erase: "find (erase m k) j = (if j = k then None else find m j)"
    and find_mapv: "find (mapv g m) j = map_option g (find m j)"
    and wf_emplace: "wf m \<Longrightarrow> wf (emplace m k v)"
    and wf_assign: "wf m \<Longrightarrow> wf (assign m k v)"
    and wf_erase: "wf m \<Longrightarrow> wf (erase m k)"
    and wf_mapv: "wf m \<Longrightarrow> wf (mapv g m)"
begin

lemma all_emplace:
  assumes "\<And>j w. find m j = Some w \<Longrightarrow> P j w" and "P k v"
    and "find (emplace m k v) j = Some w"
  shows "P j w"
  using assms by (auto simp: find_emplace split: option.splits if_splits)

lemma all_assign:
  assumes "\<And>j w. find m j = Some w \<Longrightarrow> P j w" and "P k v"
    and "find (assign m k v) j = Some w"
  shows "P j w"
  using assms by (auto simp: find_assign split: if_splits)

lemma all_erase:
  assumes "\<And>j w. find m j = Some w \<Longrightarrow> P j w" and "find (erase m k) j = Some w"
  shows "P j w"
  using assms by (auto simp: find_erase split: if_splits)

lemma all_mapv:
  assumes "\<And>j w. find m j = Some w \<Longrightarrow> P j (g w)" and "find (mapv g m) j = Some w"
  shows "P j w"
  using assms by (auto simp: find_mapv)

end

interpretation um: unordered_map um_find um_emplace um_assign um_erase um_map um_wf
proof
  show "um_find (um_map g m) j = map_option g (um_find m j)"
    for g and m :: "('k, 'v) umap" and j
    by (induction m) (auto simp: um_find_def um_map_def)
  show "um_wf (um_map g m)" if "um_wf m" for g and m :: "('k, 'v) umap"
    using that by (simp add: um_wf_def um_map_def case_prod_unfold comp_def)
  show "um_wf (um_emplace m k v)" if "um_wf m" for m :: "('k, 'v) umap" and k v
    using that by (auto simp: um_wf_def um_emplace_def map_of_eq_None_iff split: option.split)
qed (auto simp: um_find_def um_emplace_def um_assign_def um_erase_def um_wf_def
    AList.update_conv' AList.delete_conv' map_add_def AList.distinct_update
    AList.distinct_delete split: option.splits)

lemmas um_find_simps [umap_simps, simp] =
  um.find_emplace um.find_assign um.find_erase um.find_mapv

lemmas um_wf_intros [intro] = um.wf_emplace um.wf_assign um.wf_erase um.wf_mapv

lemma um_find_Nil [umap_simps, simp]: "um_find [] k = None"
  by (simp add: um_find_def)

lemma um_wf_Nil [simp]: "um_wf []"
  by (simp add: um_wf_def)

lemma um_find_Cons: "um_find ((j, v) # m) k = (if k = j then Some v else um_find m k)"
  by (simp add: um_find_def)

lemma um_find_in_set: "um_find m k = Some v \<Longrightarrow> (k, v) \<in> set m"
  by (simp add: um_find_def map_of_SomeD)

lemma um_in_set_find: "um_wf m \<Longrightarrow> (k, v) \<in> set m \<Longrightarrow> um_find m k = Some v"
  by (simp add: um_find_def um_wf_def)

lemma length_um_map [simp]: "length (um_map g m) = length m"
  by (simp add: um_map_def)

lemma um_keys_map [simp]: "map fst (um_map g m) = map fst m"
  by (simp add: um_map_def case_prod_unfold comp_def)

lemma um_assign_keys: "um_find m k \<noteq> None \<Longrightarrow> map fst (um_assign m k v) = map fst m"
  by (auto simp: um_assign_def um_find_def AList.update_keys dom_map_of_conv_image_fst
      map_of_eq_None_iff image_iff)

lemma um_assign_same: "um_find m k = Some v \<Longrightarrow> um_assign m k v = m"
  by (induction m) (auto simp: um_find_def um_assign_def split: if_splits)

lemma um_erase_absent: "um_find m k = None \<Longrightarrow> um_erase m k = m"
  by (induction m) (auto simp: um_find_def um_erase_def AList.delete_eq split: if_splits)

lemma um_find_append: "um_find (m @ n) k = (case um_find m k of None \<Rightarrow> um_find n k | Some v \<Rightarrow> Some v)"
  by (simp add: um_find_def map_add_def split: option.split)

lemma um_assign_twice: "um_assign (um_assign m k v) k w = um_assign m k w"
  by (induction m) (auto simp: um_assign_def)

lemma um_erase_assign: "um_find m k = None \<Longrightarrow> um_erase (um_assign m k v) k = m"
  by (induction m) (auto simp: um_erase_def um_assign_def um_find_def AList.delete_eq split: if_splits)

lemma um_emplace_fresh: "um_find m k = None \<Longrightarrow> um_emplace m k v = m @ [(k, v)]"
  by (simp add: um_find_def um_emplace_def)

lemma um_assign_last: "um_find m k = None \<Longrightarrow> um_assign (m @ [(k, v)]) k v' = m @ [(k, v')]"
  by (induction m) (auto simp: um_find_def um_assign_def split: if_splits)

text \<open>Counting the values of a map that satisfy a predicate.\<close>

definition um_count :: "('v \<Rightarrow> bool) \<Rightarrow> ('k, 'v) umap \<Rightarrow> nat" where
  "um_count P m = length (filter (P \<circ> snd) m)"

lemma um_count_emplace:
  "um_find m k = None \<Longrightarrow> um_count P (um_emplace m k v) = um_count P m + (if P v then 1 else 0)"
  by (simp add: um_count_def um_emplace_fresh)

lemma um_count_assign:
  assumes "um_find m k = Some w"
  shows "um_count P (um_assign m k v) + (if P w then 1 else 0) =
         um_count P m + (if P v then 1 else 0)"
  using assms
  by (induction m) (auto simp: um_count_def um_assign_def um_find_def split: if_splits)

lemma um_count_map_cong:
  assumes "\<And>v. P (g v) \<longleftrightarrow> P v"
  shows "um_count P (um_map g m) = um_count P m"
  by (simp add: um_count_def um_map_def filter_map comp_def case_prod_unfold assms)

lemma um_count_le: "um_count P m \<le> length m"
  by (simp add: um_count_def)

lemma um_count_pos: "um_find m k = Some v \<Longrightarrow> P v \<Longrightarrow> 0 < um_count P m"
  using um_find_in_set [of m k v] by (force simp: um_count_def filter_empty_conv)

end
