(* ===== verification/Checked.thy ===== *)
theory Checked
  imports Prelude
begin

text \<open>
  Checked byte accounting: \<^verbatim>\<open>include/congestion_fabric/checked.hpp\<close>. A helper with an output
  parameter returns \<open>Some\<close> of what it writes, or \<open>None\<close> where the code returns \<^verbatim>\<open>false\<close> and
  leaves the parameter alone. The lemmas say that success is exactly the absence of
  wrap-around and that the result is the mathematical one.
\<close>

definition checked_add :: "u64 \<Rightarrow> u64 \<Rightarrow> u64 option" where
  "checked_add a b = (if a > - 1 - b then None else Some (a + b))"

definition checked_sub :: "u64 \<Rightarrow> u64 \<Rightarrow> u64 option" where
  "checked_sub a b = (if b > a then None else Some (a - b))"

definition checked_mul :: "u64 \<Rightarrow> u64 \<Rightarrow> u64 option" where
  "checked_mul a b = (if a \<noteq> 0 \<and> b > - 1 div a then None else Some (a * b))"

definition add_or :: "u64 \<Rightarrow> u64 \<Rightarrow> u64 \<Rightarrow> u64" where
  "add_or a b fallback = (case checked_add a b of Some x \<Rightarrow> x | None \<Rightarrow> fallback)"

datatype ByteCounter = ByteCounter (bc_value: u64)

definition bc_add :: "ByteCounter \<Rightarrow> u64 \<Rightarrow> bool \<times> ByteCounter" where
  "bc_add c n = (case checked_add (bc_value c) n of
     None \<Rightarrow> (False, c) | Some x \<Rightarrow> (True, ByteCounter x))"

definition bc_sub :: "ByteCounter \<Rightarrow> u64 \<Rightarrow> bool \<times> ByteCounter" where
  "bc_sub c n = (case checked_sub (bc_value c) n of
     None \<Rightarrow> (False, c) | Some x \<Rightarrow> (True, ByteCounter x))"

definition bc_fits_in :: "ByteCounter \<Rightarrow> u64 \<Rightarrow> bool" where
  "bc_fits_in c n \<longleftrightarrow> bc_value c \<le> n"

abbreviation bcv :: "ByteCounter \<Rightarrow> nat" where
  "bcv c \<equiv> unat (bc_value c)"

lemma checked_add_iff:
  "checked_add a b = (if unat a + unat b < 2 ^ 64 then Some (a + b) else None)"
proof -
  have "unat (- 1 - b :: u64) = 2 ^ 64 - 1 - unat b"
    using unat_u64_diff [of b "- 1"] u64_max unat_u64_bound [of b] by simp
  then show ?thesis
    using unat_u64_bound [of b] by (auto simp: checked_add_def word_less_nat_alt)
qed

lemma checked_sub_iff:
  "checked_sub a b = (if unat b \<le> unat a then Some (a - b) else None)"
  by (simp add: checked_sub_def word_less_nat_alt)

lemma checked_mul_iff:
  "checked_mul a b = (if unat a * unat b < 2 ^ 64 then Some (a * b) else None)"
proof (cases "a = 0")
  case False
  then have pos: "0 < unat a" by (simp add: unat_gt_0)
  have "unat (- 1 div a :: u64) = (2 ^ 64 - 1) div unat a"
    by (simp only: unat_div u64_max)
  then have "b > - 1 div a \<longleftrightarrow> (2 ^ 64 - 1) div unat a < unat b"
    by (simp add: word_less_nat_alt)
  also have "\<dots> \<longleftrightarrow> 2 ^ 64 - 1 < unat b * unat a"
    using pos by (simp only: div_less_iff_less_mult)
  finally show ?thesis using False by (auto simp: checked_mul_def mult.commute)
qed (simp add: checked_mul_def)

lemma checked_add_Some_unat: "checked_add a b = Some c \<Longrightarrow> unat c = unat a + unat b"
  by (auto simp: checked_add_iff unat_u64_add split: if_splits)

lemma checked_sub_Some_unat: "checked_sub a b = Some c \<Longrightarrow> unat a = unat b + unat c"
  by (auto simp: checked_sub_iff unat_u64_diff split: if_splits)

lemma checked_mul_Some_unat: "checked_mul a b = Some c \<Longrightarrow> unat c = unat a * unat b"
  by (auto simp: checked_mul_iff unat_word_ariths split: if_splits)

text \<open>The three checked operations succeed exactly when the mathematical result is
  representable in 64 bits, and then return it; no silent wrap-around is possible.\<close>

theorem checked_ops_exact:
  "map_option unat (checked_add a b) =
     (if unat a + unat b < 2 ^ 64 then Some (unat a + unat b) else None) \<and>
   map_option unat (checked_sub a b) =
     (if unat b \<le> unat a then Some (unat a - unat b) else None) \<and>
   map_option unat (checked_mul a b) =
     (if unat a * unat b < 2 ^ 64 then Some (unat a * unat b) else None)"
  by (simp add: checked_add_iff checked_sub_iff checked_mul_iff unat_u64_add unat_u64_diff
      unat_word_ariths)

lemma bc_add_cases:
  "bc_add c n = (if bcv c + unat n < 2 ^ 64 then (True, ByteCounter (bc_value c + n)) else (False, c))"
  by (simp add: bc_add_def checked_add_iff)

lemma bc_sub_cases:
  "bc_sub c n = (if unat n \<le> bcv c then (True, ByteCounter (bc_value c - n)) else (False, c))"
  by (simp add: bc_sub_def checked_sub_iff)

text \<open>Adding to a counter that is zero never fails and stores the operand.\<close>

lemma bc_add_zero: "bc_value c = 0 \<Longrightarrow> bc_add c n = (True, ByteCounter n)"
  using unat_u64_bound [of n] by (simp add: bc_add_cases)

end
