(* ===== verification/Double.thy ===== *)
theory Double
  imports Prelude "HOL-Library.Log_Nat"
begin

text \<open>
  The C++ \<^verbatim>\<open>double\<close> of the program: IEEE 754 binary64 with round to nearest, ties to even,
  on its 64-bit representation (what \<^verbatim>\<open>memcpy\<close> in \<^verbatim>\<open>Writer::f64\<close> sees). A value is a sign
  bit and a magnitude code: the low 63 bits, whose order is the order of the absolute values.
  \<open>vmag\<close> reads a code as a multiple of \<open>2 ^ -1074\<close>, the smallest subnormal; \<open>rmag p q\<close>
  is the code nearest to \<open>(p / q) * 2 ^ -1074\<close>. Everything is executable on naturals.
  A NaN result is the default quiet NaN of the processor, which has the sign bit; payloads of NaN operands are
  not propagated, and the program neither compares nor tests them.
\<close>

section \<open>Representation, classification and comparison\<close>

type_synonym double = "64 word"

definition inf_mag :: nat where
  "inf_mag = 2047 * 2 ^ 52"

definition dmag :: "double \<Rightarrow> nat" where
  "dmag x = unat x mod 2 ^ 63"

definition dneg :: "double \<Rightarrow> bool" where
  "dneg x \<longleftrightarrow> 2 ^ 63 \<le> unat x"

definition mk :: "bool \<Rightarrow> nat \<Rightarrow> double" where
  "mk s n = of_nat (if s then n + 2 ^ 63 else n)"

definition isfinite :: "double \<Rightarrow> bool" where
  "isfinite x \<longleftrightarrow> dmag x < inf_mag"

definition isinf :: "double \<Rightarrow> bool" where
  "isinf x \<longleftrightarrow> dmag x = inf_mag"

definition isnan :: "double \<Rightarrow> bool" where
  "isnan x \<longleftrightarrow> inf_mag < dmag x"

definition dkey :: "double \<Rightarrow> int" where
  "dkey x = (if dneg x then - int (dmag x) else int (dmag x))"

definition dlt :: "double \<Rightarrow> double \<Rightarrow> bool" where
  "dlt x y \<longleftrightarrow> \<not> isnan x \<and> \<not> isnan y \<and> dkey x < dkey y"

definition dle :: "double \<Rightarrow> double \<Rightarrow> bool" where
  "dle x y \<longleftrightarrow> \<not> isnan x \<and> \<not> isnan y \<and> dkey x \<le> dkey y"

definition dinf :: double where
  "dinf = 0x7FF0000000000000"

definition dnan :: double where
  "dnan = 0xFFF8000000000000"

definition dmax_value :: double where
  "dmax_value = 0x7FEFFFFFFFFFFFFF"

text \<open>\<^verbatim>\<open>std::min\<close>, \<^verbatim>\<open>std::max\<close> and \<^verbatim>\<open>std::clamp\<close>, with their behaviour on NaN.\<close>

definition dmin :: "double \<Rightarrow> double \<Rightarrow> double" where
  "dmin a b = (if dlt b a then b else a)"

definition dmax :: "double \<Rightarrow> double \<Rightarrow> double" where
  "dmax a b = (if dlt a b then b else a)"

definition dclamp :: "double \<Rightarrow> double \<Rightarrow> double \<Rightarrow> double" where
  "dclamp v lo hi = (if dlt v lo then lo else if dlt hi v then hi else v)"

section \<open>Values, rounding and arithmetic\<close>

definition vmag :: "nat \<Rightarrow> nat" where
  "vmag n = (if n < 2 ^ 52 then n else (2 ^ 52 + n mod 2 ^ 52) * 2 ^ (n div 2 ^ 52 - 1))"

definition dval :: "double \<Rightarrow> int" where
  "dval x = (if dneg x then - int (vmag (dmag x)) else int (vmag (dmag x)))"

definition rhe :: "nat \<Rightarrow> nat \<Rightarrow> nat" where
  "rhe p q = (let d = p div q; r = p mod q
     in if 2 * r < q \<or> (2 * r = q \<and> even d) then d else Suc d)"

definition rmag :: "nat \<Rightarrow> nat \<Rightarrow> nat" where
  "rmag p q = (let s = floorlog 2 (p div q) - 53
     in min inf_mag (s * 2 ^ 52 + rhe p (q * 2 ^ s)))"

definition dneg_of :: "double \<Rightarrow> double" where
  "dneg_of x = mk (\<not> dneg x) (dmag x)"

definition dadd :: "double \<Rightarrow> double \<Rightarrow> double" where
  "dadd x y =
    (if isnan x \<or> isnan y \<or> (isinf x \<and> isinf y \<and> dneg x \<noteq> dneg y) then dnan
     else if isinf x then x
     else if isinf y then y
     else let v = dval x + dval y
       in if v = 0 then mk (dneg x \<and> dneg y) 0 else mk (v < 0) (rmag (nat \<bar>v\<bar>) 1))"

definition dsub :: "double \<Rightarrow> double \<Rightarrow> double" where
  "dsub x y = (if isnan y then dnan else dadd x (dneg_of y))"

definition dmul :: "double \<Rightarrow> double \<Rightarrow> double" where
  "dmul x y =
    (if isnan x \<or> isnan y \<or> (isinf x \<and> dmag y = 0) \<or> (isinf y \<and> dmag x = 0) then dnan
     else if isinf x \<or> isinf y then mk (dneg x \<noteq> dneg y) inf_mag
     else mk (dneg x \<noteq> dneg y) (rmag (vmag (dmag x) * vmag (dmag y)) (2 ^ 1074)))"

definition ddiv :: "double \<Rightarrow> double \<Rightarrow> double" where
  "ddiv x y =
    (if isnan x \<or> isnan y \<or> (isinf x \<and> isinf y) \<or> (dmag x = 0 \<and> dmag y = 0) then dnan
     else if isinf x \<or> dmag y = 0 then mk (dneg x \<noteq> dneg y) inf_mag
     else if isinf y then mk (dneg x \<noteq> dneg y) 0
     else mk (dneg x \<noteq> dneg y) (rmag (vmag (dmag x) * 2 ^ 1074) (vmag (dmag y))))"

text \<open>\<^verbatim>\<open>static_cast<double>(std::uint64_t)\<close>.\<close>

definition double_of_u64 :: "u64 \<Rightarrow> double" where
  "double_of_u64 n = mk False (rmag (unat n * 2 ^ 1074) 1)"

section \<open>Rounding is monotone and exact on representable values\<close>

lemma rhe_exact: "0 < q \<Longrightarrow> rhe (n * q) q = n"
  by (simp add: rhe_def)

lemma rhe_le_iff_aux: "p div q \<le> rhe p q" "rhe p q \<le> Suc (p div q)"
  by (auto simp: rhe_def Let_def)

lemma rhe_mono:
  assumes q: "0 < q" "0 < q'" and le: "p * q' \<le> p' * q"
  shows "rhe p q \<le> rhe p' q'"
proof -
  let ?d = "p div q" and ?d' = "p' div q'" and ?r = "p mod q" and ?r' = "p' mod q'"
  have p: "p = ?d * q + ?r" and p': "p' = ?d' * q' + ?r'" by simp_all
  have "?d \<le> ?d'"
  proof -
    have "?d * q * q' \<le> p * q'" by (simp add: mult_le_mono1)
    also have "\<dots> \<le> p' * q" by (rule le)
    finally have "(?d * q') * q \<le> p' * q" by (simp add: ac_simps)
    then have "?d * q' \<le> p'" using q by simp
    then show ?thesis using q by (simp add: less_eq_div_iff_mult_less_eq)
  qed
  show ?thesis
  proof (cases "?d = ?d'")
    case False
    with \<open>?d \<le> ?d'\<close> have "Suc ?d \<le> ?d'" by simp
    then show ?thesis using rhe_le_iff_aux [of p q] rhe_le_iff_aux [of p' q'] by linarith
  next
    case True
    have "p * q' = ?d * q * q' + ?r * q'" by (metis add_mult_distrib p)
    moreover have "p' * q = ?d * q * q' + ?r' * q" by (metis True add_mult_distrib mult.assoc mult.commute p')
    ultimately have r: "?r * q' \<le> ?r' * q" using le by linarith
    show ?thesis
    proof (cases "2 * ?r' < q' \<or> (2 * ?r' = q' \<and> even ?d')")
      case up: True
      have "2 * ?r < q \<or> (2 * ?r = q \<and> even ?d)"
      proof (rule ccontr)
        assume *: "\<not> ?thesis"
        then have "q \<le> 2 * ?r" by linarith
        then have "q * q' \<le> 2 * (?r * q')" by (metis mult.assoc mult_le_mono1)
        also have "\<dots> \<le> 2 * (?r' * q)" using r by simp
        finally have "q' \<le> 2 * ?r'" using q by (simp add: ac_simps)
        with up have tie: "2 * ?r' = q'" "even ?d'" by auto
        have "2 * (?r * q') \<le> (2 * ?r') * q" using r by simp
        then have "2 * (?r * q') \<le> q' * q" by (simp only: tie(1))
        then have "2 * ?r * q' \<le> q * q'" by (simp add: ac_simps)
        then have "2 * ?r \<le> q" using q by simp
        with * tie(2) True \<open>q \<le> 2 * ?r\<close> show False by auto
      qed
      then show ?thesis using True up by (simp add: rhe_def Let_def)
    next
      case False
      then have "rhe p' q' = Suc ?d'" by (auto simp: rhe_def Let_def)
      then show ?thesis using rhe_le_iff_aux(2) [of p q] True by simp
    qed
  qed
qed

lemma floorlog2_less: "n < 2 ^ k \<longleftrightarrow> floorlog 2 n \<le> k"
proof
  assume "n < 2 ^ k"
  show "floorlog 2 n \<le> k"
  proof (rule ccontr)
    assume "\<not> floorlog 2 n \<le> k"
    then have "2 ^ (Suc k - 1) \<le> n" by (intro floorlog_geD) auto
    with \<open>n < 2 ^ k\<close> show False by simp
  qed
next
  assume le: "floorlog 2 n \<le> k"
  show "n < 2 ^ k"
  proof (cases "n = 0")
    case False
    then have "n < 2 ^ floorlog 2 n" using floorlog_bounds [of n 2] by simp
    also have "\<dots> \<le> 2 ^ k" using le by (simp add: power_increasing)
    finally show ?thesis .
  qed simp
qed

lemma rmag_scale_upper:
  assumes "0 < q" and s: "s = floorlog 2 (p div q) - 53"
  shows "rhe p (q * 2 ^ s) \<le> 2 ^ 53"
proof -
  have "p div q < 2 ^ (53 + s)" by (simp add: floorlog2_less s)
  then have "p < 2 ^ (53 + s) * q" using assms(1) by (simp add: div_less_iff_less_mult)
  then have "p * 1 \<le> 2 ^ 53 * (q * 2 ^ s)" by (simp add: power_add ac_simps)
  then have "rhe p (q * 2 ^ s) \<le> rhe (2 ^ 53) 1"
    using assms(1) by (intro rhe_mono) (auto simp: ac_simps)
  also have "\<dots> = 2 ^ 53" using rhe_exact [of 1 "2 ^ 53"] by simp
  finally show ?thesis .
qed

lemma rmag_scale_lower:
  assumes "0 < q" and s: "s = floorlog 2 (p div q) - 53" and "0 < s"
  shows "2 ^ 52 \<le> rhe p (q * 2 ^ s)"
proof -
  have "\<not> p div q < 2 ^ (52 + s)" using assms(3) by (simp add: floorlog2_less s)
  then have "2 ^ (52 + s) * q \<le> p"
    using assms(1) by (simp only: not_less less_eq_div_iff_mult_less_eq)
  then have "2 ^ 52 * (q * 2 ^ s) \<le> p * 1" by (simp add: power_add ac_simps)
  then have "rhe (2 ^ 52) 1 \<le> rhe p (q * 2 ^ s)"
    using assms(1) by (intro rhe_mono) (auto simp: ac_simps)
  then show ?thesis using rhe_exact [of 1 "2 ^ 52"] by simp
qed

lemma rmag_mono:
  assumes q: "0 < q" "0 < q'" and le: "p * q' \<le> p' * q"
  shows "rmag p q \<le> rmag p' q'"
proof -
  define s where "s = floorlog 2 (p div q) - 53"
  define s' where "s' = floorlog 2 (p' div q') - 53"
  have "p div q \<le> p' div q'"
  proof -
    have "p div q * q * q' \<le> p * q'" by (simp add: mult_le_mono1)
    also have "\<dots> \<le> p' * q" by (rule le)
    finally have "(p div q * q') * q \<le> p' * q" by (simp add: ac_simps)
    then have "p div q * q' \<le> p'" using q by simp
    then show ?thesis using q by (simp add: less_eq_div_iff_mult_less_eq)
  qed
  then have "s \<le> s'" unfolding s_def s'_def by (simp add: diff_le_mono floorlog_mono)
  have "s * 2 ^ 52 + rhe p (q * 2 ^ s) \<le> s' * 2 ^ 52 + rhe p' (q' * 2 ^ s')"
  proof (cases "s = s'")
    case True
    have "p * (q' * 2 ^ s) \<le> p' * (q * 2 ^ s)"
      using le by (simp add: mult.assoc [symmetric] mult_le_mono1)
    then have "rhe p (q * 2 ^ s) \<le> rhe p' (q' * 2 ^ s)" using q by (intro rhe_mono) auto
    then show ?thesis using True by simp
  next
    case False
    with \<open>s \<le> s'\<close> have "Suc s \<le> s'" by simp
    then have "Suc s * 2 ^ 52 \<le> s' * 2 ^ 52" by (rule mult_le_mono1)
    then have "s * 2 ^ 52 + 2 ^ 53 \<le> s' * 2 ^ 52 + (2::nat) ^ 52" by simp
    moreover have "rhe p (q * 2 ^ s) \<le> 2 ^ 53"
      by (rule rmag_scale_upper [OF q(1)]) (simp add: s_def)
    moreover have "2 ^ 52 \<le> rhe p' (q' * 2 ^ s')"
      by (rule rmag_scale_lower [OF q(2)]) (use \<open>Suc s \<le> s'\<close> in \<open>simp_all add: s'_def\<close>)
    ultimately show ?thesis by linarith
  qed
  then show ?thesis by (simp add: rmag_def Let_def flip: s_def s'_def)
qed

lemma rmag_vmag:
  assumes "n \<le> inf_mag"
  shows "rmag (vmag n) 1 = n"
proof (cases "n < 2 ^ 52")
  case True
  then have "floorlog 2 n \<le> 52" by (simp only: floorlog2_less)
  then show ?thesis using True assms rhe_exact [of 1 n] by (simp add: rmag_def vmag_def)
next
  case False
  define e where "e = n div 2 ^ 52 - 1"
  define m where "m = 2 ^ 52 + n mod 2 ^ 52"
  have n: "n = e * 2 ^ 52 + m"
  proof -
    have "0 < n div 2 ^ 52" using False by (simp add: div_greater_zero_iff)
    then have "n div 2 ^ 52 = Suc e" by (simp add: e_def)
    then have "n = Suc e * 2 ^ 52 + n mod 2 ^ 52" by (metis div_mult_mod_eq)
    then show ?thesis by (simp add: m_def)
  qed
  have v: "vmag n = m * 2 ^ e" using False by (simp add: vmag_def m_def e_def)
  have "n mod 2 ^ 52 < 2 ^ 52" by simp
  then have "m < 2 ^ 53" "\<not> m < 2 ^ 52" by (simp_all add: m_def)
  then have "floorlog 2 m = 53"
    using floorlog2_less [of m 53] floorlog2_less [of m 52] by simp
  then have "floorlog 2 (m * 2 ^ e) = 53 + e"
    using \<open>\<not> m < 2 ^ 52\<close> by (subst floorlog_power) (auto intro: gr0I)
  then have "rmag (vmag n) 1 = min inf_mag (e * 2 ^ 52 + m)"
    using rhe_exact [of "2 ^ e" m] by (simp add: rmag_def v)
  then show ?thesis using assms n by simp
qed

lemma rmag_le_inf: "rmag p q \<le> inf_mag"
  by (simp add: rmag_def Let_def)

text \<open>
  Rounding as an interface: codes, their values and the rounding of a rational to a code.
  Every order fact about the arithmetic follows from the two laws.
\<close>

locale rounding =
  fixes val :: "nat \<Rightarrow> nat" and rnd :: "nat \<Rightarrow> nat \<Rightarrow> nat" and top :: nat
  assumes rnd_mono: "0 < q \<Longrightarrow> 0 < q' \<Longrightarrow> p * q' \<le> p' * q \<Longrightarrow> rnd p q \<le> rnd p' q'"
    and rnd_val: "n \<le> top \<Longrightarrow> rnd (val n) 1 = n"
begin

lemma rnd_le_code: "0 < q \<Longrightarrow> n \<le> top \<Longrightarrow> p \<le> val n * q \<Longrightarrow> rnd p q \<le> n"
  using rnd_mono [of q 1 p "val n"] rnd_val [of n] by simp

lemma code_le_rnd: "0 < q \<Longrightarrow> n \<le> top \<Longrightarrow> val n * q \<le> p \<Longrightarrow> n \<le> rnd p q"
  using rnd_mono [of 1 q "val n" p] rnd_val [of n] by simp

lemma rnd_exact: "0 < q \<Longrightarrow> n \<le> top \<Longrightarrow> rnd (val n * q) q = n"
  by (simp add: rnd_le_code code_le_rnd eq_iff)

lemma val_strict_mono: "m < n \<Longrightarrow> n \<le> top \<Longrightarrow> val m < val n"
proof (rule ccontr)
  assume "m < n" "n \<le> top" "\<not> val m < val n"
  then have "n \<le> rnd (val m) 1" using code_le_rnd [of 1 n "val m"] by simp
  with \<open>m < n\<close> \<open>n \<le> top\<close> show False using rnd_val [of m] by simp
qed

lemma val_mono: "m \<le> n \<Longrightarrow> n \<le> top \<Longrightarrow> val m \<le> val n"
  using val_strict_mono [of m n] by (cases "m = n") auto

lemma val_le_iff: "m \<le> top \<Longrightarrow> n \<le> top \<Longrightarrow> val m \<le> val n \<longleftrightarrow> m \<le> n"
  using val_mono [of m n] val_strict_mono [of n m] by (meson leD leI)

end

interpretation ieee: rounding vmag rmag inf_mag
  by unfold_locales (rule rmag_mono, assumption+, rule rmag_vmag)

section \<open>Order facts of the arithmetic\<close>

lemma inf_mag_less: "inf_mag < 2 ^ 63"
  by (simp add: inf_mag_def)

lemma dmag_less: "dmag x < 2 ^ 63"
  by (simp add: dmag_def)

lemma unat_mk: "n < 2 ^ 63 \<Longrightarrow> unat (mk s n) = (if s then n + 2 ^ 63 else n)"
  by (simp add: mk_def unat_of_nat)

lemma dmag_mk [simp]: "n < 2 ^ 63 \<Longrightarrow> dmag (mk s n) = n"
  by (simp add: dmag_def unat_mk)

lemma dneg_mk [simp]: "n < 2 ^ 63 \<Longrightarrow> dneg (mk s n) = s"
  by (simp add: dneg_def unat_mk)

lemma dkey_mk: "n < 2 ^ 63 \<Longrightarrow> dkey (mk s n) = (if s then - int n else int n)"
  by (simp add: dkey_def)

lemma rmag_less63 [simp]: "rmag p q < 2 ^ 63"
  using rmag_le_inf [of p q] inf_mag_less by linarith

lemma mk_rmag_props [simp]:
  "dmag (mk s (rmag p q)) = rmag p q" "dneg (mk s (rmag p q)) = s"
  "dkey (mk s (rmag p q)) = (if s then - int (rmag p q) else int (rmag p q))"
  by (simp_all only: dmag_mk dneg_mk dkey_mk rmag_less63)

lemma isnan_mk_rmag [simp]: "\<not> isnan (mk s (rmag p q))"
  using rmag_le_inf [of p q] rmag_less63 [of p q] by (simp add: isnan_def)

lemma isfinite_not_nan [simp]: "isfinite x \<Longrightarrow> \<not> isnan x"
  by (simp add: isfinite_def isnan_def)

lemma isfinite_not_inf [simp]: "isfinite x \<Longrightarrow> \<not> isinf x"
  by (simp add: isfinite_def isinf_def)

lemma abs_dkey: "\<bar>dkey x\<bar> = int (dmag x)"
  by (simp add: dkey_def)

lemma isfinite_dkey: "isfinite x \<longleftrightarrow> \<bar>dkey x\<bar> < int inf_mag"
  by (simp add: abs_dkey isfinite_def)

lemma dkey_zero [simp]: "dkey 0 = 0"
  by (simp add: dkey_def dmag_def)

lemma isfinite_zero [simp]: "isfinite 0"
  by (simp add: isfinite_dkey inf_mag_def)

lemma vmag_zero [simp]: "vmag 0 = 0"
  by (simp add: vmag_def)

lemma dval_zero [simp]: "dval 0 = 0"
  by (simp add: dval_def dmag_def)

lemma dval_le_iff:
  assumes "isfinite x" "isfinite y"
  shows "dval x \<le> dval y \<longleftrightarrow> dkey x \<le> dkey y"
proof -
  have le: "vmag (dmag a) \<le> vmag (dmag b) \<longleftrightarrow> dmag a \<le> dmag b" if "isfinite a" "isfinite b" for a b
    using that by (intro ieee.val_le_iff) (auto simp: isfinite_def)
  have z: "vmag (dmag a) = 0 \<longleftrightarrow> dmag a = 0" if "isfinite a" for a
    using le [OF that isfinite_zero] by (simp add: dmag_def)
  have "- int (vmag (dmag a)) \<le> int (vmag (dmag b)) \<longleftrightarrow> - int (dmag a) \<le> int (dmag b)" for a b
    by simp
  moreover have "int (vmag (dmag x)) \<le> - int (vmag (dmag y)) \<longleftrightarrow> int (dmag x) \<le> - int (dmag y)"
    using z [OF assms(1)] z [OF assms(2)] by linarith
  ultimately show ?thesis using le [OF assms] le [OF assms(2,1)]
    by (simp add: dval_def dkey_def)
qed

lemma dval_nonneg: "0 \<le> dkey x \<Longrightarrow> isfinite x \<Longrightarrow> 0 \<le> dval x"
  using dval_le_iff [of 0 x] by simp

lemma dval_eq_vmag: "0 \<le> dkey x \<Longrightarrow> isfinite x \<Longrightarrow> dval x = int (vmag (dmag x))"
  using dval_nonneg [of x] by (auto simp: dval_def)

lemmas double_eval = dlt_def dle_def isnan_def isinf_def isfinite_def dkey_def dmag_def dneg_def
  inf_mag_def

text \<open>Signed rounding of an integer multiple of \<open>2 ^ -1074\<close>.\<close>

definition srnd :: "int \<Rightarrow> int" where
  "srnd v = (if v < 0 then - int (rmag (nat (- v)) 1) else int (rmag (nat v) 1))"

lemma rmag_zero [simp]: "0 < q \<Longrightarrow> rmag 0 q = 0"
  by (simp add: rmag_def rhe_def floorlog_def)

lemma srnd_mono: "v \<le> w \<Longrightarrow> srnd v \<le> srnd w"
  using rmag_mono [of 1 1 "nat v" "nat w"] rmag_mono [of 1 1 "nat (- w)" "nat (- v)"]
  by (auto simp: srnd_def)

lemma srnd_zero [simp]: "srnd 0 = 0"
  by (simp add: srnd_def)

lemma srnd_dval: "isfinite x \<Longrightarrow> srnd (dval x) = dkey x"
  using ieee.rnd_val [of "dmag x"] ieee.rnd_val [of 0]
  by (auto simp: srnd_def dval_def dkey_def isfinite_def)

lemma dkey_dadd: "isfinite x \<Longrightarrow> isfinite y \<Longrightarrow> dkey (dadd x y) = srnd (dval x + dval y)"
  by (auto simp: dadd_def Let_def srnd_def dkey_mk abs_if)

lemma dadd_not_nan: "isfinite x \<Longrightarrow> isfinite y \<Longrightarrow> \<not> isnan (dadd x y)"
  by (auto simp: dadd_def Let_def) (simp add: isnan_def)

lemma dneg_of_props [simp]:
  "isfinite (dneg_of x) = isfinite x" "dval (dneg_of x) = - dval x" "dkey (dneg_of x) = - dkey x"
  "dmag (dneg_of x) = dmag x"
  using dmag_less [of x] by (auto simp: dneg_of_def isfinite_def dval_def dkey_def)

lemma dkey_dsub: "isfinite x \<Longrightarrow> isfinite y \<Longrightarrow> dkey (dsub x y) = srnd (dval x - dval y)"
  by (simp add: dsub_def dkey_dadd)

lemma dsub_not_nan: "isfinite x \<Longrightarrow> isfinite y \<Longrightarrow> \<not> isnan (dsub x y)"
  by (simp add: dsub_def dadd_not_nan)

lemma dsub_le:
  assumes "isfinite x" "isfinite y" "0 \<le> dkey y"
  shows "dkey (dsub x y) \<le> dkey x"
  using srnd_mono [of "dval x - dval y" "dval x"] dval_nonneg [OF assms(3,2)] assms
  by (simp add: dkey_dsub srnd_dval)

lemma dsub_nonneg:
  assumes "isfinite x" "isfinite y" "dkey y \<le> dkey x"
  shows "0 \<le> dkey (dsub x y)"
  using srnd_mono [of 0 "dval x - dval y"] dval_le_iff [of y x] assms by (simp add: dkey_dsub)

lemma dsub_finite:
  assumes "isfinite x" "isfinite y" "0 \<le> dkey y" "dkey y \<le> dkey x"
  shows "isfinite (dsub x y)"
  using dsub_le [OF assms(1-3)] dsub_nonneg [OF assms(1,2,4)] assms(1) by (simp add: isfinite_dkey)

lemma dadd_mono:
  assumes "isfinite x" "isfinite y" "isfinite x'" "isfinite y'" "dkey x \<le> dkey x'" "dkey y \<le> dkey y'"
  shows "dkey (dadd x y) \<le> dkey (dadd x' y')"
  using assms by (simp add: dkey_dadd srnd_mono add_mono dval_le_iff)

definition d_one :: double where
  "d_one = 0x3FF0000000000000"

lemma dmag_d_one: "dmag d_one = 1023 * 2 ^ 52"
  by (simp add: dmag_def d_one_def)

lemma vmag_d_one: "vmag (dmag d_one) = 2 ^ 1074"
  unfolding dmag_d_one vmag_def by (simp add: power_add [symmetric] del: power_numeral)

lemma isfinite_d_one [simp]: "isfinite d_one"
  by (simp add: isfinite_def dmag_d_one inf_mag_def)

lemma dkey_d_one: "dkey d_one = 1023 * 2 ^ 52"
  unfolding dkey_def dmag_d_one by (simp add: dneg_def d_one_def)

lemma nonneg_dmag_le: "0 \<le> dkey x \<Longrightarrow> dkey x \<le> dkey y \<Longrightarrow> dmag x \<le> dmag y"
  by (metis abs_dkey abs_of_nonneg order_trans of_nat_le_iff)

lemma nonneg_dkey: "0 \<le> dkey x \<Longrightarrow> dkey x = int (dmag x)"
  by (auto simp: dkey_def split: if_splits)

text \<open>Multiplication and division of non-negative finite values.\<close>

lemma dmul_nonneg_key:
  assumes "isfinite x" "isfinite y" "0 \<le> dkey x" "0 \<le> dkey y"
  shows "dkey (dmul x y) = int (rmag (vmag (dmag x) * vmag (dmag y)) (2 ^ 1074))"
proof -
  have "dmag z = 0" if "dneg z" "0 \<le> dkey z" for z using that by (simp add: dkey_def)
  then have "dneg z \<Longrightarrow> 0 \<le> dkey z \<Longrightarrow> vmag (dmag z) = 0" for z by simp
  then have "(dneg x \<noteq> dneg y) \<longrightarrow> vmag (dmag x) * vmag (dmag y) = 0"
    using assms(3,4) by auto
  then show ?thesis using assms(1,2) by (auto simp: dmul_def)
qed

lemma dmul_le_left:
  assumes "isfinite x" "isfinite y" "0 \<le> dkey x" "0 \<le> dkey y" "dkey y \<le> dkey d_one"
  shows "dkey (dmul x y) \<le> dkey x" "0 \<le> dkey (dmul x y)"
proof -
  have "dmag y \<le> dmag d_one" using assms(4,5) by (rule nonneg_dmag_le)
  then have "vmag (dmag y) \<le> 2 ^ 1074"
    using ieee.val_mono [of "dmag y" "dmag d_one"] isfinite_d_one
    by (simp only: vmag_d_one isfinite_def less_imp_le)
  then have "rmag (vmag (dmag x) * vmag (dmag y)) (2 ^ 1074) \<le> dmag x"
    using assms(1) by (intro ieee.rnd_le_code mult_le_mono2) (auto simp: isfinite_def)
  then show "dkey (dmul x y) \<le> dkey x"
    unfolding dmul_nonneg_key [OF assms(1-4)] nonneg_dkey [OF assms(3)] by (simp only: of_nat_le_iff)
  show "0 \<le> dkey (dmul x y)" using assms by (simp only: dmul_nonneg_key)
qed

lemma ddiv_not_nan: "isfinite x \<Longrightarrow> isfinite y \<Longrightarrow> dmag y \<noteq> 0 \<Longrightarrow> \<not> isnan (ddiv x y)"
  by (simp add: ddiv_def)

lemma pos_dmag: "0 < dkey y \<Longrightarrow> dmag y \<noteq> 0"
  by (auto simp: dkey_def split: if_splits)

lemma ddiv_nonneg_key:
  assumes "isfinite x" "isfinite y" "0 \<le> dkey x" "0 < dkey y"
  shows "dkey (ddiv x y) = int (rmag (vmag (dmag x) * 2 ^ 1074) (vmag (dmag y)))"
proof -
  have "\<not> dneg y" using assms(4) by (auto simp: dkey_def)
  moreover have "dneg x \<longrightarrow> vmag (dmag x) = 0" using assms(3) by (auto simp: dkey_def)
  moreover have "0 < vmag (dmag y)"
    using ieee.val_strict_mono [of 0 "dmag y"] assms(2) pos_dmag [OF assms(4)]
    by (simp add: isfinite_def)
  ultimately show ?thesis using assms(1,2) pos_dmag [OF assms(4)] by (auto simp: ddiv_def)
qed

lemma ddiv_nonneg:
  assumes "isfinite x" "isfinite y" "0 \<le> dkey x" "0 < dkey y"
  shows "0 \<le> dkey (ddiv x y)" "\<not> isnan (ddiv x y)"
  using ddiv_nonneg_key [OF assms] ddiv_not_nan [OF assms(1,2) pos_dmag [OF assms(4)]] by simp_all

lemma ddiv_le_left:
  assumes "isfinite x" "isfinite y" "0 \<le> dkey x" "dkey d_one \<le> dkey y"
  shows "dkey (ddiv x y) \<le> dkey x"
proof -
  have one: "0 < dkey d_one" by (simp add: dkey_d_one)
  have "dmag d_one \<le> dmag y" using nonneg_dmag_le [OF _ assms(4)] one by simp
  then have "2 ^ 1074 \<le> vmag (dmag y)"
    using ieee.val_mono [of "dmag d_one" "dmag y"] assms(2)
    by (simp only: vmag_d_one isfinite_def less_imp_le)
  then have "rmag (vmag (dmag x) * 2 ^ 1074) (vmag (dmag y)) \<le> dmag x"
    using assms(1)
    by (intro ieee.rnd_le_code mult_le_mono2) (auto simp: isfinite_def intro: less_le_trans)
  moreover have "0 < dkey y" using one assms(4) by simp
  ultimately show ?thesis
    using ddiv_nonneg_key [OF assms(1-3)] nonneg_dkey [OF assms(3)] by (simp only: of_nat_le_iff)
qed

end
