(* ===== verification/Enums.thy ===== *)
theory Enums
  imports Prelude
begin

text \<open>
  The taxonomy enums of \<^verbatim>\<open>include/congestion_fabric/enums.hpp\<close>. Each is an
  \<^verbatim>\<open>enum class : std::uint8_t\<close>, so a \<^verbatim>\<open>static_cast\<close> from an unchecked byte yields a value
  outside the enumerators. Enums the code casts from unchecked input (a protocol message or a
  persisted byte) have the extra constructor \<open>*_other\<close> for those values; \<open>FlowState\<close>,
  \<open>CongestionState\<close> and \<open>InfluenceKind\<close> are never cast without a check. \<open>*_to_u8\<close> is
  \<^verbatim>\<open>to_u8\<close>, \<open>*_of_u8\<close> is \<^verbatim>\<open>static_cast\<close>, \<open>*_valid\<close> are the range checks of the persistence
  code. The last section has the lifecycle predicates.
\<close>

section \<open>Enumerations and their byte values\<close>

text \<open>
  What the persistence layer relies on for every enum: a named enumerator passes the range
  check and survives the cast to a byte and back.
\<close>

locale byte_enum =
  fixes to_u8 :: "'e \<Rightarrow> u8" and of_u8 :: "u8 \<Rightarrow> 'e" and valid :: "u8 \<Rightarrow> bool" and named :: "'e \<Rightarrow> bool"
  assumes valid_named: "named e \<Longrightarrow> valid (to_u8 e)"
    and of_to: "named e \<Longrightarrow> of_u8 (to_u8 e) = e"
    and to_of: "valid u \<Longrightarrow> to_u8 (of_u8 u) = u"
    and named_of: "valid u \<Longrightarrow> named (of_u8 u)"
begin

lemma to_u8_inj: "named a \<Longrightarrow> named b \<Longrightarrow> to_u8 a = to_u8 b \<Longrightarrow> a = b"
  using of_to by metis

lemma valid_iff_image: "valid u \<longleftrightarrow> (\<exists>e. named e \<and> to_u8 e = u)"
  using valid_named to_of named_of by metis

end

lemma nth_u8_enum:
  assumes "map f xs = map of_nat [0..<n]" and "unat (u::u8) < n" and "n \<le> 256"
  shows "f (xs ! unat u) = u"
proof -
  have len: "length xs = n" using assms(1) by (metis length_map length_upt minus_nat.diff_0)
  then have "f (xs ! unat u) = map f xs ! unat u" using assms(2) by simp
  also have "\<dots> = u" using assms by simp
  finally show ?thesis .
qed

subsection \<open>DomainKind\<close>

datatype DomainKind = DK_PCIE_LINK | DK_PCIE_ROOT_COMPLEX | DK_GPU_COPY_ENGINE |
  DK_GPU_HOST_TRANSFER | DK_GPU_PEER_PATH | DK_NVLINK_CLASS_PATH | DK_NIC_TX | DK_NIC_RX |
  DK_NETWORK_PATH | DK_STORAGE_READ | DK_STORAGE_WRITE | DK_STORAGE_QUEUE |
  DK_HOST_MEMORY_BANDWIDTH | DK_PINNED_HOST_MEMORY_PATH | DK_NUMA_MEMORY_PATH |
  DK_COLLECTIVE_PATH | DK_COLLECTIVE_GROUP | DK_SHARED_TRANSFER_POOL | DK_COMPOSITE_PATH |
  DK_UNKNOWN | DK_other u8

fun DomainKind_to_u8 :: "DomainKind \<Rightarrow> u8" where
  "DomainKind_to_u8 DK_PCIE_LINK = 0"
| "DomainKind_to_u8 DK_PCIE_ROOT_COMPLEX = 1"
| "DomainKind_to_u8 DK_GPU_COPY_ENGINE = 2"
| "DomainKind_to_u8 DK_GPU_HOST_TRANSFER = 3"
| "DomainKind_to_u8 DK_GPU_PEER_PATH = 4"
| "DomainKind_to_u8 DK_NVLINK_CLASS_PATH = 5"
| "DomainKind_to_u8 DK_NIC_TX = 6"
| "DomainKind_to_u8 DK_NIC_RX = 7"
| "DomainKind_to_u8 DK_NETWORK_PATH = 8"
| "DomainKind_to_u8 DK_STORAGE_READ = 9"
| "DomainKind_to_u8 DK_STORAGE_WRITE = 10"
| "DomainKind_to_u8 DK_STORAGE_QUEUE = 11"
| "DomainKind_to_u8 DK_HOST_MEMORY_BANDWIDTH = 12"
| "DomainKind_to_u8 DK_PINNED_HOST_MEMORY_PATH = 13"
| "DomainKind_to_u8 DK_NUMA_MEMORY_PATH = 14"
| "DomainKind_to_u8 DK_COLLECTIVE_PATH = 15"
| "DomainKind_to_u8 DK_COLLECTIVE_GROUP = 16"
| "DomainKind_to_u8 DK_SHARED_TRANSFER_POOL = 17"
| "DomainKind_to_u8 DK_COMPOSITE_PATH = 18"
| "DomainKind_to_u8 DK_UNKNOWN = 19"
| "DomainKind_to_u8 (DK_other u) = u"

definition DomainKind_enum :: "DomainKind list" where
    "DomainKind_enum = [DK_PCIE_LINK, DK_PCIE_ROOT_COMPLEX, DK_GPU_COPY_ENGINE,
    DK_GPU_HOST_TRANSFER, DK_GPU_PEER_PATH, DK_NVLINK_CLASS_PATH, DK_NIC_TX, DK_NIC_RX,
    DK_NETWORK_PATH, DK_STORAGE_READ, DK_STORAGE_WRITE, DK_STORAGE_QUEUE,
    DK_HOST_MEMORY_BANDWIDTH, DK_PINNED_HOST_MEMORY_PATH, DK_NUMA_MEMORY_PATH,
    DK_COLLECTIVE_PATH, DK_COLLECTIVE_GROUP, DK_SHARED_TRANSFER_POOL, DK_COMPOSITE_PATH,
    DK_UNKNOWN]"

definition domain_kind_valid :: "u8 \<Rightarrow> bool" where
  "domain_kind_valid u \<longleftrightarrow> u \<le> DomainKind_to_u8 DK_UNKNOWN"

definition DomainKind_of_u8 :: "u8 \<Rightarrow> DomainKind" where
  "DomainKind_of_u8 u = (if domain_kind_valid u then DomainKind_enum ! unat u else DK_other u)"

definition DomainKind_named :: "DomainKind \<Rightarrow> bool" where
  "DomainKind_named k \<longleftrightarrow> k \<in> set DomainKind_enum"

lemma DomainKind_enum_bytes: "map DomainKind_to_u8 DomainKind_enum = map of_nat [0..<20]"
  by (simp add: DomainKind_enum_def upt_rec)

lemma domain_kind_valid_unat: "domain_kind_valid u \<longleftrightarrow> unat u < 20"
  by (simp add: domain_kind_valid_def word_le_nat_alt less_Suc_eq_le [symmetric])

interpretation DK: byte_enum DomainKind_to_u8 DomainKind_of_u8 domain_kind_valid DomainKind_named
proof
  show "domain_kind_valid (DomainKind_to_u8 e)" if "DomainKind_named e" for e
    using that by (auto simp: DomainKind_named_def DomainKind_enum_def domain_kind_valid_def)
  show "DomainKind_of_u8 (DomainKind_to_u8 e) = e" if "DomainKind_named e" for e
    using that by (auto simp: DomainKind_named_def DomainKind_enum_def DomainKind_of_u8_def domain_kind_valid_def)
  show "DomainKind_to_u8 (DomainKind_of_u8 u) = u" if "domain_kind_valid u" for u
    using nth_u8_enum [OF DomainKind_enum_bytes] that by (simp add: DomainKind_of_u8_def domain_kind_valid_unat)
  show "DomainKind_named (DomainKind_of_u8 u)" if "domain_kind_valid u" for u
    using that nth_mem [of "unat u" DomainKind_enum] arg_cong [OF DomainKind_enum_bytes, of length]
    by (simp add: DomainKind_named_def DomainKind_of_u8_def domain_kind_valid_unat)
qed

subsection \<open>TrafficClass\<close>

datatype TrafficClass = TC_LATENCY_CRITICAL | TC_THROUGHPUT | TC_BULK_TRANSFER | TC_CHECKPOINT |
  TC_RECOVERY | TC_MODEL_LOAD | TC_KV_STATE | TC_COLLECTIVE | TC_REPLICATION | TC_BACKGROUND |
  TC_CONTROL | TC_UNKNOWN | TC_other u8

fun TrafficClass_to_u8 :: "TrafficClass \<Rightarrow> u8" where
  "TrafficClass_to_u8 TC_LATENCY_CRITICAL = 0"
| "TrafficClass_to_u8 TC_THROUGHPUT = 1"
| "TrafficClass_to_u8 TC_BULK_TRANSFER = 2"
| "TrafficClass_to_u8 TC_CHECKPOINT = 3"
| "TrafficClass_to_u8 TC_RECOVERY = 4"
| "TrafficClass_to_u8 TC_MODEL_LOAD = 5"
| "TrafficClass_to_u8 TC_KV_STATE = 6"
| "TrafficClass_to_u8 TC_COLLECTIVE = 7"
| "TrafficClass_to_u8 TC_REPLICATION = 8"
| "TrafficClass_to_u8 TC_BACKGROUND = 9"
| "TrafficClass_to_u8 TC_CONTROL = 10"
| "TrafficClass_to_u8 TC_UNKNOWN = 11"
| "TrafficClass_to_u8 (TC_other u) = u"

definition TrafficClass_enum :: "TrafficClass list" where
    "TrafficClass_enum = [TC_LATENCY_CRITICAL, TC_THROUGHPUT, TC_BULK_TRANSFER, TC_CHECKPOINT,
    TC_RECOVERY, TC_MODEL_LOAD, TC_KV_STATE, TC_COLLECTIVE, TC_REPLICATION, TC_BACKGROUND,
    TC_CONTROL, TC_UNKNOWN]"

definition traffic_class_valid :: "u8 \<Rightarrow> bool" where
  "traffic_class_valid u \<longleftrightarrow> u \<le> TrafficClass_to_u8 TC_UNKNOWN"

definition TrafficClass_of_u8 :: "u8 \<Rightarrow> TrafficClass" where
  "TrafficClass_of_u8 u = (if traffic_class_valid u then TrafficClass_enum ! unat u else TC_other u)"

definition TrafficClass_named :: "TrafficClass \<Rightarrow> bool" where
  "TrafficClass_named k \<longleftrightarrow> k \<in> set TrafficClass_enum"

lemma TrafficClass_enum_bytes: "map TrafficClass_to_u8 TrafficClass_enum = map of_nat [0..<12]"
  by (simp add: TrafficClass_enum_def upt_rec)

lemma traffic_class_valid_unat: "traffic_class_valid u \<longleftrightarrow> unat u < 12"
  by (simp add: traffic_class_valid_def word_le_nat_alt less_Suc_eq_le [symmetric])

interpretation TC: byte_enum TrafficClass_to_u8 TrafficClass_of_u8 traffic_class_valid TrafficClass_named
proof
  show "traffic_class_valid (TrafficClass_to_u8 e)" if "TrafficClass_named e" for e
    using that by (auto simp: TrafficClass_named_def TrafficClass_enum_def traffic_class_valid_def)
  show "TrafficClass_of_u8 (TrafficClass_to_u8 e) = e" if "TrafficClass_named e" for e
    using that by (auto simp: TrafficClass_named_def TrafficClass_enum_def TrafficClass_of_u8_def traffic_class_valid_def)
  show "TrafficClass_to_u8 (TrafficClass_of_u8 u) = u" if "traffic_class_valid u" for u
    using nth_u8_enum [OF TrafficClass_enum_bytes] that by (simp add: TrafficClass_of_u8_def traffic_class_valid_unat)
  show "TrafficClass_named (TrafficClass_of_u8 u)" if "traffic_class_valid u" for u
    using that nth_mem [of "unat u" TrafficClass_enum] arg_cong [OF TrafficClass_enum_bytes, of length]
    by (simp add: TrafficClass_named_def TrafficClass_of_u8_def traffic_class_valid_unat)
qed

subsection \<open>MeasurementKind\<close>

datatype MeasurementKind = MK_OFFERED_BYTES_PER_SEC | MK_ADMITTED_BYTES_PER_SEC |
  MK_COMPLETED_BYTES_PER_SEC | MK_QUEUE_DEPTH_OPS | MK_QUEUED_BYTES | MK_IN_FLIGHT_BYTES |
  MK_SERVICE_LATENCY | MK_QUEUEING_LATENCY | MK_COMPLETION_LATENCY | MK_RETRY_VOLUME |
  MK_ACTIVE_FLOW_COUNT | MK_BURST_RATE | MK_UTILIZATION | MK_EFFECTIVE_BANDWIDTH |
  MK_SERVICE_DEFICIT | MK_BACKLOG_GROWTH_RATE | MK_FAIRNESS | MK_CONGESTION_DURATION |
  MK_RECOVERY_DURATION | MK_UNKNOWN | MK_other u8

fun MeasurementKind_to_u8 :: "MeasurementKind \<Rightarrow> u8" where
  "MeasurementKind_to_u8 MK_OFFERED_BYTES_PER_SEC = 0"
| "MeasurementKind_to_u8 MK_ADMITTED_BYTES_PER_SEC = 1"
| "MeasurementKind_to_u8 MK_COMPLETED_BYTES_PER_SEC = 2"
| "MeasurementKind_to_u8 MK_QUEUE_DEPTH_OPS = 3"
| "MeasurementKind_to_u8 MK_QUEUED_BYTES = 4"
| "MeasurementKind_to_u8 MK_IN_FLIGHT_BYTES = 5"
| "MeasurementKind_to_u8 MK_SERVICE_LATENCY = 6"
| "MeasurementKind_to_u8 MK_QUEUEING_LATENCY = 7"
| "MeasurementKind_to_u8 MK_COMPLETION_LATENCY = 8"
| "MeasurementKind_to_u8 MK_RETRY_VOLUME = 9"
| "MeasurementKind_to_u8 MK_ACTIVE_FLOW_COUNT = 10"
| "MeasurementKind_to_u8 MK_BURST_RATE = 11"
| "MeasurementKind_to_u8 MK_UTILIZATION = 12"
| "MeasurementKind_to_u8 MK_EFFECTIVE_BANDWIDTH = 13"
| "MeasurementKind_to_u8 MK_SERVICE_DEFICIT = 14"
| "MeasurementKind_to_u8 MK_BACKLOG_GROWTH_RATE = 15"
| "MeasurementKind_to_u8 MK_FAIRNESS = 16"
| "MeasurementKind_to_u8 MK_CONGESTION_DURATION = 17"
| "MeasurementKind_to_u8 MK_RECOVERY_DURATION = 18"
| "MeasurementKind_to_u8 MK_UNKNOWN = 19"
| "MeasurementKind_to_u8 (MK_other u) = u"

definition MeasurementKind_enum :: "MeasurementKind list" where
    "MeasurementKind_enum = [MK_OFFERED_BYTES_PER_SEC, MK_ADMITTED_BYTES_PER_SEC,
    MK_COMPLETED_BYTES_PER_SEC, MK_QUEUE_DEPTH_OPS, MK_QUEUED_BYTES, MK_IN_FLIGHT_BYTES,
    MK_SERVICE_LATENCY, MK_QUEUEING_LATENCY, MK_COMPLETION_LATENCY, MK_RETRY_VOLUME,
    MK_ACTIVE_FLOW_COUNT, MK_BURST_RATE, MK_UTILIZATION, MK_EFFECTIVE_BANDWIDTH,
    MK_SERVICE_DEFICIT, MK_BACKLOG_GROWTH_RATE, MK_FAIRNESS, MK_CONGESTION_DURATION,
    MK_RECOVERY_DURATION, MK_UNKNOWN]"

definition measurement_kind_valid :: "u8 \<Rightarrow> bool" where
  "measurement_kind_valid u \<longleftrightarrow> u \<le> MeasurementKind_to_u8 MK_UNKNOWN"

definition MeasurementKind_of_u8 :: "u8 \<Rightarrow> MeasurementKind" where
  "MeasurementKind_of_u8 u = (if measurement_kind_valid u then MeasurementKind_enum ! unat u else MK_other u)"

definition MeasurementKind_named :: "MeasurementKind \<Rightarrow> bool" where
  "MeasurementKind_named k \<longleftrightarrow> k \<in> set MeasurementKind_enum"

lemma MeasurementKind_enum_bytes: "map MeasurementKind_to_u8 MeasurementKind_enum = map of_nat [0..<20]"
  by (simp add: MeasurementKind_enum_def upt_rec)

lemma measurement_kind_valid_unat: "measurement_kind_valid u \<longleftrightarrow> unat u < 20"
  by (simp add: measurement_kind_valid_def word_le_nat_alt less_Suc_eq_le [symmetric])

interpretation MK: byte_enum MeasurementKind_to_u8 MeasurementKind_of_u8 measurement_kind_valid MeasurementKind_named
proof
  show "measurement_kind_valid (MeasurementKind_to_u8 e)" if "MeasurementKind_named e" for e
    using that by (auto simp: MeasurementKind_named_def MeasurementKind_enum_def measurement_kind_valid_def)
  show "MeasurementKind_of_u8 (MeasurementKind_to_u8 e) = e" if "MeasurementKind_named e" for e
    using that by (auto simp: MeasurementKind_named_def MeasurementKind_enum_def MeasurementKind_of_u8_def measurement_kind_valid_def)
  show "MeasurementKind_to_u8 (MeasurementKind_of_u8 u) = u" if "measurement_kind_valid u" for u
    using nth_u8_enum [OF MeasurementKind_enum_bytes] that by (simp add: MeasurementKind_of_u8_def measurement_kind_valid_unat)
  show "MeasurementKind_named (MeasurementKind_of_u8 u)" if "measurement_kind_valid u" for u
    using that nth_mem [of "unat u" MeasurementKind_enum] arg_cong [OF MeasurementKind_enum_bytes, of length]
    by (simp add: MeasurementKind_named_def MeasurementKind_of_u8_def measurement_kind_valid_unat)
qed

subsection \<open>FlowState\<close>

datatype FlowState = FS_DECLARED | FS_VALIDATING | FS_ADMITTED | FS_QUEUED | FS_ACTIVE |
  FS_BACKPRESSURED | FS_THROTTLED | FS_DRAINING | FS_COMPLETED | FS_CANCELLED | FS_FAILED |
  FS_STALE | FS_SUPERSEDED | FS_REVALIDATION_REQUIRED | FS_RETIRED

fun FlowState_to_u8 :: "FlowState \<Rightarrow> u8" where
  "FlowState_to_u8 FS_DECLARED = 0"
| "FlowState_to_u8 FS_VALIDATING = 1"
| "FlowState_to_u8 FS_ADMITTED = 2"
| "FlowState_to_u8 FS_QUEUED = 3"
| "FlowState_to_u8 FS_ACTIVE = 4"
| "FlowState_to_u8 FS_BACKPRESSURED = 5"
| "FlowState_to_u8 FS_THROTTLED = 6"
| "FlowState_to_u8 FS_DRAINING = 7"
| "FlowState_to_u8 FS_COMPLETED = 8"
| "FlowState_to_u8 FS_CANCELLED = 9"
| "FlowState_to_u8 FS_FAILED = 10"
| "FlowState_to_u8 FS_STALE = 11"
| "FlowState_to_u8 FS_SUPERSEDED = 12"
| "FlowState_to_u8 FS_REVALIDATION_REQUIRED = 13"
| "FlowState_to_u8 FS_RETIRED = 14"

definition FlowState_enum :: "FlowState list" where
    "FlowState_enum = [FS_DECLARED, FS_VALIDATING, FS_ADMITTED, FS_QUEUED, FS_ACTIVE,
    FS_BACKPRESSURED, FS_THROTTLED, FS_DRAINING, FS_COMPLETED, FS_CANCELLED, FS_FAILED,
    FS_STALE, FS_SUPERSEDED, FS_REVALIDATION_REQUIRED, FS_RETIRED]"

definition flow_state_valid :: "u8 \<Rightarrow> bool" where
  "flow_state_valid u \<longleftrightarrow> u \<le> FlowState_to_u8 FS_RETIRED"

definition FlowState_of_u8 :: "u8 \<Rightarrow> FlowState" where
  "FlowState_of_u8 u = FlowState_enum ! unat u"

definition FlowState_named :: "FlowState \<Rightarrow> bool" where
  "FlowState_named k \<longleftrightarrow> k \<in> set FlowState_enum"

lemma FlowState_enum_bytes: "map FlowState_to_u8 FlowState_enum = map of_nat [0..<15]"
  by (simp add: FlowState_enum_def upt_rec)

lemma flow_state_valid_unat: "flow_state_valid u \<longleftrightarrow> unat u < 15"
  by (simp add: flow_state_valid_def word_le_nat_alt less_Suc_eq_le [symmetric])

interpretation FS: byte_enum FlowState_to_u8 FlowState_of_u8 flow_state_valid FlowState_named
proof
  show "flow_state_valid (FlowState_to_u8 e)" if "FlowState_named e" for e
    using that by (auto simp: FlowState_named_def FlowState_enum_def flow_state_valid_def)
  show "FlowState_of_u8 (FlowState_to_u8 e) = e" if "FlowState_named e" for e
    using that by (auto simp: FlowState_named_def FlowState_enum_def FlowState_of_u8_def flow_state_valid_def)
  show "FlowState_to_u8 (FlowState_of_u8 u) = u" if "flow_state_valid u" for u
    using nth_u8_enum [OF FlowState_enum_bytes] that by (simp add: FlowState_of_u8_def flow_state_valid_unat)
  show "FlowState_named (FlowState_of_u8 u)" if "flow_state_valid u" for u
    using that nth_mem [of "unat u" FlowState_enum] arg_cong [OF FlowState_enum_bytes, of length]
    by (simp add: FlowState_named_def FlowState_of_u8_def flow_state_valid_unat)
qed

subsection \<open>CongestionState\<close>

datatype CongestionState = CS_UNKNOWN | CS_IDLE | CS_HEALTHY | CS_BUSY |
  CS_APPROACHING_SATURATION | CS_SATURATED | CS_QUEUEING | CS_CONGESTED | CS_SEVERELY_CONGESTED
  | CS_BACKPRESSURED | CS_RECOVERING | CS_STALE | CS_REVALIDATION_REQUIRED

fun CongestionState_to_u8 :: "CongestionState \<Rightarrow> u8" where
  "CongestionState_to_u8 CS_UNKNOWN = 0"
| "CongestionState_to_u8 CS_IDLE = 1"
| "CongestionState_to_u8 CS_HEALTHY = 2"
| "CongestionState_to_u8 CS_BUSY = 3"
| "CongestionState_to_u8 CS_APPROACHING_SATURATION = 4"
| "CongestionState_to_u8 CS_SATURATED = 5"
| "CongestionState_to_u8 CS_QUEUEING = 6"
| "CongestionState_to_u8 CS_CONGESTED = 7"
| "CongestionState_to_u8 CS_SEVERELY_CONGESTED = 8"
| "CongestionState_to_u8 CS_BACKPRESSURED = 9"
| "CongestionState_to_u8 CS_RECOVERING = 10"
| "CongestionState_to_u8 CS_STALE = 11"
| "CongestionState_to_u8 CS_REVALIDATION_REQUIRED = 12"

definition CongestionState_enum :: "CongestionState list" where
    "CongestionState_enum = [CS_UNKNOWN, CS_IDLE, CS_HEALTHY, CS_BUSY,
    CS_APPROACHING_SATURATION, CS_SATURATED, CS_QUEUEING, CS_CONGESTED, CS_SEVERELY_CONGESTED,
    CS_BACKPRESSURED, CS_RECOVERING, CS_STALE, CS_REVALIDATION_REQUIRED]"

definition congestion_state_valid :: "u8 \<Rightarrow> bool" where
  "congestion_state_valid u \<longleftrightarrow> u \<le> CongestionState_to_u8 CS_REVALIDATION_REQUIRED"

definition CongestionState_of_u8 :: "u8 \<Rightarrow> CongestionState" where
  "CongestionState_of_u8 u = CongestionState_enum ! unat u"

definition CongestionState_named :: "CongestionState \<Rightarrow> bool" where
  "CongestionState_named k \<longleftrightarrow> k \<in> set CongestionState_enum"

lemma CongestionState_enum_bytes: "map CongestionState_to_u8 CongestionState_enum = map of_nat [0..<13]"
  by (simp add: CongestionState_enum_def upt_rec)

lemma congestion_state_valid_unat: "congestion_state_valid u \<longleftrightarrow> unat u < 13"
  by (simp add: congestion_state_valid_def word_le_nat_alt less_Suc_eq_le [symmetric])

interpretation CS: byte_enum CongestionState_to_u8 CongestionState_of_u8 congestion_state_valid CongestionState_named
proof
  show "congestion_state_valid (CongestionState_to_u8 e)" if "CongestionState_named e" for e
    using that by (auto simp: CongestionState_named_def CongestionState_enum_def congestion_state_valid_def)
  show "CongestionState_of_u8 (CongestionState_to_u8 e) = e" if "CongestionState_named e" for e
    using that by (auto simp: CongestionState_named_def CongestionState_enum_def CongestionState_of_u8_def congestion_state_valid_def)
  show "CongestionState_to_u8 (CongestionState_of_u8 u) = u" if "congestion_state_valid u" for u
    using nth_u8_enum [OF CongestionState_enum_bytes] that by (simp add: CongestionState_of_u8_def congestion_state_valid_unat)
  show "CongestionState_named (CongestionState_of_u8 u)" if "congestion_state_valid u" for u
    using that nth_mem [of "unat u" CongestionState_enum] arg_cong [OF CongestionState_enum_bytes, of length]
    by (simp add: CongestionState_named_def CongestionState_of_u8_def congestion_state_valid_unat)
qed

subsection \<open>MeasurementProvenance\<close>

datatype MeasurementProvenance = MP_MEASURED | MP_REPORTED | MP_DERIVED | MP_ESTIMATED |
  MP_SYNTHETIC | MP_RECONSTRUCTED | MP_UNKNOWN | MP_other u8

fun MeasurementProvenance_to_u8 :: "MeasurementProvenance \<Rightarrow> u8" where
  "MeasurementProvenance_to_u8 MP_MEASURED = 0"
| "MeasurementProvenance_to_u8 MP_REPORTED = 1"
| "MeasurementProvenance_to_u8 MP_DERIVED = 2"
| "MeasurementProvenance_to_u8 MP_ESTIMATED = 3"
| "MeasurementProvenance_to_u8 MP_SYNTHETIC = 4"
| "MeasurementProvenance_to_u8 MP_RECONSTRUCTED = 5"
| "MeasurementProvenance_to_u8 MP_UNKNOWN = 6"
| "MeasurementProvenance_to_u8 (MP_other u) = u"

definition MeasurementProvenance_enum :: "MeasurementProvenance list" where
    "MeasurementProvenance_enum = [MP_MEASURED, MP_REPORTED, MP_DERIVED, MP_ESTIMATED,
    MP_SYNTHETIC, MP_RECONSTRUCTED, MP_UNKNOWN]"

definition provenance_valid :: "u8 \<Rightarrow> bool" where
  "provenance_valid u \<longleftrightarrow> u \<le> MeasurementProvenance_to_u8 MP_UNKNOWN"

definition MeasurementProvenance_of_u8 :: "u8 \<Rightarrow> MeasurementProvenance" where
  "MeasurementProvenance_of_u8 u = (if provenance_valid u then MeasurementProvenance_enum ! unat u else MP_other u)"

definition MeasurementProvenance_named :: "MeasurementProvenance \<Rightarrow> bool" where
  "MeasurementProvenance_named k \<longleftrightarrow> k \<in> set MeasurementProvenance_enum"

lemma MeasurementProvenance_enum_bytes: "map MeasurementProvenance_to_u8 MeasurementProvenance_enum = map of_nat [0..<7]"
  by (simp add: MeasurementProvenance_enum_def upt_rec)

lemma provenance_valid_unat: "provenance_valid u \<longleftrightarrow> unat u < 7"
  by (simp add: provenance_valid_def word_le_nat_alt less_Suc_eq_le [symmetric])

interpretation MP: byte_enum MeasurementProvenance_to_u8 MeasurementProvenance_of_u8 provenance_valid MeasurementProvenance_named
proof
  show "provenance_valid (MeasurementProvenance_to_u8 e)" if "MeasurementProvenance_named e" for e
    using that by (auto simp: MeasurementProvenance_named_def MeasurementProvenance_enum_def provenance_valid_def)
  show "MeasurementProvenance_of_u8 (MeasurementProvenance_to_u8 e) = e" if "MeasurementProvenance_named e" for e
    using that by (auto simp: MeasurementProvenance_named_def MeasurementProvenance_enum_def MeasurementProvenance_of_u8_def provenance_valid_def)
  show "MeasurementProvenance_to_u8 (MeasurementProvenance_of_u8 u) = u" if "provenance_valid u" for u
    using nth_u8_enum [OF MeasurementProvenance_enum_bytes] that by (simp add: MeasurementProvenance_of_u8_def provenance_valid_unat)
  show "MeasurementProvenance_named (MeasurementProvenance_of_u8 u)" if "provenance_valid u" for u
    using that nth_mem [of "unat u" MeasurementProvenance_enum] arg_cong [OF MeasurementProvenance_enum_bytes, of length]
    by (simp add: MeasurementProvenance_named_def MeasurementProvenance_of_u8_def provenance_valid_unat)
qed

subsection \<open>ActionIntent\<close>

datatype ActionIntent = AI_ALLOW | AI_ADMIT_LIMITED | AI_THROTTLE | AI_DEFER |
  AI_PAUSE_NEW_TRAFFIC | AI_DRAIN | AI_REDUCE_BURST | AI_REQUEST_REROUTE | AI_REQUEST_REPLAN |
  AI_REQUEST_RESCHEDULE | AI_REQUEST_PREEMPTION | AI_REVALIDATE | AI_NO_ACTION | AI_UNKNOWN |
  AI_other u8

fun ActionIntent_to_u8 :: "ActionIntent \<Rightarrow> u8" where
  "ActionIntent_to_u8 AI_ALLOW = 0"
| "ActionIntent_to_u8 AI_ADMIT_LIMITED = 1"
| "ActionIntent_to_u8 AI_THROTTLE = 2"
| "ActionIntent_to_u8 AI_DEFER = 3"
| "ActionIntent_to_u8 AI_PAUSE_NEW_TRAFFIC = 4"
| "ActionIntent_to_u8 AI_DRAIN = 5"
| "ActionIntent_to_u8 AI_REDUCE_BURST = 6"
| "ActionIntent_to_u8 AI_REQUEST_REROUTE = 7"
| "ActionIntent_to_u8 AI_REQUEST_REPLAN = 8"
| "ActionIntent_to_u8 AI_REQUEST_RESCHEDULE = 9"
| "ActionIntent_to_u8 AI_REQUEST_PREEMPTION = 10"
| "ActionIntent_to_u8 AI_REVALIDATE = 11"
| "ActionIntent_to_u8 AI_NO_ACTION = 12"
| "ActionIntent_to_u8 AI_UNKNOWN = 13"
| "ActionIntent_to_u8 (AI_other u) = u"

definition ActionIntent_enum :: "ActionIntent list" where
    "ActionIntent_enum = [AI_ALLOW, AI_ADMIT_LIMITED, AI_THROTTLE, AI_DEFER,
    AI_PAUSE_NEW_TRAFFIC, AI_DRAIN, AI_REDUCE_BURST, AI_REQUEST_REROUTE, AI_REQUEST_REPLAN,
    AI_REQUEST_RESCHEDULE, AI_REQUEST_PREEMPTION, AI_REVALIDATE, AI_NO_ACTION, AI_UNKNOWN]"

definition action_intent_valid :: "u8 \<Rightarrow> bool" where
  "action_intent_valid u \<longleftrightarrow> u \<le> ActionIntent_to_u8 AI_UNKNOWN"

definition ActionIntent_of_u8 :: "u8 \<Rightarrow> ActionIntent" where
  "ActionIntent_of_u8 u = (if action_intent_valid u then ActionIntent_enum ! unat u else AI_other u)"

definition ActionIntent_named :: "ActionIntent \<Rightarrow> bool" where
  "ActionIntent_named k \<longleftrightarrow> k \<in> set ActionIntent_enum"

lemma ActionIntent_enum_bytes: "map ActionIntent_to_u8 ActionIntent_enum = map of_nat [0..<14]"
  by (simp add: ActionIntent_enum_def upt_rec)

lemma action_intent_valid_unat: "action_intent_valid u \<longleftrightarrow> unat u < 14"
  by (simp add: action_intent_valid_def word_le_nat_alt less_Suc_eq_le [symmetric])

interpretation AI: byte_enum ActionIntent_to_u8 ActionIntent_of_u8 action_intent_valid ActionIntent_named
proof
  show "action_intent_valid (ActionIntent_to_u8 e)" if "ActionIntent_named e" for e
    using that by (auto simp: ActionIntent_named_def ActionIntent_enum_def action_intent_valid_def)
  show "ActionIntent_of_u8 (ActionIntent_to_u8 e) = e" if "ActionIntent_named e" for e
    using that by (auto simp: ActionIntent_named_def ActionIntent_enum_def ActionIntent_of_u8_def action_intent_valid_def)
  show "ActionIntent_to_u8 (ActionIntent_of_u8 u) = u" if "action_intent_valid u" for u
    using nth_u8_enum [OF ActionIntent_enum_bytes] that by (simp add: ActionIntent_of_u8_def action_intent_valid_unat)
  show "ActionIntent_named (ActionIntent_of_u8 u)" if "action_intent_valid u" for u
    using that nth_mem [of "unat u" ActionIntent_enum] arg_cong [OF ActionIntent_enum_bytes, of length]
    by (simp add: ActionIntent_named_def ActionIntent_of_u8_def action_intent_valid_unat)
qed

subsection \<open>BandwidthKind\<close>

datatype BandwidthKind = BK_THEORETICAL | BK_CONFIGURED | BK_MEASURED_SERVICE |
  BK_EFFECTIVE_WORKLOAD | BK_RESIDUAL | BK_RESERVED | BK_CONGESTED | BK_UNKNOWN | BK_other u8

fun BandwidthKind_to_u8 :: "BandwidthKind \<Rightarrow> u8" where
  "BandwidthKind_to_u8 BK_THEORETICAL = 0"
| "BandwidthKind_to_u8 BK_CONFIGURED = 1"
| "BandwidthKind_to_u8 BK_MEASURED_SERVICE = 2"
| "BandwidthKind_to_u8 BK_EFFECTIVE_WORKLOAD = 3"
| "BandwidthKind_to_u8 BK_RESIDUAL = 4"
| "BandwidthKind_to_u8 BK_RESERVED = 5"
| "BandwidthKind_to_u8 BK_CONGESTED = 6"
| "BandwidthKind_to_u8 BK_UNKNOWN = 7"
| "BandwidthKind_to_u8 (BK_other u) = u"

definition BandwidthKind_enum :: "BandwidthKind list" where
    "BandwidthKind_enum = [BK_THEORETICAL, BK_CONFIGURED, BK_MEASURED_SERVICE,
    BK_EFFECTIVE_WORKLOAD, BK_RESIDUAL, BK_RESERVED, BK_CONGESTED, BK_UNKNOWN]"

definition bandwidth_kind_valid :: "u8 \<Rightarrow> bool" where
  "bandwidth_kind_valid u \<longleftrightarrow> u \<le> BandwidthKind_to_u8 BK_UNKNOWN"

definition BandwidthKind_of_u8 :: "u8 \<Rightarrow> BandwidthKind" where
  "BandwidthKind_of_u8 u = (if bandwidth_kind_valid u then BandwidthKind_enum ! unat u else BK_other u)"

definition BandwidthKind_named :: "BandwidthKind \<Rightarrow> bool" where
  "BandwidthKind_named k \<longleftrightarrow> k \<in> set BandwidthKind_enum"

lemma BandwidthKind_enum_bytes: "map BandwidthKind_to_u8 BandwidthKind_enum = map of_nat [0..<8]"
  by (simp add: BandwidthKind_enum_def upt_rec)

lemma bandwidth_kind_valid_unat: "bandwidth_kind_valid u \<longleftrightarrow> unat u < 8"
  by (simp add: bandwidth_kind_valid_def word_le_nat_alt less_Suc_eq_le [symmetric])

interpretation BK: byte_enum BandwidthKind_to_u8 BandwidthKind_of_u8 bandwidth_kind_valid BandwidthKind_named
proof
  show "bandwidth_kind_valid (BandwidthKind_to_u8 e)" if "BandwidthKind_named e" for e
    using that by (auto simp: BandwidthKind_named_def BandwidthKind_enum_def bandwidth_kind_valid_def)
  show "BandwidthKind_of_u8 (BandwidthKind_to_u8 e) = e" if "BandwidthKind_named e" for e
    using that by (auto simp: BandwidthKind_named_def BandwidthKind_enum_def BandwidthKind_of_u8_def bandwidth_kind_valid_def)
  show "BandwidthKind_to_u8 (BandwidthKind_of_u8 u) = u" if "bandwidth_kind_valid u" for u
    using nth_u8_enum [OF BandwidthKind_enum_bytes] that by (simp add: BandwidthKind_of_u8_def bandwidth_kind_valid_unat)
  show "BandwidthKind_named (BandwidthKind_of_u8 u)" if "bandwidth_kind_valid u" for u
    using that nth_mem [of "unat u" BandwidthKind_enum] arg_cong [OF BandwidthKind_enum_bytes, of length]
    by (simp add: BandwidthKind_named_def BandwidthKind_of_u8_def bandwidth_kind_valid_unat)
qed

subsection \<open>FairnessModel\<close>

datatype FairnessModel = FM_EQUAL_SHARE | FM_WEIGHTED_SHARE | FM_MINIMUM_GUARANTEED_SHARE |
  FM_CAPPED_SHARE | FM_PROTECTED_LATENCY_CRITICAL_SHARE | FM_CALLER_WEIGHTS | FM_UNKNOWN |
  FM_other u8

fun FairnessModel_to_u8 :: "FairnessModel \<Rightarrow> u8" where
  "FairnessModel_to_u8 FM_EQUAL_SHARE = 0"
| "FairnessModel_to_u8 FM_WEIGHTED_SHARE = 1"
| "FairnessModel_to_u8 FM_MINIMUM_GUARANTEED_SHARE = 2"
| "FairnessModel_to_u8 FM_CAPPED_SHARE = 3"
| "FairnessModel_to_u8 FM_PROTECTED_LATENCY_CRITICAL_SHARE = 4"
| "FairnessModel_to_u8 FM_CALLER_WEIGHTS = 5"
| "FairnessModel_to_u8 FM_UNKNOWN = 6"
| "FairnessModel_to_u8 (FM_other u) = u"

definition FairnessModel_enum :: "FairnessModel list" where
    "FairnessModel_enum = [FM_EQUAL_SHARE, FM_WEIGHTED_SHARE, FM_MINIMUM_GUARANTEED_SHARE,
    FM_CAPPED_SHARE, FM_PROTECTED_LATENCY_CRITICAL_SHARE, FM_CALLER_WEIGHTS, FM_UNKNOWN]"

definition fairness_model_valid :: "u8 \<Rightarrow> bool" where
  "fairness_model_valid u \<longleftrightarrow> u \<le> FairnessModel_to_u8 FM_UNKNOWN"

definition FairnessModel_of_u8 :: "u8 \<Rightarrow> FairnessModel" where
  "FairnessModel_of_u8 u = (if fairness_model_valid u then FairnessModel_enum ! unat u else FM_other u)"

definition FairnessModel_named :: "FairnessModel \<Rightarrow> bool" where
  "FairnessModel_named k \<longleftrightarrow> k \<in> set FairnessModel_enum"

lemma FairnessModel_enum_bytes: "map FairnessModel_to_u8 FairnessModel_enum = map of_nat [0..<7]"
  by (simp add: FairnessModel_enum_def upt_rec)

lemma fairness_model_valid_unat: "fairness_model_valid u \<longleftrightarrow> unat u < 7"
  by (simp add: fairness_model_valid_def word_le_nat_alt less_Suc_eq_le [symmetric])

interpretation FM: byte_enum FairnessModel_to_u8 FairnessModel_of_u8 fairness_model_valid FairnessModel_named
proof
  show "fairness_model_valid (FairnessModel_to_u8 e)" if "FairnessModel_named e" for e
    using that by (auto simp: FairnessModel_named_def FairnessModel_enum_def fairness_model_valid_def)
  show "FairnessModel_of_u8 (FairnessModel_to_u8 e) = e" if "FairnessModel_named e" for e
    using that by (auto simp: FairnessModel_named_def FairnessModel_enum_def FairnessModel_of_u8_def fairness_model_valid_def)
  show "FairnessModel_to_u8 (FairnessModel_of_u8 u) = u" if "fairness_model_valid u" for u
    using nth_u8_enum [OF FairnessModel_enum_bytes] that by (simp add: FairnessModel_of_u8_def fairness_model_valid_unat)
  show "FairnessModel_named (FairnessModel_of_u8 u)" if "fairness_model_valid u" for u
    using that nth_mem [of "unat u" FairnessModel_enum] arg_cong [OF FairnessModel_enum_bytes, of length]
    by (simp add: FairnessModel_named_def FairnessModel_of_u8_def fairness_model_valid_unat)
qed

subsection \<open>InfluenceKind\<close>

datatype InfluenceKind = IK_FORWARD | IK_REVERSE | IK_UNKNOWN

fun InfluenceKind_to_u8 :: "InfluenceKind \<Rightarrow> u8" where
  "InfluenceKind_to_u8 IK_FORWARD = 0"
| "InfluenceKind_to_u8 IK_REVERSE = 1"
| "InfluenceKind_to_u8 IK_UNKNOWN = 2"

definition InfluenceKind_enum :: "InfluenceKind list" where
    "InfluenceKind_enum = [IK_FORWARD, IK_REVERSE, IK_UNKNOWN]"

definition influence_kind_valid :: "u8 \<Rightarrow> bool" where
  "influence_kind_valid u \<longleftrightarrow> u \<le> InfluenceKind_to_u8 IK_UNKNOWN"

definition InfluenceKind_of_u8 :: "u8 \<Rightarrow> InfluenceKind" where
  "InfluenceKind_of_u8 u = InfluenceKind_enum ! unat u"

definition InfluenceKind_named :: "InfluenceKind \<Rightarrow> bool" where
  "InfluenceKind_named k \<longleftrightarrow> k \<in> set InfluenceKind_enum"

lemma InfluenceKind_enum_bytes: "map InfluenceKind_to_u8 InfluenceKind_enum = map of_nat [0..<3]"
  by (simp add: InfluenceKind_enum_def upt_rec)

lemma influence_kind_valid_unat: "influence_kind_valid u \<longleftrightarrow> unat u < 3"
  by (simp add: influence_kind_valid_def word_le_nat_alt less_Suc_eq_le [symmetric])

interpretation IK: byte_enum InfluenceKind_to_u8 InfluenceKind_of_u8 influence_kind_valid InfluenceKind_named
proof
  show "influence_kind_valid (InfluenceKind_to_u8 e)" if "InfluenceKind_named e" for e
    using that by (auto simp: InfluenceKind_named_def InfluenceKind_enum_def influence_kind_valid_def)
  show "InfluenceKind_of_u8 (InfluenceKind_to_u8 e) = e" if "InfluenceKind_named e" for e
    using that by (auto simp: InfluenceKind_named_def InfluenceKind_enum_def InfluenceKind_of_u8_def influence_kind_valid_def)
  show "InfluenceKind_to_u8 (InfluenceKind_of_u8 u) = u" if "influence_kind_valid u" for u
    using nth_u8_enum [OF InfluenceKind_enum_bytes] that by (simp add: InfluenceKind_of_u8_def influence_kind_valid_unat)
  show "InfluenceKind_named (InfluenceKind_of_u8 u)" if "influence_kind_valid u" for u
    using that nth_mem [of "unat u" InfluenceKind_enum] arg_cong [OF InfluenceKind_enum_bytes, of length]
    by (simp add: InfluenceKind_named_def InfluenceKind_of_u8_def influence_kind_valid_unat)
qed

section \<open>Lifecycle and liveness predicates\<close>

definition flow_is_terminal :: "FlowState \<Rightarrow> bool" where
  "flow_is_terminal s \<longleftrightarrow> s = FS_COMPLETED \<or> s = FS_CANCELLED \<or> s = FS_FAILED \<or> s = FS_RETIRED"

definition flow_is_stale_or_superseded :: "FlowState \<Rightarrow> bool" where
  "flow_is_stale_or_superseded s \<longleftrightarrow> s = FS_STALE \<or> s = FS_SUPERSEDED \<or> s = FS_RETIRED"

definition flow_can_progress :: "FlowState \<Rightarrow> bool" where
  "flow_can_progress s \<longleftrightarrow> s = FS_QUEUED \<or> s = FS_ACTIVE \<or> s = FS_BACKPRESSURED \<or>
     s = FS_THROTTLED \<or> s = FS_DRAINING"

definition congestion_is_live :: "CongestionState \<Rightarrow> bool" where
  "congestion_is_live s \<longleftrightarrow> s \<noteq> CS_STALE \<and> s \<noteq> CS_REVALIDATION_REQUIRED \<and> s \<noteq> CS_UNKNOWN"

lemmas flow_state_preds = flow_is_terminal_def flow_is_stale_or_superseded_def flow_can_progress_def

end
