(* ===== verification/Identities.thy ===== *)
theory Identities
  imports Prelude
begin

text \<open>
  Strongly typed identities and generations: \<^verbatim>\<open>include/congestion_fabric/identities.hpp\<close> and
  \<^verbatim>\<open>types.hpp\<close>. The C++ tag parameter is a phantom type parameter here, so confusing two
  authority domains is a type error in the model as it is in the code. \<open>Generation\<close> saturates
  instead of wrapping. Both types carry the defaulted \<^verbatim>\<open><=>\<close> as instances of \<^verbatim>\<open>linorder\<close>.
\<close>

section \<open>Identifiers and generations\<close>

datatype 'tag Id = Id (idv: u64)

datatype 'tag Generation = Generation (genv: u64)

datatype 'tag EntityRef = EntityRef (ref_id: "'tag Id") (ref_gen: "'tag Generation")

definition id_valid :: "'tag Id \<Rightarrow> bool" where
  "id_valid x \<longleftrightarrow> idv x \<noteq> 0"

definition gen_valid :: "'tag Generation \<Rightarrow> bool" where
  "gen_valid g \<longleftrightarrow> genv g \<noteq> 0"

definition ref_valid :: "'tag EntityRef \<Rightarrow> bool" where
  "ref_valid r \<longleftrightarrow> id_valid (ref_id r) \<and> gen_valid (ref_gen r)"

definition gen_next :: "'tag Generation \<Rightarrow> 'tag Generation" where
  "gen_next g = (if genv g \<noteq> - 1 then Generation (genv g + 1) else g)"

definition gen_previous :: "'tag Generation \<Rightarrow> 'tag Generation" where
  "gen_previous g = (if genv g \<noteq> 0 then Generation (genv g - 1) else g)"

text \<open>A default-constructed reference: the invalid reference every failing factory returns.\<close>

definition invalid_ref :: "'tag EntityRef" where
  "invalid_ref = EntityRef (Id 0) (Generation 0)"

instantiation Id :: (type) linorder
begin

definition less_eq_Id :: "'a Id \<Rightarrow> 'a Id \<Rightarrow> bool" where
  "less_eq_Id a b \<longleftrightarrow> idv a \<le> idv b"

definition less_Id :: "'a Id \<Rightarrow> 'a Id \<Rightarrow> bool" where
  "less_Id a b \<longleftrightarrow> idv a < idv b"

instance
  by standard (auto simp: less_eq_Id_def less_Id_def Id.expand)

end

instantiation Generation :: (type) linorder
begin

definition less_eq_Generation :: "'a Generation \<Rightarrow> 'a Generation \<Rightarrow> bool" where
  "less_eq_Generation a b \<longleftrightarrow> genv a \<le> genv b"

definition less_Generation :: "'a Generation \<Rightarrow> 'a Generation \<Rightarrow> bool" where
  "less_Generation a b \<longleftrightarrow> genv a < genv b"

instance
  by standard (auto simp: less_eq_Generation_def less_Generation_def Generation.expand)

end

instantiation EntityRef :: (type) linorder
begin

definition less_eq_EntityRef :: "'a EntityRef \<Rightarrow> 'a EntityRef \<Rightarrow> bool" where
  "less_eq_EntityRef a b \<longleftrightarrow>
     ref_id a < ref_id b \<or> (ref_id a = ref_id b \<and> ref_gen a \<le> ref_gen b)"

definition less_EntityRef :: "'a EntityRef \<Rightarrow> 'a EntityRef \<Rightarrow> bool" where
  "less_EntityRef a b \<longleftrightarrow>
     ref_id a < ref_id b \<or> (ref_id a = ref_id b \<and> ref_gen a < ref_gen b)"

instance
  by standard (auto simp: less_eq_EntityRef_def less_EntityRef_def EntityRef.expand)

end

lemma gen_next_ge: "g \<le> gen_next g"
  using unat_u64_inc [of "genv g"]
  by (simp add: gen_next_def less_eq_Generation_def word_le_nat_alt)

lemma gen_next_greater: "genv g \<noteq> - 1 \<Longrightarrow> g < gen_next g"
  using unat_u64_inc [of "genv g"]
  by (simp add: gen_next_def less_Generation_def word_less_nat_alt)

lemma gen_next_valid [simp]: "gen_valid (gen_next g)"
proof (cases "genv g = - 1")
  case False
  then have "unat (genv g + 1) \<noteq> 0" using unat_u64_inc [of "genv g"] by simp
  then show ?thesis using False by (auto simp: gen_next_def gen_valid_def)
qed (simp add: gen_next_def gen_valid_def)

lemma gen_next_saturates: "genv g = - 1 \<Longrightarrow> gen_next g = g"
  by (simp add: gen_next_def)

lemma gen_previous_le: "gen_previous g \<le> g"
  by (simp add: gen_previous_def less_eq_Generation_def word_le_nat_alt unat_minus_one)

lemma gen_previous_next: "genv g \<noteq> - 1 \<Longrightarrow> gen_previous (gen_next g) = g"
  using gen_next_valid [of g] by (simp add: gen_next_def gen_previous_def gen_valid_def)

lemma ref_eqI: "ref_id a = ref_id b \<Longrightarrow> ref_gen a = ref_gen b \<Longrightarrow> a = b"
  by (simp add: EntityRef.expand)

section \<open>The authority domains\<close>

datatype CongestionDomainTag = CongestionDomainTag
datatype CongestionEventTag = CongestionEventTag
datatype CongestionPolicyTag = CongestionPolicyTag
datatype FlowTag = FlowTag
datatype PathTag = PathTag
datatype ResourceTag = ResourceTag
datatype WorkloadTag = WorkloadTag
datatype ExecutionTag = ExecutionTag
datatype WorkerTag = WorkerTag
datatype SourceTag = SourceTag
datatype CapacityGenerationTag = CapacityGenerationTag
datatype MeasurementGenerationTag = MeasurementGenerationTag
datatype QueueGenerationTag = QueueGenerationTag
datatype BackpressureGenerationTag = BackpressureGenerationTag
datatype RecoveryGenerationTag = RecoveryGenerationTag
datatype WorkerBootIdTag = WorkerBootIdTag
datatype SourceBootIdTag = SourceBootIdTag
datatype CoordinatorEpochTag = CoordinatorEpochTag

type_synonym CongestionDomainId = "CongestionDomainTag Id"
type_synonym CongestionEventId = "CongestionEventTag Id"
type_synonym CongestionEventGeneration = "CongestionEventTag Generation"
type_synonym CongestionPolicyGeneration = "CongestionPolicyTag Generation"
type_synonym FlowId = "FlowTag Id"
type_synonym FlowGeneration = "FlowTag Generation"
type_synonym WorkerId = "WorkerTag Id"
type_synonym SourceId = "SourceTag Id"
type_synonym CapacityGeneration = "CapacityGenerationTag Generation"
type_synonym MeasurementGeneration = "MeasurementGenerationTag Generation"
type_synonym QueueGeneration = "QueueGenerationTag Generation"
type_synonym BackpressureGeneration = "BackpressureGenerationTag Generation"
type_synonym RecoveryGeneration = "RecoveryGenerationTag Generation"
type_synonym WorkerBootId = "WorkerBootIdTag Generation"
type_synonym SourceBootId = "SourceBootIdTag Generation"
type_synonym CoordinatorEpoch = "CoordinatorEpochTag Generation"

type_synonym FlowRef = "FlowTag EntityRef"
type_synonym DomainRef = "CongestionDomainTag EntityRef"

end
