(* ===== verification/Capacity.thy ===== *)
theory Capacity
  imports Double Enums Identities
begin

text \<open>
  The capacity model: \<^verbatim>\<open>include/congestion_fabric/capacity.hpp\<close>. \<open>Rate\<close> and
  \<open>CapacityProfile\<close> are the structs, \<open>effective\<close>, \<open>residual\<close> and \<open>capacity_valid\<close> the member
  functions, on IEEE doubles with their rounding. The lemmas show that the derived values stay
  within the declared bounds and that a valid profile with a known layer always has an
  effective capacity.
\<close>

section \<open>Definitions\<close>

record Rate =
  rate_bps :: double
  rate_kind :: BandwidthKind
  rate_prov :: MeasurementProvenance
  rate_gen :: CapacityGeneration

definition default_rate :: Rate where
  "default_rate = \<lparr>rate_bps = 0, rate_kind = BK_UNKNOWN, rate_prov = MP_UNKNOWN,
     rate_gen = Generation 0\<rparr>"

definition is_finite_nonneg :: "Rate \<Rightarrow> bool" where
  "is_finite_nonneg r \<longleftrightarrow> isfinite (rate_bps r) \<and> dle 0 (rate_bps r)"

record CapacityProfile =
  theoretical :: Rate
  configured :: Rate
  measured_service :: Rate
  reserved :: Rate
  cap_generation :: CapacityGeneration

definition default_capacity :: CapacityProfile where
  "default_capacity = \<lparr>theoretical = default_rate, configured = default_rate,
     measured_service = default_rate, reserved = default_rate, cap_generation = Generation 0\<rparr>"

text \<open>One layer of the bound computation: the running bound and the \<^verbatim>\<open>found\<close> flag.\<close>

definition rate_known :: "Rate \<Rightarrow> bool" where
  "rate_known r \<longleftrightarrow> rate_kind r \<noteq> BK_UNKNOWN \<and> is_finite_nonneg r"

definition tighten :: "Rate \<Rightarrow> double \<times> bool \<Rightarrow> double \<times> bool" where
  "tighten r acc = (case acc of (bound, found) \<Rightarrow>
     if rate_known r then (dmin bound (rate_bps r), True) else (bound, found))"

definition effective :: "CapacityProfile \<Rightarrow> double option" where
  "effective c =
    (case tighten (measured_service c) (tighten (configured c) (tighten (theoretical c) (dinf, False)))
     of (bound, found) \<Rightarrow>
      if \<not> found then None
      else if rate_known (reserved c) then
        (if dlt bound (rate_bps (reserved c)) then None
         else let b = dsub bound (rate_bps (reserved c))
           in if dlt b 0 \<or> \<not> isfinite b then None else Some b)
      else if dlt bound 0 \<or> \<not> isfinite bound then None else Some bound)"

definition residual :: "CapacityProfile \<Rightarrow> double \<Rightarrow> double option" where
  "residual c offered_load_bps =
    (case effective c of
       None \<Rightarrow> None
     | Some eff \<Rightarrow>
        if dlt offered_load_bps 0 \<or> \<not> isfinite offered_load_bps then None
        else let r = dsub eff offered_load_bps in Some (if dlt r 0 then 0 else r))"

definition effective_before_reservation :: "CapacityProfile \<Rightarrow> double option" where
  "effective_before_reservation c =
    (case fold tighten [theoretical c, configured c, measured_service c] (dinf, False) of
       (bound, found) \<Rightarrow> if \<not> found then None else Some bound)"

definition reservation_is_consistent :: "CapacityProfile \<Rightarrow> bool" where
  "reservation_is_consistent c =
    (case effective_before_reservation c of
       None \<Rightarrow> rate_kind (reserved c) = BK_UNKNOWN
     | Some eff \<Rightarrow>
        rate_kind (reserved c) = BK_UNKNOWN \<or>
        (is_finite_nonneg (reserved c) \<and> dle (rate_bps (reserved c)) eff))"

definition rate_check :: "Rate \<Rightarrow> bool" where
  "rate_check r \<longleftrightarrow> rate_kind r = BK_UNKNOWN \<or> is_finite_nonneg r"

definition capacity_valid :: "CapacityProfile \<Rightarrow> bool" where
  "capacity_valid c \<longleftrightarrow> rate_check (theoretical c) \<and> rate_check (configured c) \<and>
     rate_check (measured_service c) \<and> rate_check (reserved c) \<and> reservation_is_consistent c"

section \<open>Bounds\<close>

definition fin_nonneg :: "double \<Rightarrow> bool" where
  "fin_nonneg x \<longleftrightarrow> isfinite x \<and> 0 \<le> dkey x"

lemma fin_nonnegD: "fin_nonneg x \<Longrightarrow> isfinite x" "fin_nonneg x \<Longrightarrow> 0 \<le> dkey x"
  "fin_nonneg x \<Longrightarrow> \<not> isnan x"
  by (simp_all add: fin_nonneg_def)

lemma is_finite_nonneg_iff: "is_finite_nonneg r \<longleftrightarrow> fin_nonneg (rate_bps r)"
  by (auto simp: is_finite_nonneg_def fin_nonneg_def dle_def)

lemma rate_known_fin: "rate_known r \<Longrightarrow> fin_nonneg (rate_bps r)"
  by (simp add: rate_known_def is_finite_nonneg_iff)

lemma dinf_props: "\<not> isnan dinf" "dkey dinf = int inf_mag"
  by (simp_all add: isnan_def dkey_def dmag_def dneg_def dinf_def inf_mag_def)

lemma dmin_le: "\<not> isnan a \<Longrightarrow> \<not> isnan b \<Longrightarrow> dkey (dmin a b) = min (dkey a) (dkey b)"
  by (auto simp: dmin_def dlt_def)

lemma dmax_key: "\<not> isnan a \<Longrightarrow> \<not> isnan b \<Longrightarrow> dkey (dmax a b) = max (dkey a) (dkey b)"
  by (auto simp: dmax_def dlt_def)

lemma dmin_not_nan: "\<not> isnan a \<Longrightarrow> \<not> isnan b \<Longrightarrow> \<not> isnan (dmin a b)"
  by (simp add: dmin_def)

lemma dmax_not_nan: "\<not> isnan a \<Longrightarrow> \<not> isnan b \<Longrightarrow> \<not> isnan (dmax a b)"
  by (simp add: dmax_def)

text \<open>The state of the bound loop after the layers in \<open>R\<close>: below every known layer,
  never NaN or negative, finite as soon as a layer was found.\<close>

definition bound_of :: "Rate set \<Rightarrow> double \<times> bool \<Rightarrow> bool" where
  "bound_of R acc \<longleftrightarrow> \<not> isnan (fst acc) \<and> 0 \<le> dkey (fst acc) \<and>
     (\<forall>r\<in>R. rate_known r \<longrightarrow> snd acc \<and> dkey (fst acc) \<le> dkey (rate_bps r)) \<and>
     (if snd acc then isfinite (fst acc) \<and> (\<exists>r\<in>R. rate_known r \<and> dkey (fst acc) = dkey (rate_bps r))
      else fst acc = dinf)"

lemma bound_of_start: "bound_of {} (dinf, False)"
  by (simp add: bound_of_def dinf_props)

lemma bound_of_tighten:
  assumes "bound_of R acc"
  shows "bound_of (insert r R) (tighten r acc)"
proof (cases "rate_known r")
  case False
  then show ?thesis using assms by (auto simp: bound_of_def tighten_def split: prod.split if_splits)
next
  case True
  obtain b f where acc: "acc = (b, f)" by (cases acc)
  have b: "\<not> isnan b" "0 \<le> dkey b" using assms acc by (auto simp: bound_of_def)
  have r: "\<not> isnan (rate_bps r)" "0 \<le> dkey (rate_bps r)" "isfinite (rate_bps r)"
    using fin_nonnegD [OF rate_known_fin [OF True]] by auto
  let ?m = "dmin b (rate_bps r)"
  have key: "dkey ?m = min (dkey b) (dkey (rate_bps r))" by (rule dmin_le [OF b(1) r(1)])
  have nn: "\<not> isnan ?m" by (rule dmin_not_nan [OF b(1) r(1)])
  have fin: "isfinite ?m" using r b key by (auto simp: isfinite_dkey)
  have att: "\<exists>x\<in>insert r R. rate_known x \<and> dkey ?m = dkey (rate_bps x)"
  proof (cases "dkey b < dkey (rate_bps r)")
    case lt: True
    then have "f" using assms acc r(3) by (auto simp: bound_of_def isfinite_dkey dinf_props split: if_splits)
    then obtain x where "x \<in> R" "rate_known x" "dkey b = dkey (rate_bps x)"
      using assms acc by (auto simp: bound_of_def)
    then show ?thesis using lt key by auto
  qed (use True key in auto)
  have below: "\<forall>x\<in>insert r R. rate_known x \<longrightarrow> dkey ?m \<le> dkey (rate_bps x)"
    using assms acc key by (auto simp: bound_of_def min_le_iff_disj)
  show ?thesis using True acc key nn fin att below b r by (simp add: bound_of_def tighten_def)
qed

lemma bound_of_layers:
  "bound_of {theoretical c, configured c, measured_service c}
     (tighten (measured_service c) (tighten (configured c) (tighten (theoretical c) (dinf, False))))"
  using bound_of_tighten [OF bound_of_tighten [OF bound_of_tighten [OF bound_of_start]],
      of "measured_service c" "configured c" "theoretical c"]
  by (simp add: insert_commute)

lemma effective_before_eq: "effective_before_reservation c =
    (case tighten (measured_service c) (tighten (configured c) (tighten (theoretical c) (dinf, False)))
     of (bound, found) \<Rightarrow> if \<not> found then None else Some bound)"
  by (simp add: effective_before_reservation_def)

abbreviation layers :: "CapacityProfile \<Rightarrow> Rate set" where
  "layers c \<equiv> {theoretical c, configured c, measured_service c}"

lemma effective_before_SomeD:
  assumes "effective_before_reservation c = Some b"
  shows "fin_nonneg b" "\<And>r. r \<in> layers c \<Longrightarrow> rate_known r \<Longrightarrow> dkey b \<le> dkey (rate_bps r)"
    "\<exists>r\<in>layers c. rate_known r"
  using assms bound_of_layers [of c]
  by (auto simp: effective_before_eq bound_of_def fin_nonneg_def split: prod.splits if_splits)

lemma effective_before_iff: "effective_before_reservation c \<noteq> None \<longleftrightarrow> (\<exists>r\<in>layers c. rate_known r)"
  using bound_of_layers [of c]
  by (auto simp: effective_before_eq bound_of_def split: prod.splits if_splits)

lemma effective_alt: "effective c =
    (case effective_before_reservation c of None \<Rightarrow> None
     | Some b \<Rightarrow> if rate_known (reserved c)
         then (if dlt b (rate_bps (reserved c)) then None else Some (dsub b (rate_bps (reserved c))))
         else Some b)"
proof (cases "effective_before_reservation c")
  case None
  then show ?thesis by (auto simp: effective_def effective_before_eq split: prod.splits if_splits)
next
  case (Some b)
  note fb = effective_before_SomeD(1) [OF Some]
  have sub: "isfinite (dsub b x) \<and> \<not> dlt (dsub b x) 0" if "fin_nonneg x" "\<not> dlt b x" for x
  proof -
    have "dkey x \<le> dkey b" using that fin_nonnegD(3) [OF fb] by (auto simp: dlt_def fin_nonneg_def)
    then have "isfinite (dsub b x)" "0 \<le> dkey (dsub b x)"
      using dsub_finite [of b x] dsub_nonneg [of b x] that(1) fb by (auto simp: fin_nonneg_def)
    then show ?thesis by (simp add: dlt_def)
  qed
  have "\<not> dlt b 0 \<and> isfinite b" using fb by (simp add: fin_nonneg_def dlt_def)
  with Some sub [OF rate_known_fin] show ?thesis
    by (auto simp: effective_def effective_before_eq Let_def split: prod.splits if_splits)
qed

lemma effective_SomeD:
  assumes "effective c = Some e"
  shows "fin_nonneg e" "\<And>r. r \<in> layers c \<Longrightarrow> rate_known r \<Longrightarrow> dkey e \<le> dkey (rate_bps r)"
proof -
  obtain b where b: "effective_before_reservation c = Some b"
    using assms by (auto simp: effective_alt split: option.splits)
  note fb = effective_before_SomeD(1) [OF b]
  have e: "dkey e \<le> dkey b \<and> fin_nonneg e"
  proof (cases "rate_known (reserved c)")
    case True
    note fr = rate_known_fin [OF True]
    have e: "e = dsub b (rate_bps (reserved c))" and "\<not> dlt b (rate_bps (reserved c))"
      using assms b True by (auto simp: effective_alt split: if_splits)
    then have "dkey (rate_bps (reserved c)) \<le> dkey b"
      using fb fr by (auto simp: dlt_def fin_nonneg_def)
    then show ?thesis
      using dsub_finite [of b "rate_bps (reserved c)"] dsub_nonneg [of b "rate_bps (reserved c)"]
        dsub_le [of b "rate_bps (reserved c)"] fb fr e by (auto simp: fin_nonneg_def)
  qed (use assms b fb in \<open>auto simp: effective_alt\<close>)
  then show "fin_nonneg e" by simp
  show "dkey e \<le> dkey (rate_bps r)" if "r \<in> layers c" "rate_known r" for r
    using effective_before_SomeD(2) [OF b that] e by linarith
qed

lemma effective_defined:
  assumes "capacity_valid c"
  shows "effective c \<noteq> None \<longleftrightarrow> (\<exists>r\<in>layers c. rate_known r)"
proof -
  have "\<not> dlt b (rate_bps (reserved c))"
    if "effective_before_reservation c = Some b" "rate_known (reserved c)" for b
    using assms that by (auto simp: capacity_valid_def reservation_is_consistent_def dle_def dlt_def
        rate_known_def)
  then show ?thesis using effective_before_iff [of c] by (auto simp: effective_alt split: option.splits)
qed

lemma residual_SomeD:
  assumes "residual c x = Some r"
  obtains e where "effective c = Some e" "fin_nonneg x" "fin_nonneg r" "dkey r \<le> dkey e"
    "dkey r = max 0 (srnd (dval e - dval x))"
proof -
  obtain e where e: "effective c = Some e" and x: "fin_nonneg x"
    and r: "r = (if dlt (dsub e x) 0 then 0 else dsub e x)"
    using assms by (auto simp: residual_def Let_def dlt_def fin_nonneg_def not_less split: option.splits if_splits)
  note fe = effective_SomeD(1) [OF e]
  have nn: "\<not> isnan (dsub e x)" and le: "dkey (dsub e x) \<le> dkey e"
    and key: "dkey (dsub e x) = srnd (dval e - dval x)"
    using fe x dsub_not_nan [of e x] dsub_le [of e x] dkey_dsub [of e x] by (auto simp: fin_nonneg_def)
  have kr: "dkey r = max 0 (dkey (dsub e x))" using r nn by (auto simp: dlt_def)
  then have "dkey r \<le> dkey e" using le fe by (simp add: fin_nonneg_def)
  moreover have "fin_nonneg r"
    using kr le fe by (auto simp: fin_nonneg_def isfinite_dkey)
  ultimately show ?thesis using that [OF e x] kr key by simp
qed

text \<open>The effective capacity of a profile is a finite, non-negative rate that exceeds none
  of the layers (theoretical, configured, measured service) with a known valid rate; a profile
  that passes \<open>capacity_valid\<close> has one exactly when some layer is known.\<close>

theorem effective_within_layers:
  assumes "capacity_valid c" and "r \<in> {theoretical c, configured c, measured_service c}"
    and "rate_known r"
  shows "\<exists>e. effective c = Some e \<and> isfinite e \<and> dle 0 e \<and> dle e (rate_bps r)"
proof -
  have "effective c \<noteq> None" using effective_defined [OF assms(1)] assms(2,3) by blast
  then obtain e where e: "effective c = Some e" by blast
  have "fin_nonneg e" "dkey e \<le> dkey (rate_bps r)"
    using effective_SomeD [OF e] assms(2,3) by blast+
  then show ?thesis
    using e fin_nonnegD [OF rate_known_fin [OF assms(3)]] by (auto simp: dle_def fin_nonneg_def)
qed

text \<open>The residual capacity is defined exactly when the profile has an effective capacity and
  the offered load is a finite non-negative number; it is then finite, never negative, never
  above the effective capacity, and never grows when the offered load grows.\<close>

theorem residual_bounds:
  assumes "effective c = Some e" and "isfinite x" and "dle 0 x" and "isfinite y" and "dle x y"
  shows "\<exists>r s. residual c x = Some r \<and> residual c y = Some s \<and> isfinite r \<and> dle 0 r \<and> dle r e \<and> dle s r"
proof -
  have def: "\<exists>r. residual c z = Some r" if "isfinite z" "dle 0 z" for z
    using assms(1) that by (auto simp: residual_def Let_def dlt_def dle_def)
  have y: "dle 0 y" using assms(3,5) by (auto simp: dle_def)
  obtain r s where r: "residual c x = Some r" and s: "residual c y = Some s"
    using def assms(2,3,4) y by metis
  from r obtain e1 where 1: "effective c = Some e1" "fin_nonneg r" "dkey r \<le> dkey e1"
    "dkey r = max 0 (srnd (dval e1 - dval x))" by (rule residual_SomeD)
  from s obtain e2 where 2: "effective c = Some e2" "fin_nonneg s"
    "dkey s = max 0 (srnd (dval e2 - dval y))" by (rule residual_SomeD)
  have "dval x \<le> dval y" using assms(2,4,5) by (simp add: dval_le_iff dle_def)
  then have "srnd (dval e - dval y) \<le> srnd (dval e - dval x)" by (intro srnd_mono) simp
  then have "dkey s \<le> dkey r" using 1 2 assms(1) by simp
  then show ?thesis
    using r s 1 2 assms(1) fin_nonnegD [OF effective_SomeD(1) [OF assms(1)]]
    by (auto simp: dle_def fin_nonneg_def)
qed

section \<open>Witnesses\<close>

text \<open>A profile with one known layer of \<open>100e6\<close> bytes per second.\<close>

definition sample_capacity :: CapacityProfile where
  "sample_capacity = default_capacity\<lparr>theoretical := \<lparr>rate_bps = 0x4197D78400000000,
     rate_kind = BK_THEORETICAL, rate_prov = MP_MEASURED, rate_gen = Generation 0\<rparr>\<rparr>"

lemmas capacity_eval = default_capacity_def default_rate_def rate_check_def rate_known_def
  is_finite_nonneg_def tighten_def reservation_is_consistent_def effective_before_reservation_def
  capacity_valid_def effective_def dmin_def dinf_def double_eval

lemma sample_capacity_valid: "capacity_valid sample_capacity"
  by (simp add: sample_capacity_def capacity_eval)

lemma sample_capacity_effective: "effective sample_capacity = Some 0x4197D78400000000"
  by (simp add: sample_capacity_def capacity_eval)

theorem effective_within_layers_witness:
  "rate_known (theoretical sample_capacity) \<and>
   (\<exists>e. effective sample_capacity = Some e \<and> isfinite e \<and> dle 0 e \<and>
        dle e (rate_bps (theoretical sample_capacity)))"
proof -
  have known: "rate_known (theoretical sample_capacity)"
    by (simp add: sample_capacity_def capacity_eval)
  show ?thesis
    using known effective_within_layers [OF sample_capacity_valid _ known] by simp
qed

theorem residual_bounds_witness:
  "\<exists>r s. residual sample_capacity 0x4193D62640000000 = Some r \<and>
     residual sample_capacity 0x4197D78400000000 = Some s \<and> isfinite r \<and> dle 0 r \<and>
     dle r 0x4197D78400000000 \<and> dle s r"
  by (rule residual_bounds [OF sample_capacity_effective]) (simp_all add: double_eval)

end
