(* ===== verification/Evidence.thy ===== *)
theory Evidence
  imports Capacity Checked
begin

text \<open>
  The evidence and intent records a congestion domain carries: measurements
  (\<^verbatim>\<open>measurement.hpp\<close>), fairness configuration (\<^verbatim>\<open>fairness.hpp\<close>), backpressure intents
  (\<^verbatim>\<open>backpressure.hpp\<close>), episodes (\<^verbatim>\<open>episode.hpp\<close>) and influence edges
  (\<^verbatim>\<open>propagation.hpp\<close>). Default values are the C++ member initialisers. A write of
  \<open>MeasurementSet\<close> outside its array is \<open>None\<close>: undefined behaviour of the code.
\<close>

section \<open>Measurements\<close>

record Measurement =
  m_kind :: MeasurementKind
  m_value :: double
  m_provenance :: MeasurementProvenance
  m_generation :: MeasurementGeneration
  m_timestamp_ms :: u64
  m_confidence :: double

definition default_measurement :: Measurement where
  "default_measurement = \<lparr>m_kind = MK_UNKNOWN, m_value = 0, m_provenance = MP_UNKNOWN,
     m_generation = Generation 0, m_timestamp_ms = 0, m_confidence = d_one\<rparr>"

definition is_physical :: "Measurement \<Rightarrow> bool" where
  "is_physical m \<longleftrightarrow> m_provenance m = MP_MEASURED"

definition measurement_valid :: "Measurement \<Rightarrow> bool" where
  "measurement_valid m \<longleftrightarrow> isfinite (m_value m) \<and> \<not> isinf (m_value m) \<and>
     dle 0 (m_confidence m) \<and> dle (m_confidence m) d_one"

text \<open>\<^verbatim>\<open>std::array<Measurement, UNKNOWN + 1>\<close>, indexed by the kind.\<close>

type_synonym MeasurementSet = "Measurement list"

definition empty_measurements :: MeasurementSet where
  "empty_measurements = replicate 20 default_measurement"

definition kind_index :: "MeasurementKind \<Rightarrow> nat" where
  "kind_index k = unat (MeasurementKind_to_u8 k)"

definition measurements_put :: "Measurement \<Rightarrow> MeasurementSet \<Rightarrow> MeasurementSet option" where
  "measurements_put m s =
    (if \<not> measurement_valid m then Some s
     else if kind_index (m_kind m) < length s then Some (s[kind_index (m_kind m) := m])
     else None)"

definition measurements_get :: "MeasurementSet \<Rightarrow> MeasurementKind \<Rightarrow> Measurement option" where
  "measurements_get s k =
    (if kind_index k < length s then
       (let m = s ! kind_index k in if m_kind m = k then Some m else None)
     else None)"

definition measurements_clear :: "MeasurementSet \<Rightarrow> MeasurementSet" where
  "measurements_clear s = replicate (length s) default_measurement"

lemma kind_index_named: "MeasurementKind_named k \<longleftrightarrow> kind_index k < 20 \<and> MeasurementKind_of_u8 (MeasurementKind_to_u8 k) = k"
  using MK.valid_named MK.of_to MK.named_of by (metis kind_index_def measurement_kind_valid_unat)

lemma kind_index_inj:
  "MeasurementKind_named j \<Longrightarrow> MeasurementKind_named k \<Longrightarrow> kind_index j = kind_index k \<longleftrightarrow> j = k"
  unfolding kind_index_def by (metis MK.to_u8_inj word_unat_eq_iff)

lemma measurements_put_named:
  "length s = 20 \<Longrightarrow> MeasurementKind_named (m_kind m) \<Longrightarrow>
   measurements_put m s = Some (if measurement_valid m then s[kind_index (m_kind m) := m] else s)"
  by (simp add: measurements_put_def kind_index_named)

lemma measurements_put_length: "measurements_put m s = Some s' \<Longrightarrow> length s' = length s"
  by (auto simp: measurements_put_def split: if_splits)

text \<open>Storing a valid observation of a named kind makes it the latest of its kind and leaves
  every other kind's latest observation alone; storing an invalid one changes nothing.\<close>

theorem measurements_put_get:
  assumes "length s = 20" and "MeasurementKind_named (m_kind m)" and "MeasurementKind_named k"
  shows "\<exists>s'. measurements_put m s = Some s' \<and> length s' = 20 \<and>
    measurements_get s' k =
      (if measurement_valid m \<and> k = m_kind m then Some m else measurements_get s k)"
  using assms kind_index_inj [of k "m_kind m"] kind_index_named [of k] kind_index_named [of "m_kind m"]
  by (auto simp: measurements_put_named measurements_get_def nth_list_update Let_def)

section \<open>Fairness configuration\<close>

record FairnessConfig =
  fc_model :: FairnessModel
  fc_weight :: double
  fc_minimum_guarantee_bps :: double
  fc_cap_bps :: double
  fc_latency_critical_protected :: bool
  fc_policy_generation :: CongestionPolicyGeneration

definition default_fairness_config :: FairnessConfig where
  "default_fairness_config = \<lparr>fc_model = FM_EQUAL_SHARE, fc_weight = d_one,
     fc_minimum_guarantee_bps = 0, fc_cap_bps = 0, fc_latency_critical_protected = False,
     fc_policy_generation = Generation 0\<rparr>"

definition fairness_valid :: "FairnessConfig \<Rightarrow> bool" where
  "fairness_valid f \<longleftrightarrow> isfinite (fc_weight f) \<and> dlt 0 (fc_weight f) \<and>
     isfinite (fc_minimum_guarantee_bps f) \<and> dle 0 (fc_minimum_guarantee_bps f) \<and>
     isfinite (fc_cap_bps f) \<and> dle 0 (fc_cap_bps f)"

definition fairness_is_current :: "FairnessConfig \<Rightarrow> CongestionPolicyGeneration \<Rightarrow> bool" where
  "fairness_is_current f cur \<longleftrightarrow> \<not> gen_valid (fc_policy_generation f) \<or>
     (gen_valid cur \<and> genv cur \<ge> genv (fc_policy_generation f))"

record FairnessShare =
  fsh_flow :: FlowId
  fsh_flow_generation :: FlowGeneration
  fsh_config :: FairnessConfig
  fsh_target_share_bps :: double
  fsh_observed_share_bps :: double
  fsh_fairness_deficit_bps :: double
  fsh_starved :: bool
  fsh_provenance :: MeasurementProvenance

definition share_valid :: "FairnessShare \<Rightarrow> bool" where
  "share_valid s \<longleftrightarrow> isfinite (fsh_target_share_bps s) \<and> dle 0 (fsh_target_share_bps s) \<and>
     isfinite (fsh_observed_share_bps s) \<and> dle 0 (fsh_observed_share_bps s) \<and>
     isfinite (fsh_fairness_deficit_bps s) \<and> dle 0 (fsh_fairness_deficit_bps s)"

section \<open>Backpressure intents\<close>

record BackpressureAction =
  ba_intent :: ActionIntent
  ba_target_flow :: FlowRef
  ba_target_domain :: DomainRef
  ba_cause :: string
  ba_expected_benefit_bps :: double
  ba_estimated_cost_bps :: double
  ba_cost_ms :: double
  ba_policy_generation :: CongestionPolicyGeneration
  ba_generation :: BackpressureGeneration
  ba_provenance :: MeasurementProvenance
  ba_epoch :: CoordinatorEpoch
  ba_validity_window_ms :: double
  ba_preconditions :: "string list"

definition default_action :: BackpressureAction where
  "default_action = \<lparr>ba_intent = AI_NO_ACTION, ba_target_flow = invalid_ref,
     ba_target_domain = invalid_ref, ba_cause = [], ba_expected_benefit_bps = 0,
     ba_estimated_cost_bps = 0, ba_cost_ms = 0, ba_policy_generation = Generation 0,
     ba_generation = Generation 0, ba_provenance = MP_UNKNOWN, ba_epoch = Generation 0,
     ba_validity_window_ms = 0, ba_preconditions = []\<rparr>"

definition action_valid :: "BackpressureAction \<Rightarrow> bool" where
  "action_valid a \<longleftrightarrow> action_intent_valid (ActionIntent_to_u8 (ba_intent a)) \<and>
     isfinite (ba_expected_benefit_bps a) \<and> dle 0 (ba_expected_benefit_bps a) \<and>
     isfinite (ba_estimated_cost_bps a) \<and> dle 0 (ba_estimated_cost_bps a) \<and>
     isfinite (ba_cost_ms a) \<and> dle 0 (ba_cost_ms a) \<and>
     isfinite (ba_validity_window_ms a) \<and> dle 0 (ba_validity_window_ms a)"

definition action_is_current :: "BackpressureAction \<Rightarrow> BackpressureGeneration \<Rightarrow> bool" where
  "action_is_current a cur \<longleftrightarrow> \<not> gen_valid cur \<or>
     (gen_valid (ba_generation a) \<and> genv cur \<ge> genv (ba_generation a))"

fun intent_is_restrictive :: "ActionIntent \<Rightarrow> bool" where
  "intent_is_restrictive AI_ADMIT_LIMITED = True"
| "intent_is_restrictive AI_THROTTLE = True"
| "intent_is_restrictive AI_DEFER = True"
| "intent_is_restrictive AI_PAUSE_NEW_TRAFFIC = True"
| "intent_is_restrictive AI_DRAIN = True"
| "intent_is_restrictive AI_REDUCE_BURST = True"
| "intent_is_restrictive _ = False"

section \<open>Congestion episodes and influence edges\<close>

record CongestionEpisode =
  ep_event_id :: CongestionEventId
  ep_generation :: CongestionEventGeneration
  ep_domain :: DomainRef
  ep_peak_state :: CongestionState
  ep_start_ms :: u64
  ep_peak_ms :: u64
  ep_recovery_start_ms :: u64
  ep_end_ms :: u64
  ep_trigger :: string
  ep_peak_backlog_bytes :: double
  ep_service_deficit_bytes :: double
  ep_affected_flows :: "FlowId list"
  ep_bottleneck :: "ResourceTag EntityRef"
  ep_actions :: "BackpressureAction list"
  ep_outcome :: CongestionState
  ep_open :: bool

definition default_episode :: CongestionEpisode where
  "default_episode = \<lparr>ep_event_id = Id 0, ep_generation = Generation 0, ep_domain = invalid_ref,
     ep_peak_state = CS_UNKNOWN, ep_start_ms = 0, ep_peak_ms = 0, ep_recovery_start_ms = 0,
     ep_end_ms = 0, ep_trigger = [], ep_peak_backlog_bytes = 0, ep_service_deficit_bytes = 0,
     ep_affected_flows = [], ep_bottleneck = invalid_ref, ep_actions = [],
     ep_outcome = CS_UNKNOWN, ep_open = False\<rparr>"

definition episode_valid :: "CongestionEpisode \<Rightarrow> bool" where
  "episode_valid e \<longleftrightarrow> id_valid (ep_event_id e) \<and> gen_valid (ep_generation e) \<and>
     id_valid (ref_id (ep_domain e)) \<and> (ep_open e \<or> ep_end_ms e \<ge> ep_start_ms e)"

record DomainInfluence =
  di_upstream :: CongestionDomainId
  di_downstream :: CongestionDomainId
  di_kind :: InfluenceKind
  di_weight :: double

definition influence_valid :: "DomainInfluence \<Rightarrow> bool" where
  "influence_valid i \<longleftrightarrow> id_valid (di_upstream i) \<and> id_valid (di_downstream i) \<and>
     di_upstream i \<noteq> di_downstream i \<and> di_kind i \<noteq> IK_UNKNOWN \<and>
     dle 0 (di_weight i) \<and> dle (di_weight i) d_one"

section \<open>Witnesses\<close>

theorem measurements_put_get_witness:
  "\<exists>s'. measurements_put (default_measurement\<lparr>m_kind := MK_UTILIZATION\<rparr>) empty_measurements = Some s' \<and>
     measurements_get s' MK_UTILIZATION = Some (default_measurement\<lparr>m_kind := MK_UTILIZATION\<rparr>)"
  using measurements_put_get [of empty_measurements "default_measurement\<lparr>m_kind := MK_UTILIZATION\<rparr>" MK_UTILIZATION]
  by (auto simp: empty_measurements_def default_measurement_def MeasurementKind_named_def
      MeasurementKind_enum_def measurement_valid_def double_eval d_one_def)

end
