(* ===== verification/Flow.thy ===== *)
theory Flow
  imports Evidence
begin

text \<open>
  The flow model: \<^verbatim>\<open>include/congestion_fabric/flow.hpp\<close>. The guarded lifecycle table, the
  \<open>Flow\<close> struct with its byte counters, and the accounting check the loader enforces. The
  abstract contract of a guarded lifecycle is a locale, interpreted on the table.
\<close>

section \<open>The lifecycle table\<close>

fun flow_transition_allowed :: "FlowState \<Rightarrow> FlowState \<Rightarrow> bool" where
  "flow_transition_allowed FS_DECLARED to \<longleftrightarrow>
     to \<in> {FS_VALIDATING, FS_ADMITTED, FS_CANCELLED, FS_FAILED}"
| "flow_transition_allowed FS_VALIDATING to \<longleftrightarrow> to \<in> {FS_ADMITTED, FS_CANCELLED, FS_FAILED}"
| "flow_transition_allowed FS_ADMITTED to \<longleftrightarrow>
     to \<in> {FS_QUEUED, FS_ACTIVE, FS_BACKPRESSURED, FS_THROTTLED, FS_DRAINING, FS_CANCELLED,
           FS_FAILED, FS_STALE}"
| "flow_transition_allowed FS_QUEUED to \<longleftrightarrow>
     to \<in> {FS_ACTIVE, FS_BACKPRESSURED, FS_THROTTLED, FS_DRAINING, FS_CANCELLED, FS_FAILED,
           FS_STALE}"
| "flow_transition_allowed FS_ACTIVE to \<longleftrightarrow>
     to \<in> {FS_BACKPRESSURED, FS_THROTTLED, FS_DRAINING, FS_COMPLETED, FS_CANCELLED, FS_FAILED,
           FS_STALE}"
| "flow_transition_allowed FS_BACKPRESSURED to \<longleftrightarrow>
     to \<in> {FS_ACTIVE, FS_THROTTLED, FS_DRAINING, FS_COMPLETED, FS_CANCELLED, FS_FAILED, FS_STALE}"
| "flow_transition_allowed FS_THROTTLED to \<longleftrightarrow>
     to \<in> {FS_ACTIVE, FS_DRAINING, FS_COMPLETED, FS_CANCELLED, FS_FAILED, FS_STALE}"
| "flow_transition_allowed FS_DRAINING to \<longleftrightarrow>
     to \<in> {FS_COMPLETED, FS_CANCELLED, FS_FAILED, FS_STALE}"
| "flow_transition_allowed FS_COMPLETED to \<longleftrightarrow> False"
| "flow_transition_allowed FS_CANCELLED to \<longleftrightarrow> False"
| "flow_transition_allowed FS_FAILED to \<longleftrightarrow> False"
| "flow_transition_allowed FS_SUPERSEDED to \<longleftrightarrow> False"
| "flow_transition_allowed FS_RETIRED to \<longleftrightarrow> False"
| "flow_transition_allowed FS_STALE to \<longleftrightarrow> to = FS_REVALIDATION_REQUIRED"
| "flow_transition_allowed FS_REVALIDATION_REQUIRED to \<longleftrightarrow> to \<in> {FS_VALIDATING, FS_DECLARED}"

text \<open>A guarded lifecycle: terminal states have no successor and no state is its own successor.
  A path of allowed transitions that leaves a terminal state is therefore empty.\<close>

locale guarded_lifecycle =
  fixes allowed :: "'s \<Rightarrow> 's \<Rightarrow> bool" and terminal :: "'s \<Rightarrow> bool"
  assumes terminal_final: "terminal s \<Longrightarrow> \<not> allowed s t"
    and irreflexive: "\<not> allowed s s"
begin

lemma terminal_path: "allowed\<^sup>*\<^sup>* s t \<Longrightarrow> terminal s \<Longrightarrow> t = s"
  by (induction rule: converse_rtranclp_induct) (auto dest: terminal_final)

end

interpretation lifecycle: guarded_lifecycle flow_transition_allowed flow_is_terminal
proof
  show "\<not> flow_transition_allowed s t" if "flow_is_terminal s" for s t
    using that by (cases s) (auto simp: flow_is_terminal_def)
  show "\<not> flow_transition_allowed s s" for s by (cases s) auto
qed

section \<open>Flows\<close>

record Flow =
  fl_ref :: FlowRef
  fl_owner_worker :: WorkerId
  fl_owner_boot :: WorkerBootId
  fl_source :: SourceId
  fl_source_boot :: SourceBootId
  fl_workload :: "WorkloadTag EntityRef"
  fl_execution :: "ExecutionTag EntityRef"
  fl_traffic_class :: TrafficClass
  fl_domain :: DomainRef
  fl_path :: "PathTag EntityRef"
  fl_state :: FlowState
  expected_bytes :: ByteCounter
  submitted_bytes :: ByteCounter
  admitted_bytes :: ByteCounter
  in_flight_bytes :: ByteCounter
  completed_bytes :: ByteCounter
  failed_bytes :: ByteCounter
  cancelled_bytes :: ByteCounter
  fl_declared_ms :: u64
  fl_started_ms :: u64
  fl_last_progress_ms :: u64
  fl_priority :: double
  fl_latency_sensitivity :: double
  fl_throughput_target_bps :: double
  fl_burst_allowance_bytes :: double
  fl_deadline_ms :: double
  fl_fairness :: FairnessConfig
  fl_provenance :: MeasurementProvenance
  fl_description :: string

definition flow_terminal :: "Flow \<Rightarrow> bool" where
  "flow_terminal f \<longleftrightarrow> flow_is_terminal (fl_state f)"

definition is_authoritative :: "Flow \<Rightarrow> WorkerBootId \<Rightarrow> SourceBootId \<Rightarrow> bool" where
  "is_authoritative f boot sboot \<longleftrightarrow> fl_owner_boot f = boot \<and> fl_source_boot f = sboot"

definition accounting_valid :: "Flow \<Rightarrow> bool" where
  "accounting_valid f \<longleftrightarrow>
     \<not> bc_value (completed_bytes f) > bc_value (admitted_bytes f) \<and>
     \<not> bc_value (admitted_bytes f) > bc_value (submitted_bytes f) \<and>
     \<not> bc_value (in_flight_bytes f) > bc_value (admitted_bytes f)"

lemma accounting_valid_unat: "accounting_valid f \<longleftrightarrow>
    bcv (completed_bytes f) \<le> bcv (admitted_bytes f) \<and>
    bcv (admitted_bytes f) \<le> bcv (submitted_bytes f) \<and>
    bcv (in_flight_bytes f) \<le> bcv (admitted_bytes f)"
  by (simp add: accounting_valid_def word_less_nat_alt not_less)

end
