(* ===== verification/Shaping.thy ===== *)
theory Shaping
  imports Capacity
begin

text \<open>
  Local software shaping: \<^verbatim>\<open>include/congestion_fabric/shaping.hpp\<close>. \<open>TokenBucket\<close> is the
  class with its four members, the operations return the updated bucket. The invariant
  \<open>tb_inv\<close> (valid, tokens within the burst capacity) is kept by every operation on every
  double, NaN and infinity included, and is lifted to arbitrary sequences of calls.
\<close>

section \<open>Definitions\<close>

record TokenBucket =
  tb_rate :: double
  tb_capacity :: double
  tb_tokens :: double
  tb_last_refill_s :: double

definition token_bucket :: "double \<Rightarrow> double \<Rightarrow> TokenBucket" where
  "token_bucket rate burst_bytes = \<lparr>tb_rate = rate, tb_capacity = burst_bytes,
     tb_tokens = burst_bytes, tb_last_refill_s = 0\<rparr>"

definition default_bucket :: TokenBucket where
  "default_bucket = token_bucket 0 0"

definition set_rate :: "double \<Rightarrow> TokenBucket \<Rightarrow> TokenBucket" where
  "set_rate r b = b\<lparr>tb_rate := r\<rparr>"

definition set_burst :: "double \<Rightarrow> TokenBucket \<Rightarrow> TokenBucket" where
  "set_burst burst_bytes b =
     b\<lparr>tb_capacity := burst_bytes, tb_tokens := dmin (tb_tokens b) burst_bytes\<rparr>"

definition refill :: "double \<Rightarrow> TokenBucket \<Rightarrow> TokenBucket" where
  "refill now_s b = (let elapsed = dsub now_s (tb_last_refill_s b)
     in if dlt 0 elapsed
        then b\<lparr>tb_tokens := dmin (tb_capacity b) (dadd (tb_tokens b) (dmul elapsed (tb_rate b))),
               tb_last_refill_s := now_s\<rparr>
        else b)"

definition try_consume :: "double \<Rightarrow> TokenBucket \<Rightarrow> bool \<times> TokenBucket" where
  "try_consume bytes b =
    (if dlt bytes 0 then (False, b)
     else if dle bytes (tb_tokens b) then (True, b\<lparr>tb_tokens := dsub (tb_tokens b) bytes\<rparr>)
     else (False, b))"

definition tb_valid :: "TokenBucket \<Rightarrow> bool" where
  "tb_valid b \<longleftrightarrow> isfinite (tb_rate b) \<and> dle 0 (tb_rate b) \<and> isfinite (tb_capacity b) \<and>
     dle 0 (tb_capacity b) \<and> isfinite (tb_tokens b) \<and> dle 0 (tb_tokens b)"

record WeightedByteBudget =
  wb_total :: double
  wb_protect :: double

definition share_for :: "WeightedByteBudget \<Rightarrow> double \<Rightarrow> double \<Rightarrow> double" where
  "share_for w weight total_weight =
    (if dle total_weight 0 \<or> dlt weight 0 then 0
     else let pool = dsub (wb_total w) (wb_protect w);
              pool = (if dlt pool 0 then 0 else pool)
          in dmul pool (ddiv weight total_weight))"

text \<open>The public mutators as a sequence of calls.\<close>

datatype bucket_call = SetRate double | SetBurst double | Refill double | TryConsume double

fun bucket_step :: "bucket_call \<Rightarrow> TokenBucket \<Rightarrow> TokenBucket" where
  "bucket_step (SetRate r) b = set_rate r b"
| "bucket_step (SetBurst s) b = set_burst s b"
| "bucket_step (Refill t) b = refill t b"
| "bucket_step (TryConsume n) b = snd (try_consume n b)"

definition bucket_run :: "bucket_call list \<Rightarrow> TokenBucket \<Rightarrow> TokenBucket" where
  "bucket_run cs b = fold bucket_step cs b"

text \<open>Configuration calls are given a finite non-negative rate or burst, as the engine does.\<close>

fun bucket_call_ok :: "bucket_call \<Rightarrow> bool" where
  "bucket_call_ok (SetRate r) = (isfinite r \<and> dle 0 r)"
| "bucket_call_ok (SetBurst s) = (isfinite s \<and> dle 0 s)"
| "bucket_call_ok _ = True"

section \<open>The bucket invariant\<close>

definition tb_inv :: "TokenBucket \<Rightarrow> bool" where
  "tb_inv b \<longleftrightarrow> fin_nonneg (tb_rate b) \<and> fin_nonneg (tb_capacity b) \<and> fin_nonneg (tb_tokens b) \<and>
     dkey (tb_tokens b) \<le> dkey (tb_capacity b)"

lemma fin_nonneg_alt: "fin_nonneg x \<longleftrightarrow> isfinite x \<and> dle 0 x"
  by (auto simp: fin_nonneg_def dle_def)

lemma tb_inv_iff: "tb_inv b \<longleftrightarrow> tb_valid b \<and> dle (tb_tokens b) (tb_capacity b)"
  by (auto simp: tb_inv_def tb_valid_def fin_nonneg_alt dle_def)

lemma tb_inv_token_bucket: "fin_nonneg r \<Longrightarrow> fin_nonneg s \<Longrightarrow> tb_inv (token_bucket r s)"
  by (simp add: tb_inv_def token_bucket_def)

lemma tb_inv_set_rate: "tb_inv b \<Longrightarrow> fin_nonneg r \<Longrightarrow> tb_inv (set_rate r b)"
  by (simp add: tb_inv_def set_rate_def)

lemma tb_inv_set_burst: "tb_inv b \<Longrightarrow> fin_nonneg s \<Longrightarrow> tb_inv (set_burst s b)"
  using dmin_le [of "tb_tokens b" s]
  by (auto simp: tb_inv_def set_burst_def fin_nonneg_def dmin_def dlt_def)

lemma dmul_pos_nonneg:
  assumes "0 < dkey x" "\<not> isnan x" "fin_nonneg y" "isfinite (dmul x y)"
  shows "0 \<le> dkey (dmul x y)"
proof (cases "isfinite x")
  case True
  then show ?thesis using dmul_nonneg_key [of x y] assms by (simp add: fin_nonneg_def)
next
  case False
  then have "isinf x" using assms(2) by (simp add: isfinite_def isnan_def isinf_def)
  then have "dmul x y = dnan \<or> (\<exists>s. dmul x y = mk s inf_mag)" by (auto simp: dmul_def)
  moreover have "\<not> isfinite dnan" by (simp add: isfinite_def dmag_def dnan_def inf_mag_def)
  moreover have "\<not> isfinite (mk s inf_mag)" for s
    using dmag_mk [OF inf_mag_less, of s] by (simp add: isfinite_def)
  ultimately show ?thesis using assms(4) by metis
qed

lemma dadd_infinite: "isfinite x \<Longrightarrow> \<not> isfinite y \<Longrightarrow> isnan (dadd x y) \<or> dadd x y = y"
  by (auto simp: dadd_def isnan_def isinf_def isfinite_def dnan_def dmag_def inf_mag_def)

lemma inf_above: "\<not> isnan y \<Longrightarrow> \<not> isfinite y \<Longrightarrow> isfinite c \<Longrightarrow> dkey y < dkey c \<Longrightarrow> dkey y < 0"
  by (auto simp: dkey_def isfinite_def isnan_def split: if_splits)

text \<open>Refilling keeps the invariant and never takes tokens away.\<close>

lemma refill_tokens:
  assumes inv: "tb_inv b" and el: "dlt 0 e"
    and t: "t = dadd (tb_tokens b) (dmul e (tb_rate b))" and lt: "dlt t (tb_capacity b)"
  shows "fin_nonneg t" "dkey (tb_tokens b) \<le> dkey t"
proof -
  let ?p = "dmul e (tb_rate b)"
  have e: "0 < dkey e" "\<not> isnan e" using el by (auto simp: dlt_def)
  have tok: "fin_nonneg (tb_tokens b)" "fin_nonneg (tb_rate b)" "fin_nonneg (tb_capacity b)"
    using inv by (auto simp: tb_inv_def)
  have "\<not> isnan t" "dkey t < dkey (tb_capacity b)" using lt by (auto simp: dlt_def)
  have fin: "isfinite ?p"
  proof (rule ccontr)
    assume nf: "\<not> isfinite ?p"
    then have "t = ?p" using dadd_infinite [of "tb_tokens b" ?p] t \<open>\<not> isnan t\<close> tok
      by (auto simp: fin_nonneg_def)
    then have neg: "dkey ?p < 0"
      using inf_above [OF _ nf, of "tb_capacity b"] \<open>\<not> isnan t\<close> \<open>dkey t < _\<close> tok
      by (simp add: fin_nonneg_def)
    have "\<not> isfinite e \<or> isfinite e" by simp
    then have "0 \<le> dkey ?p"
    proof
      assume "isfinite e"
      then show ?thesis using dmul_nonneg_key [of e "tb_rate b"] e tok by (simp add: fin_nonneg_def)
    next
      assume "\<not> isfinite e"
      then have "isinf e" using e by (simp add: isfinite_def isnan_def isinf_def)
      moreover have "\<not> isnan ?p" using \<open>t = ?p\<close> \<open>\<not> isnan t\<close> by simp
      moreover have "\<not> dneg e" using e by (auto simp: dkey_def)
      moreover have "dneg (tb_rate b) \<longrightarrow> dmag (tb_rate b) = 0"
        using tok(2) by (auto simp: fin_nonneg_def dkey_def)
      moreover have "isnan dnan" by (simp add: isnan_def dmag_def dnan_def inf_mag_def)
      ultimately show ?thesis
        using tok(2) e(2) inf_mag_less by (auto simp: dmul_def fin_nonneg_def dkey_mk split: if_splits)
    qed
    with neg show False by simp
  qed
  then have "0 \<le> dkey ?p" using dmul_pos_nonneg [of e "tb_rate b"] e tok by simp
  then have "dval (tb_tokens b) \<le> dval (tb_tokens b) + dval ?p" using dval_nonneg fin by simp
  then have "srnd (dval (tb_tokens b)) \<le> dkey t"
    using t fin tok dkey_dadd [of "tb_tokens b" ?p] srnd_mono by (simp add: fin_nonneg_def)
  then show le: "dkey (tb_tokens b) \<le> dkey t" using tok srnd_dval by (simp add: fin_nonneg_def)
  show "fin_nonneg t"
    using le tok \<open>dkey t < dkey (tb_capacity b)\<close> by (auto simp: fin_nonneg_def isfinite_dkey)
qed

lemma refill_inv:
  assumes "tb_inv b"
  shows "tb_inv (refill now_s b)" "dkey (tb_tokens b) \<le> dkey (tb_tokens (refill now_s b))"
proof -
  let ?e = "dsub now_s (tb_last_refill_s b)"
  let ?t = "dadd (tb_tokens b) (dmul ?e (tb_rate b))"
  have "tb_inv (refill now_s b) \<and> dkey (tb_tokens b) \<le> dkey (tb_tokens (refill now_s b))"
  proof (cases "dlt 0 ?e \<and> dlt ?t (tb_capacity b)")
    case True
    then have "dlt 0 ?e" "dlt ?t (tb_capacity b)" by auto
    then show ?thesis using refill_tokens [OF assms _ refl] assms
      by (auto simp: refill_def tb_inv_def dmin_def dlt_def)
  qed (use assms in \<open>auto simp: refill_def tb_inv_def dmin_def Let_def\<close>)
  then show "tb_inv (refill now_s b)" "dkey (tb_tokens b) \<le> dkey (tb_tokens (refill now_s b))" by auto
qed

lemma try_consume_inv:
  assumes "tb_inv b"
  shows "tb_inv (snd (try_consume n b))"
    "fst (try_consume n b) \<longleftrightarrow> \<not> isnan n \<and> 0 \<le> dkey n \<and> dkey n \<le> dkey (tb_tokens b)"
proof -
  have ok: "isfinite (dsub (tb_tokens b) n) \<and> 0 \<le> dkey (dsub (tb_tokens b) n) \<and>
      dkey (dsub (tb_tokens b) n) \<le> dkey (tb_tokens b)"
    if "\<not> isnan n" "0 \<le> dkey n" "dkey n \<le> dkey (tb_tokens b)"
  proof -
    have "isfinite n" using that assms by (auto simp: tb_inv_def fin_nonneg_def isfinite_dkey)
    then show ?thesis
      using dsub_finite [of "tb_tokens b" n] dsub_nonneg [of "tb_tokens b" n] dsub_le [of "tb_tokens b" n]
        that assms by (auto simp: tb_inv_def fin_nonneg_def)
  qed
  show "fst (try_consume n b) \<longleftrightarrow> \<not> isnan n \<and> 0 \<le> dkey n \<and> dkey n \<le> dkey (tb_tokens b)"
    using assms by (auto simp: try_consume_def dlt_def dle_def tb_inv_def fin_nonneg_def)
  show "tb_inv (snd (try_consume n b))"
    using assms ok by (auto simp: try_consume_def dlt_def dle_def tb_inv_def fin_nonneg_def)
qed

lemma bucket_step_inv: "tb_inv b \<Longrightarrow> bucket_call_ok c \<Longrightarrow> tb_inv (bucket_step c b)"
  by (cases c) (auto simp: tb_inv_set_rate tb_inv_set_burst refill_inv try_consume_inv fin_nonneg_alt)

text \<open>Starting from a constructed bucket, after any sequence of refills, consumptions and
  (finite, non-negative) reconfigurations the bucket is valid and never holds more tokens than
  its burst capacity, whatever timestamps and byte counts the callers pass.\<close>

theorem bucket_run_bounded:
  assumes "isfinite rate" and "dle 0 rate" and "isfinite burst" and "dle 0 burst"
    and "list_all bucket_call_ok calls"
  shows "tb_valid (bucket_run calls (token_bucket rate burst)) \<and>
    dle (tb_tokens (bucket_run calls (token_bucket rate burst)))
        (tb_capacity (bucket_run calls (token_bucket rate burst)))"
proof -
  have "tb_inv (bucket_run calls b)" if "tb_inv b" for b
    using that assms(5) unfolding bucket_run_def
    by (induction calls arbitrary: b) (auto simp: bucket_step_inv)
  then have "tb_inv (bucket_run calls (token_bucket rate burst))"
    using assms by (simp add: tb_inv_token_bucket fin_nonneg_alt)
  then show ?thesis by (simp add: tb_inv_iff)
qed

text \<open>A consumption succeeds exactly for an amount between zero and the tokens present, and
  then removes at most what was there; a refused one changes nothing, and refilling never
  removes tokens.\<close>

theorem try_consume_exact:
  assumes "tb_valid b" and "dle (tb_tokens b) (tb_capacity b)"
  shows "(fst (try_consume n b) \<longleftrightarrow> dle 0 n \<and> dle n (tb_tokens b)) \<and>
    (\<not> fst (try_consume n b) \<longrightarrow> snd (try_consume n b) = b) \<and>
    dle 0 (tb_tokens (snd (try_consume n b))) \<and>
    dle (tb_tokens b) (tb_tokens (refill t b))"
proof -
  have inv: "tb_inv b" using assms by (simp add: tb_inv_iff)
  have "\<not> fst (try_consume n b) \<longrightarrow> snd (try_consume n b) = b" by (auto simp: try_consume_def)
  moreover have "fst (try_consume n b) \<longleftrightarrow> dle 0 n \<and> dle n (tb_tokens b)"
    using try_consume_inv(2) [OF inv, of n] inv by (auto simp: dle_def tb_inv_def fin_nonneg_def)
  moreover have "dle 0 (tb_tokens (snd (try_consume n b)))"
    using try_consume_inv(1) [OF inv, of n] by (auto simp: dle_def tb_inv_def fin_nonneg_def)
  moreover have "dle (tb_tokens b) (tb_tokens (refill t b))"
    using refill_inv [OF inv, of t] inv by (auto simp: dle_def tb_inv_def fin_nonneg_def)
  ultimately show ?thesis by blast
qed

section \<open>Weighted budgets\<close>

lemma ddiv_le_one:
  assumes "isfinite x" "isfinite y" "0 \<le> dkey x" "0 < dkey y" "dkey x \<le> dkey y"
  shows "dkey (ddiv x y) \<le> dkey d_one"
proof -
  have "dmag x \<le> dmag y" using assms(3,5) by (rule nonneg_dmag_le)
  then have "vmag (dmag x) \<le> vmag (dmag y)"
    using assms(2) by (intro ieee.val_mono) (auto simp: isfinite_def)
  moreover have "0 < vmag (dmag y)"
    using ieee.val_strict_mono [of 0 "dmag y"] assms(2) pos_dmag [OF assms(4)]
    by (simp add: isfinite_def)
  ultimately have "rmag (vmag (dmag x) * 2 ^ 1074) (vmag (dmag y)) \<le> dmag d_one"
    using isfinite_d_one
    by (intro ieee.rnd_le_code) (auto simp: isfinite_def vmag_d_one mult.commute)
  moreover have "dkey d_one = int (dmag d_one)" by (rule nonneg_dkey) (simp add: dkey_d_one)
  ultimately show ?thesis
    using ddiv_nonneg_key [OF assms(1-4)] by (simp only: of_nat_le_iff)
qed

text \<open>No participant of a weighted byte budget is given more than the unprotected pool, and
  no share is negative, for any weight up to the total weight.\<close>

theorem share_for_bounded:
  assumes "isfinite (wb_total w)" and "isfinite (wb_protect w)" and "dle 0 (wb_protect w)"
    and "dle (wb_protect w) (wb_total w)"
    and "isfinite weight" and "isfinite total_weight" and "dle weight total_weight"
  shows "dle 0 (share_for w weight total_weight) \<and>
    dle (share_for w weight total_weight) (dsub (wb_total w) (wb_protect w))"
proof -
  let ?pool = "dsub (wb_total w) (wb_protect w)"
  have pool: "isfinite ?pool" "0 \<le> dkey ?pool"
    using assms(1-4) by (auto simp: dle_def intro!: dsub_finite dsub_nonneg)
  show ?thesis
  proof (cases "dle total_weight 0 \<or> dlt weight 0")
    case True
    then show ?thesis using pool by (auto simp: share_for_def dle_def)
  next
    case False
    then have pos: "0 < dkey total_weight" "0 \<le> dkey weight" "dkey weight \<le> dkey total_weight"
      using assms(5-7) by (auto simp: dle_def dlt_def)
    let ?q = "ddiv weight total_weight"
    have q: "0 \<le> dkey ?q" "dkey ?q \<le> dkey d_one" "\<not> isnan ?q"
      using ddiv_nonneg [of weight total_weight] ddiv_le_one [of weight total_weight] pos assms(5,6) by auto
    have fq: "isfinite ?q" using q isfinite_d_one by (auto simp: isfinite_dkey)
    have "share_for w weight total_weight = dmul ?pool ?q"
      using False pool by (auto simp: share_for_def dlt_def)
    moreover have "\<not> isnan (dmul ?pool ?q)" using pool fq by (simp add: dmul_def)
    ultimately show ?thesis
      using dmul_le_left [OF pool(1) fq pool(2) q(1,2)] pool by (simp add: dle_def)
  qed
qed

section \<open>Witnesses\<close>

theorem bucket_run_bounded_witness:
  "tb_valid (bucket_run [Refill d_one, TryConsume d_one, SetBurst 0] (token_bucket d_one d_one)) \<and>
   dle (tb_tokens (bucket_run [Refill d_one, TryConsume d_one, SetBurst 0] (token_bucket d_one d_one)))
       (tb_capacity (bucket_run [Refill d_one, TryConsume d_one, SetBurst 0] (token_bucket d_one d_one)))"
  by (rule bucket_run_bounded) (simp_all add: double_eval d_one_def)

theorem try_consume_exact_witness:
  "fst (try_consume d_one (token_bucket d_one d_one)) \<and>
   dle 0 (tb_tokens (snd (try_consume d_one (token_bucket d_one d_one))))"
  using try_consume_exact [of "token_bucket d_one d_one" d_one 0]
  by (simp add: tb_valid_def token_bucket_def double_eval d_one_def)

theorem share_for_bounded_witness:
  "dle (share_for \<lparr>wb_total = d_one, wb_protect = 0\<rparr> d_one d_one) (dsub d_one 0)"
  using share_for_bounded [of "\<lparr>wb_total = d_one, wb_protect = 0\<rparr>" d_one d_one]
  by (simp add: double_eval d_one_def)

end
