(* ===== verification/Domain.thy ===== *)
theory Domain
  imports Flow Shaping
begin

text \<open>
  Congestion domains: \<^verbatim>\<open>include/congestion_fabric/domain.hpp\<close>. The struct with its queue,
  measurements, episodes and load rates, and the per-class byte aggregate. Default values are
  the C++ member initialisers.
\<close>

record DomainQueue =
  q_queued_bytes :: ByteCounter
  q_queued_ops :: u64
  q_in_flight_bytes :: ByteCounter
  q_in_flight_ops :: u64
  q_completed_bytes :: ByteCounter
  q_cancelled_bytes :: ByteCounter
  q_failed_bytes :: ByteCounter
  q_generation :: QueueGeneration

definition default_queue :: DomainQueue where
  "default_queue = \<lparr>q_queued_bytes = ByteCounter 0, q_queued_ops = 0,
     q_in_flight_bytes = ByteCounter 0, q_in_flight_ops = 0, q_completed_bytes = ByteCounter 0,
     q_cancelled_bytes = ByteCounter 0, q_failed_bytes = ByteCounter 0, q_generation = Generation 0\<rparr>"

definition queue_valid :: "DomainQueue \<Rightarrow> bool" where
  "queue_valid q \<longleftrightarrow> q_queued_ops q > 0 \<or> bc_value (q_queued_bytes q) = 0"

section \<open>Per-class byte aggregates\<close>

type_synonym ClassAggregate = "u64 list"

definition empty_aggregate :: ClassAggregate where
  "empty_aggregate = replicate 12 0"

definition class_slot :: "TrafficClass \<Rightarrow> nat" where
  "class_slot k = unat (TrafficClass_to_u8 k) mod 12"

definition class_add :: "TrafficClass \<Rightarrow> u64 \<Rightarrow> ClassAggregate \<Rightarrow> ClassAggregate" where
  "class_add k bytes a = (case checked_add (a ! class_slot k) bytes of
     None \<Rightarrow> a | Some x \<Rightarrow> a[class_slot k := x])"

definition class_remove :: "TrafficClass \<Rightarrow> u64 \<Rightarrow> ClassAggregate \<Rightarrow> ClassAggregate" where
  "class_remove k bytes a = (case checked_sub (a ! class_slot k) bytes of
     None \<Rightarrow> a | Some x \<Rightarrow> a[class_slot k := x])"

definition class_get :: "TrafficClass \<Rightarrow> ClassAggregate \<Rightarrow> u64" where
  "class_get k a = a ! class_slot k"

lemma class_slot_less [simp]: "class_slot k < 12"
  by (simp add: class_slot_def)

text \<open>Removing what was added restores a class aggregate, provided the addition did not
  saturate; other classes' aggregates are untouched, and every slot access stays in the array.\<close>

theorem class_add_remove:
  assumes "length a = 12" and "unat (class_get k a) + unat n < 2 ^ 64"
  shows "class_remove k n (class_add k n a) = a \<and>
    unat (class_get k (class_add k n a)) = unat (class_get k a) + unat n \<and>
    (\<forall>j. class_slot j \<noteq> class_slot k \<longrightarrow> class_get j (class_add k n a) = class_get j a)"
  using assms
  by (auto simp: class_add_def class_remove_def class_get_def checked_add_iff checked_sub_iff unat_u64_add)

section \<open>The domain struct\<close>

record CongestionDomain =
  d_ref :: DomainRef
  d_kind :: DomainKind
  d_capacity :: CapacityProfile
  d_queue :: DomainQueue
  d_measurements :: MeasurementSet
  d_state :: CongestionState
  d_state_provenance :: MeasurementProvenance
  d_backpressure_generation :: BackpressureGeneration
  d_recovery_generation :: RecoveryGeneration
  d_default_fairness :: FairnessConfig
  d_shaping :: TokenBucket
  d_flows :: "FlowRef list"
  d_class_bytes :: ClassAggregate
  d_outbound_influence :: "DomainInfluence list"
  d_upstream_domains :: "CongestionDomainId list"
  d_episodes :: "CongestionEpisode list"
  d_current_episode :: CongestionEpisode
  d_offered_bps :: double
  d_offered_provenance :: MeasurementProvenance
  d_offered_owner :: WorkerId
  d_offered_owner_boot :: WorkerBootId
  d_admitted_bps :: double
  d_admitted_provenance :: MeasurementProvenance
  d_serviced_bps :: double
  d_serviced_provenance :: MeasurementProvenance
  d_serviced_owner :: WorkerId
  d_serviced_owner_boot :: WorkerBootId
  d_utilisation :: double
  d_utilisation_provenance :: MeasurementProvenance
  d_effective_bps :: double
  d_effective_provenance :: MeasurementProvenance
  d_residual_bps :: double
  d_residual_provenance :: MeasurementProvenance

definition default_domain :: CongestionDomain where
  "default_domain = \<lparr>d_ref = invalid_ref, d_kind = DK_UNKNOWN, d_capacity = default_capacity,
     d_queue = default_queue, d_measurements = empty_measurements, d_state = CS_UNKNOWN,
     d_state_provenance = MP_UNKNOWN, d_backpressure_generation = Generation 0,
     d_recovery_generation = Generation 0, d_default_fairness = default_fairness_config,
     d_shaping = default_bucket, d_flows = [], d_class_bytes = empty_aggregate,
     d_outbound_influence = [], d_upstream_domains = [], d_episodes = [],
     d_current_episode = default_episode, d_offered_bps = 0, d_offered_provenance = MP_UNKNOWN,
     d_offered_owner = Id 0, d_offered_owner_boot = Generation 0, d_admitted_bps = 0,
     d_admitted_provenance = MP_UNKNOWN, d_serviced_bps = 0, d_serviced_provenance = MP_UNKNOWN,
     d_serviced_owner = Id 0, d_serviced_owner_boot = Generation 0, d_utilisation = 0,
     d_utilisation_provenance = MP_UNKNOWN, d_effective_bps = 0, d_effective_provenance = MP_UNKNOWN,
     d_residual_bps = 0, d_residual_provenance = MP_UNKNOWN\<rparr>"

definition domain_exists :: "CongestionDomain \<Rightarrow> bool" where
  "domain_exists d \<longleftrightarrow> id_valid (ref_id (d_ref d))"

definition domain_is_live :: "CongestionDomain \<Rightarrow> bool" where
  "domain_is_live d \<longleftrightarrow> congestion_is_live (d_state d)"

section \<open>Witnesses\<close>

theorem class_add_remove_witness:
  "class_remove TC_CHECKPOINT 7 (class_add TC_CHECKPOINT 7 empty_aggregate) = empty_aggregate"
  using class_add_remove [of empty_aggregate TC_CHECKPOINT 7]
  by (simp add: empty_aggregate_def class_get_def class_slot_def)

end
