(* ===== verification/Engine.thy ===== *)
theory Engine
  imports Domain
begin

text \<open>
  The mutating half of the central engine, \<^verbatim>\<open>src/engine.cpp\<close> and \<^verbatim>\<open>engine.hpp\<close>:
  \<open>CongestionFabric\<close> is \<^verbatim>\<open>CongestionFabric::Impl\<close> with the limits, and each public method is
  one definition on it that returns the method's result and the new state. Every method runs
  under the engine's mutex, so a call is one atomic step. \<^verbatim>\<open>now_ms()\<close> is an argument. A flow
  method is split into the lookup (\<open>on_flow\<close>) and the body that works on the found flow; a
  body can fail after it has already written to the flow, and the model keeps those writes.
\<close>

section \<open>State\<close>

record EngineLimits =
  max_domains :: u64
  max_active_flows :: u64
  max_flow_history :: u64
  max_episode_history_per_domain :: u64
  max_queue_depth_ops :: u64
  max_queued_bytes :: u64
  max_path_length :: u64
  max_explanation_chars :: u64

definition default_limits :: EngineLimits where
  "default_limits = \<lparr>max_domains = 4096, max_active_flows = 200000, max_flow_history = 1000000,
     max_episode_history_per_domain = 256, max_queue_depth_ops = 1073741824,
     max_queued_bytes = - 1 div 2, max_path_length = 64, max_explanation_chars = 4096\<rparr>"

record CongestionFabric =
  cf_limits :: EngineLimits
  cf_epoch :: CoordinatorEpoch
  cf_worker_boot :: "(WorkerId, WorkerBootId) umap"
  cf_source_boot :: "(SourceId, SourceBootId) umap"
  cf_domains :: "(CongestionDomainId, CongestionDomain) umap"
  cf_flows :: "(FlowId, Flow) umap"
  cf_flow_history :: "FlowId list"
  cf_next_domain :: u64
  cf_next_flow :: u64
  cf_next_event :: u64
  cf_next_policy :: u64
  cf_active_flows :: u64
  cf_recovered :: bool

definition new_fabric :: "EngineLimits \<Rightarrow> CongestionFabric" where
  "new_fabric lims = \<lparr>cf_limits = lims, cf_epoch = Generation 1, cf_worker_boot = [],
     cf_source_boot = [], cf_domains = [], cf_flows = [], cf_flow_history = [],
     cf_next_domain = 1, cf_next_flow = 1, cf_next_event = 1, cf_next_policy = 1,
     cf_active_flows = 0, cf_recovered = False\<rparr>"

abbreviation set_flow :: "CongestionFabric \<Rightarrow> FlowId \<Rightarrow> Flow \<Rightarrow> CongestionFabric" where
  "set_flow e k f \<equiv> e\<lparr>cf_flows := um_assign (cf_flows e) k f\<rparr>"

abbreviation set_domain :: "CongestionFabric \<Rightarrow> CongestionDomainId \<Rightarrow> CongestionDomain \<Rightarrow> CongestionFabric" where
  "set_domain e k d \<equiv> e\<lparr>cf_domains := um_assign (cf_domains e) k d\<rparr>"

section \<open>Epochs, registration and fencing\<close>

definition advance_epoch :: "CoordinatorEpoch \<Rightarrow> CongestionFabric \<Rightarrow> bool \<times> CongestionFabric" where
  "advance_epoch nxt e =
    (if \<not> gen_valid nxt \<or> genv nxt \<le> genv (cf_epoch e) then (False, e)
     else (True, e\<lparr>cf_epoch := nxt\<rparr>))"

definition register_worker :: "WorkerId \<Rightarrow> WorkerBootId \<Rightarrow> CongestionFabric \<Rightarrow> bool \<times> CongestionFabric" where
  "register_worker w boot e =
    (if \<not> id_valid w \<or> \<not> gen_valid boot then (False, e)
     else case um_find (cf_worker_boot e) w of
       Some b \<Rightarrow> if genv b \<ge> genv boot then (False, e)
                 else (True, e\<lparr>cf_worker_boot := um_assign (cf_worker_boot e) w boot\<rparr>)
     | None \<Rightarrow> (True, e\<lparr>cf_worker_boot := um_assign (cf_worker_boot e) w boot\<rparr>))"

definition register_source :: "SourceId \<Rightarrow> SourceBootId \<Rightarrow> CongestionFabric \<Rightarrow> bool \<times> CongestionFabric" where
  "register_source s boot e =
    (if \<not> id_valid s \<or> \<not> gen_valid boot then (False, e)
     else case um_find (cf_source_boot e) s of
       Some b \<Rightarrow> if genv b \<ge> genv boot then (False, e)
                 else (True, e\<lparr>cf_source_boot := um_assign (cf_source_boot e) s boot\<rparr>)
     | None \<Rightarrow> (True, e\<lparr>cf_source_boot := um_assign (cf_source_boot e) s boot\<rparr>))"

definition fence_flow :: "(Flow \<Rightarrow> bool) \<Rightarrow> Flow \<Rightarrow> Flow" where
  "fence_flow owned f =
    (if owned f \<and> \<not> flow_terminal f \<and> \<not> flow_is_stale_or_superseded (fl_state f)
     then f\<lparr>fl_state := FS_STALE\<rparr> else f)"

definition owns_offered :: "WorkerId \<Rightarrow> WorkerBootId \<Rightarrow> CongestionDomain \<Rightarrow> bool" where
  "owns_offered w dead d \<longleftrightarrow>
     id_valid (d_offered_owner d) \<and> d_offered_owner d = w \<and> d_offered_owner_boot d = dead"

definition owns_serviced :: "WorkerId \<Rightarrow> WorkerBootId \<Rightarrow> CongestionDomain \<Rightarrow> bool" where
  "owns_serviced w dead d \<longleftrightarrow>
     id_valid (d_serviced_owner d) \<and> d_serviced_owner d = w \<and> d_serviced_owner_boot d = dead"

definition drop_evidence :: "WorkerId \<Rightarrow> WorkerBootId \<Rightarrow> CongestionDomain \<Rightarrow> CongestionDomain" where
  "drop_evidence w dead d =
    (let d1 = (if owns_offered w dead d
               then d\<lparr>d_offered_bps := 0, d_offered_provenance := MP_UNKNOWN, d_offered_owner := Id 0\<rparr> else d)
     in if owns_serviced w dead d
        then d1\<lparr>d_serviced_bps := 0, d_serviced_provenance := MP_UNKNOWN, d_serviced_owner := Id 0\<rparr> else d1)"

definition invalidate_domain :: "CongestionDomain \<Rightarrow> CongestionDomain" where
  "invalidate_domain d =
    (let d1 = d\<lparr>d_queue := (d_queue d)\<lparr>q_generation := gen_next (q_generation (d_queue d))\<rparr>\<rparr>
     in if d_state d1 \<noteq> CS_UNKNOWN
        then d1\<lparr>d_state := CS_REVALIDATION_REQUIRED, d_state_provenance := MP_UNKNOWN\<rparr> else d1)"

text \<open>One iteration of the domain loop of \<^verbatim>\<open>fence_worker\<close>; \<open>any\<close> is \<^verbatim>\<open>any_invalidated\<close>, which is
  declared before the loop and is not reset.\<close>

definition fence_domain :: "WorkerId \<Rightarrow> WorkerBootId \<Rightarrow> bool \<Rightarrow> CongestionDomain \<Rightarrow> bool \<times> CongestionDomain" where
  "fence_domain w dead any d =
    (let any' = (any \<or> owns_offered w dead d \<or> owns_serviced w dead d);
         d' = drop_evidence w dead d
     in (any', if any' then invalidate_domain d' else d'))"

fun fence_domains :: "WorkerId \<Rightarrow> WorkerBootId \<Rightarrow> bool \<Rightarrow> (CongestionDomainId, CongestionDomain) umap
    \<Rightarrow> (CongestionDomainId, CongestionDomain) umap" where
  "fence_domains w dead any [] = []"
| "fence_domains w dead any ((k, d) # ds) =
     (case fence_domain w dead any d of (any', d') \<Rightarrow> (k, d') # fence_domains w dead any' ds)"

definition fence_worker :: "WorkerId \<Rightarrow> WorkerBootId \<Rightarrow> CongestionFabric \<Rightarrow> bool \<times> CongestionFabric" where
  "fence_worker w dead e =
    (if \<not> id_valid w then (False, e)
     else case um_find (cf_worker_boot e) w of
       None \<Rightarrow> (False, e)
     | Some b \<Rightarrow>
        if b \<noteq> dead then (False, e)
        else (True, e\<lparr>cf_worker_boot := um_assign (cf_worker_boot e) w (gen_next b),
                      cf_flows := um_map (fence_flow (\<lambda>f. fl_owner_worker f = w \<and> fl_owner_boot f = dead))
                        (cf_flows e),
                      cf_domains := fence_domains w dead False (cf_domains e)\<rparr>))"

definition fence_source :: "SourceId \<Rightarrow> SourceBootId \<Rightarrow> CongestionFabric \<Rightarrow> bool \<times> CongestionFabric" where
  "fence_source s dead e =
    (if \<not> id_valid s then (False, e)
     else case um_find (cf_source_boot e) s of
       None \<Rightarrow> (False, e)
     | Some b \<Rightarrow>
        if b \<noteq> dead then (False, e)
        else (True, e\<lparr>cf_source_boot := um_assign (cf_source_boot e) s (gen_next b),
                      cf_flows := um_map (fence_flow (\<lambda>f. fl_source f = s \<and> fl_source_boot f = dead))
                        (cf_flows e)\<rparr>))"

section \<open>Domains\<close>

definition create_domain :: "DomainKind \<Rightarrow> CapacityProfile \<Rightarrow> CongestionFabric \<Rightarrow> DomainRef \<times> CongestionFabric" where
  "create_domain kind capacity e =
    (if length (cf_domains e) \<ge> unat (max_domains (cf_limits e)) then (invalid_ref, e)
     else if \<not> capacity_valid capacity then (invalid_ref, e)
     else let k = Id (cf_next_domain e);
              d = default_domain\<lparr>d_ref := EntityRef k (Generation 1), d_kind := kind,
                d_capacity := capacity, d_queue := default_queue\<lparr>q_generation := Generation 1\<rparr>,
                d_residual_bps := (case residual capacity 0 of Some r \<Rightarrow> r | None \<Rightarrow> 0)\<rparr>;
              ds = um_emplace (cf_domains e) k d
          in (case um_find ds k of Some d' \<Rightarrow> d_ref d' | None \<Rightarrow> invalid_ref,
              e\<lparr>cf_next_domain := cf_next_domain e + 1, cf_domains := ds\<rparr>))"

definition remove_domain :: "CongestionDomainId \<Rightarrow> CongestionFabric \<Rightarrow> bool \<times> CongestionFabric" where
  "remove_domain k e =
    (um_find (cf_domains e) k \<noteq> None, e\<lparr>cf_domains := um_erase (cf_domains e) k\<rparr>)"

definition domain_of :: "CongestionFabric \<Rightarrow> CongestionDomainId \<Rightarrow> CongestionDomain option" where
  "domain_of e k = um_find (cf_domains e) k"

definition domain_count :: "CongestionFabric \<Rightarrow> nat" where
  "domain_count e = length (cf_domains e)"

definition domain_ids :: "CongestionFabric \<Rightarrow> CongestionDomainId list" where
  "domain_ids e = map fst (cf_domains e)"

section \<open>Flows\<close>

record FlowOptions =
  o_owner_worker :: WorkerId
  o_owner_boot :: WorkerBootId
  o_source :: SourceId
  o_source_boot :: SourceBootId
  o_workload :: "WorkloadTag EntityRef"
  o_execution :: "ExecutionTag EntityRef"
  o_traffic_class :: TrafficClass
  o_domain :: DomainRef
  o_path :: "PathTag EntityRef"
  o_expected_bytes :: u64
  o_submitted_bytes :: u64
  o_priority :: double
  o_latency_sensitivity :: double
  o_throughput_target_bps :: double
  o_burst_allowance_bytes :: double
  o_deadline_ms :: double
  o_fairness :: FairnessConfig
  o_provenance :: MeasurementProvenance
  o_description :: string

definition default_options :: FlowOptions where
  "default_options = \<lparr>o_owner_worker = Id 0, o_owner_boot = Generation 0, o_source = Id 0,
     o_source_boot = Generation 0, o_workload = invalid_ref, o_execution = invalid_ref,
     o_traffic_class = TC_UNKNOWN, o_domain = invalid_ref, o_path = invalid_ref,
     o_expected_bytes = 0, o_submitted_bytes = 0, o_priority = 0, o_latency_sensitivity = 0,
     o_throughput_target_bps = 0, o_burst_allowance_bytes = 0, o_deadline_ms = 0,
     o_fairness = default_fairness_config, o_provenance = MP_UNKNOWN, o_description = []\<rparr>"

text \<open>The flow \<^verbatim>\<open>declare_flow\<close> builds from the options, with the default counters.\<close>

definition flow_of_options :: "FlowId \<Rightarrow> u64 \<Rightarrow> FlowOptions \<Rightarrow> Flow" where
  "flow_of_options k now opts = \<lparr>fl_ref = EntityRef k (Generation 1),
     fl_owner_worker = o_owner_worker opts, fl_owner_boot = o_owner_boot opts,
     fl_source = o_source opts, fl_source_boot = o_source_boot opts,
     fl_workload = o_workload opts, fl_execution = o_execution opts,
     fl_traffic_class = o_traffic_class opts, fl_domain = o_domain opts, fl_path = o_path opts,
     fl_state = FS_DECLARED, expected_bytes = ByteCounter (o_expected_bytes opts),
     submitted_bytes = ByteCounter (o_submitted_bytes opts), admitted_bytes = ByteCounter 0,
     in_flight_bytes = ByteCounter 0, completed_bytes = ByteCounter 0, failed_bytes = ByteCounter 0,
     cancelled_bytes = ByteCounter 0, fl_declared_ms = now, fl_started_ms = 0,
     fl_last_progress_ms = 0, fl_priority = o_priority opts,
     fl_latency_sensitivity = o_latency_sensitivity opts,
     fl_throughput_target_bps = o_throughput_target_bps opts,
     fl_burst_allowance_bytes = o_burst_allowance_bytes opts, fl_deadline_ms = o_deadline_ms opts,
     fl_fairness = o_fairness opts, fl_provenance = o_provenance opts,
     fl_description = o_description opts\<rparr>"

definition declare_allowed :: "FlowOptions \<Rightarrow> CongestionFabric \<Rightarrow> bool" where
  "declare_allowed opts e \<longleftrightarrow>
     id_valid (o_owner_worker opts) \<and> gen_valid (o_owner_boot opts) \<and>
     id_valid (o_source opts) \<and> gen_valid (o_source_boot opts) \<and>
     um_find (cf_worker_boot e) (o_owner_worker opts) = Some (o_owner_boot opts) \<and>
     um_find (cf_source_boot e) (o_source opts) = Some (o_source_boot opts) \<and>
     id_valid (ref_id (o_domain opts)) \<and> um_find (cf_domains e) (ref_id (o_domain opts)) \<noteq> None \<and>
     \<not> cf_active_flows e \<ge> max_active_flows (cf_limits e)"

definition declare_flow :: "FlowOptions \<Rightarrow> u64 \<Rightarrow> CongestionFabric \<Rightarrow> FlowRef \<times> CongestionFabric" where
  "declare_flow opts now e =
    (if \<not> declare_allowed opts e then (invalid_ref, e)
     else let k = Id (cf_next_flow e);
              fs = um_emplace (cf_flows e) k (flow_of_options k now opts);
              h = cf_flow_history e @ [k];
              h' = (if length h > unat (max_flow_history (cf_limits e)) then tl h else h)
          in (case um_find fs k of Some f \<Rightarrow> fl_ref f | None \<Rightarrow> invalid_ref,
              e\<lparr>cf_next_flow := cf_next_flow e + 1, cf_flows := fs,
                cf_active_flows := cf_active_flows e + 1, cf_flow_history := h'\<rparr>))"

definition find_flow :: "(FlowId, Flow) umap \<Rightarrow> FlowRef \<Rightarrow> Flow option" where
  "find_flow fm ref = (case um_find fm (ref_id ref) of
     None \<Rightarrow> None
   | Some f \<Rightarrow> if ref_gen (fl_ref f) \<noteq> ref_gen ref then None else Some f)"

text \<open>Look the flow up, run the body of the method on it and store what it wrote.\<close>

definition on_flow :: "FlowRef \<Rightarrow> (Flow \<Rightarrow> bool \<times> Flow) \<Rightarrow> CongestionFabric \<Rightarrow> bool \<times> CongestionFabric" where
  "on_flow ref body e = (case find_flow (cf_flows e) ref of
     None \<Rightarrow> (False, e)
   | Some f \<Rightarrow> (case body f of (r, f') \<Rightarrow> (r, set_flow e (ref_id ref) f')))"

definition admit_body :: "Flow \<Rightarrow> bool \<times> Flow" where
  "admit_body f =
    (case bc_add (admitted_bytes f) (bc_value (submitted_bytes f)) of (ok, a) \<Rightarrow>
       if \<not> ok then (False, f)
       else if bc_value a > bc_value (submitted_bytes f) then (False, f\<lparr>admitted_bytes := a\<rparr>)
       else (True, f\<lparr>admitted_bytes := a, fl_state := FS_ADMITTED\<rparr>))"

definition admit_flow :: "FlowRef \<Rightarrow> CongestionFabric \<Rightarrow> bool \<times> CongestionFabric" where
  "admit_flow ref e = (case find_flow (cf_flows e) ref of
     None \<Rightarrow> (False, e)
   | Some f \<Rightarrow>
      if \<not> flow_transition_allowed (fl_state f) FS_ADMITTED then (False, e)
      else case um_find (cf_domains e) (ref_id (fl_domain f)) of
        None \<Rightarrow> (False, e)
      | Some d \<Rightarrow> (case admit_body f of (ok, f') \<Rightarrow>
          if \<not> ok then (False, set_flow e (ref_id ref) f')
          else (True, set_domain (set_flow e (ref_id ref) f') (ref_id (fl_domain f))
                        (d\<lparr>d_flows := d_flows d @ [ref]\<rparr>))))"

definition queued_count :: "(FlowId, Flow) umap \<Rightarrow> FlowRef list \<Rightarrow> u64" where
  "queued_count fm refs = fold (\<lambda>r n. case find_flow fm r of
     None \<Rightarrow> n | Some q \<Rightarrow> if fl_state q = FS_QUEUED then n + 1 else n) refs 0"

definition queue_flow :: "FlowRef \<Rightarrow> CongestionFabric \<Rightarrow> bool \<times> CongestionFabric" where
  "queue_flow ref e = (case find_flow (cf_flows e) ref of
     None \<Rightarrow> (False, e)
   | Some f \<Rightarrow>
      if \<not> flow_transition_allowed (fl_state f) FS_QUEUED then (False, e)
      else case um_find (cf_domains e) (ref_id (fl_domain f)) of
        None \<Rightarrow> (False, e)
      | Some d \<Rightarrow>
          if queued_count (cf_flows e) (d_flows d) + 1 > max_queue_depth_ops (cf_limits e) then (False, e)
          else (True, set_flow e (ref_id ref) (f\<lparr>fl_state := FS_QUEUED\<rparr>)))"

definition start_body :: "WorkerBootId \<Rightarrow> u64 \<Rightarrow> Flow \<Rightarrow> bool \<times> Flow" where
  "start_body boot now f =
    (if fl_owner_boot f \<noteq> boot then (False, f)
     else if flow_is_stale_or_superseded (fl_state f) then (False, f)
     else if fl_state f \<noteq> FS_QUEUED \<and> fl_state f \<noteq> FS_ADMITTED \<and> fl_state f \<noteq> FS_VALIDATING then (False, f)
     else let f1 = f\<lparr>fl_state := FS_ACTIVE\<rparr>
          in case bc_add (in_flight_bytes f1) (bc_value (admitted_bytes f1)) of (ok, b) \<Rightarrow>
            if \<not> ok then (False, f1)
            else if bc_value b > bc_value (admitted_bytes f1) then (False, f1\<lparr>in_flight_bytes := b\<rparr>)
            else (True, f1\<lparr>in_flight_bytes := b, fl_started_ms := now, fl_last_progress_ms := now\<rparr>))"

text \<open>The state a domain is given when fresh evidence or traffic arrives after recovery.\<close>

definition clear_revalidation :: "CongestionDomain \<Rightarrow> CongestionDomain" where
  "clear_revalidation d =
    (if d_state d = CS_REVALIDATION_REQUIRED \<or> d_state d = CS_STALE then d\<lparr>d_state := CS_UNKNOWN\<rparr> else d)"

definition start_flow :: "FlowRef \<Rightarrow> WorkerBootId \<Rightarrow> u64 \<Rightarrow> CongestionFabric \<Rightarrow> bool \<times> CongestionFabric" where
  "start_flow ref boot now e = (case find_flow (cf_flows e) ref of
     None \<Rightarrow> (False, e)
   | Some f \<Rightarrow> (case start_body boot now f of (ok, f') \<Rightarrow>
       if \<not> ok then (False, set_flow e (ref_id ref) f')
       else case um_find (cf_domains e) (ref_id (fl_domain f)) of
         None \<Rightarrow> (True, set_flow e (ref_id ref) f')
       | Some d \<Rightarrow> (True, set_domain (set_flow e (ref_id ref) f') (ref_id (fl_domain f))
                           (clear_revalidation d))))"

definition progress_body :: "WorkerBootId \<Rightarrow> u64 \<Rightarrow> u64 \<Rightarrow> Flow \<Rightarrow> bool \<times> Flow" where
  "progress_body boot completed_delta now f =
    (if fl_owner_boot f \<noteq> boot then (False, f)
     else if flow_is_stale_or_superseded (fl_state f) then (False, f)
     else if \<not> flow_can_progress (fl_state f) then (False, f)
     else case checked_add (bc_value (completed_bytes f)) completed_delta of
       None \<Rightarrow> (False, f)
     | Some new_completed \<Rightarrow>
        if new_completed > bc_value (admitted_bytes f) then (False, f)
        else let moved = min completed_delta (bc_value (in_flight_bytes f))
          in case checked_sub (bc_value (in_flight_bytes f)) moved of
               None \<Rightarrow> (False, f)
             | Some new_inflight \<Rightarrow>
                (True, f\<lparr>completed_bytes := ByteCounter new_completed,
                   in_flight_bytes := ByteCounter new_inflight, fl_last_progress_ms := now\<rparr>))"

definition flow_progress :: "FlowRef \<Rightarrow> WorkerBootId \<Rightarrow> u64 \<Rightarrow> u64 \<Rightarrow> CongestionFabric \<Rightarrow> bool \<times> CongestionFabric" where
  "flow_progress ref boot completed_delta now e = on_flow ref (progress_body boot completed_delta now) e"

text \<open>\<^verbatim>\<open>if (impl_->active_flows_ > 0) --impl_->active_flows_\<close> after a flow became terminal.\<close>

definition release_slot :: "bool \<times> CongestionFabric \<Rightarrow> bool \<times> CongestionFabric" where
  "release_slot r = (case r of (ok, e) \<Rightarrow>
     if ok \<and> cf_active_flows e > 0 then (ok, e\<lparr>cf_active_flows := cf_active_flows e - 1\<rparr>) else (ok, e))"

definition complete_body :: "WorkerBootId \<Rightarrow> u64 \<Rightarrow> Flow \<Rightarrow> bool \<times> Flow" where
  "complete_body boot now f =
    (if fl_owner_boot f \<noteq> boot then (False, f)
     else if fl_state f = FS_CANCELLED \<or> fl_state f = FS_FAILED \<or> fl_state f = FS_COMPLETED then (False, f)
     else if \<not> flow_transition_allowed (fl_state f) FS_COMPLETED then (False, f)
     else let rem = bc_value (admitted_bytes f) - bc_value (completed_bytes f)
       in case bc_add (completed_bytes f) rem of (ok, c) \<Rightarrow>
         if \<not> ok then (False, f)
         else if bc_value c > bc_value (admitted_bytes f) then (False, f\<lparr>completed_bytes := c\<rparr>)
         else (True, f\<lparr>completed_bytes := c, in_flight_bytes := ByteCounter 0,
                       fl_state := FS_COMPLETED, fl_last_progress_ms := now\<rparr>))"

definition flow_complete :: "FlowRef \<Rightarrow> WorkerBootId \<Rightarrow> u64 \<Rightarrow> CongestionFabric \<Rightarrow> bool \<times> CongestionFabric" where
  "flow_complete ref boot now e = release_slot (on_flow ref (complete_body boot now) e)"

definition cancel_body :: "WorkerBootId \<Rightarrow> u64 \<Rightarrow> u64 \<Rightarrow> Flow \<Rightarrow> bool \<times> Flow" where
  "cancel_body boot cancelled_so_far now f =
    (if fl_owner_boot f \<noteq> boot then (False, f)
     else if flow_is_stale_or_superseded (fl_state f) then (False, f)
     else if \<not> flow_transition_allowed (fl_state f) FS_CANCELLED then (False, f)
     else let remaining = bc_value (admitted_bytes f) - bc_value (completed_bytes f);
              canc = min cancelled_so_far remaining
       in case bc_add (cancelled_bytes f) canc of (ok, c) \<Rightarrow>
         if \<not> ok then (False, f)
         else if bc_value (completed_bytes f) + bc_value c > bc_value (admitted_bytes f)
           then (False, f\<lparr>cancelled_bytes := c\<rparr>)
         else (True, f\<lparr>cancelled_bytes := c, in_flight_bytes := ByteCounter 0,
                       fl_state := FS_CANCELLED, fl_last_progress_ms := now\<rparr>))"

definition flow_cancel :: "FlowRef \<Rightarrow> WorkerBootId \<Rightarrow> u64 \<Rightarrow> u64 \<Rightarrow> CongestionFabric \<Rightarrow> bool \<times> CongestionFabric" where
  "flow_cancel ref boot cancelled_so_far now e =
     release_slot (on_flow ref (cancel_body boot cancelled_so_far now) e)"

definition fail_body :: "WorkerBootId \<Rightarrow> u64 \<Rightarrow> Flow \<Rightarrow> bool \<times> Flow" where
  "fail_body boot now f =
    (if fl_owner_boot f \<noteq> boot then (False, f)
     else if \<not> flow_transition_allowed (fl_state f) FS_FAILED then (False, f)
     else let remaining = bc_value (admitted_bytes f) - bc_value (completed_bytes f)
       in case bc_add (failed_bytes f) remaining of (ok, c) \<Rightarrow>
         if \<not> ok then (False, f)
         else (True, f\<lparr>failed_bytes := c, in_flight_bytes := ByteCounter 0,
                       fl_state := FS_FAILED, fl_last_progress_ms := now\<rparr>))"

definition flow_fail :: "FlowRef \<Rightarrow> WorkerBootId \<Rightarrow> u64 \<Rightarrow> CongestionFabric \<Rightarrow> bool \<times> CongestionFabric" where
  "flow_fail ref boot now e = release_slot (on_flow ref (fail_body boot now) e)"

definition advance_flow_generation :: "FlowRef \<Rightarrow> FlowGeneration \<Rightarrow> CongestionFabric \<Rightarrow> bool \<times> CongestionFabric" where
  "advance_flow_generation ref nxt e = (case um_find (cf_flows e) (ref_id ref) of
     None \<Rightarrow> (False, e)
   | Some f \<Rightarrow>
      if \<not> gen_valid nxt \<or> genv nxt \<le> genv (ref_gen (fl_ref f)) then (False, e)
      else (True, set_flow e (ref_id ref)
             (f\<lparr>fl_ref := EntityRef (ref_id (fl_ref f)) nxt,
                fl_state := (if fl_state f = FS_STALE then FS_REVALIDATION_REQUIRED else fl_state f)\<rparr>)))"

definition revalidate_body :: "WorkerBootId \<Rightarrow> Flow \<Rightarrow> bool \<times> Flow" where
  "revalidate_body boot f =
    (if fl_owner_boot f \<noteq> boot then (False, f)
     else if \<not> flow_transition_allowed (fl_state f) FS_REVALIDATION_REQUIRED then (False, f)
     else (True, f\<lparr>fl_state := FS_REVALIDATION_REQUIRED\<rparr>))"

definition revalidate_flow :: "FlowRef \<Rightarrow> WorkerBootId \<Rightarrow> CongestionFabric \<Rightarrow> bool \<times> CongestionFabric" where
  "revalidate_flow ref boot e = on_flow ref (revalidate_body boot) e"

definition flow_of :: "CongestionFabric \<Rightarrow> FlowId \<Rightarrow> Flow option" where
  "flow_of e k = um_find (cf_flows e) k"

definition live_flow_count :: "CongestionFabric \<Rightarrow> u64" where
  "live_flow_count e = cf_active_flows e"

section \<open>Measurements and recovery\<close>

definition record_rate :: "Measurement \<Rightarrow> WorkerId \<Rightarrow> WorkerBootId \<Rightarrow> CongestionDomain \<Rightarrow> CongestionDomain" where
  "record_rate m owner owner_boot d = (case m_kind m of
     MK_OFFERED_BYTES_PER_SEC \<Rightarrow> d\<lparr>d_offered_bps := m_value m, d_offered_provenance := m_provenance m,
       d_offered_owner := owner, d_offered_owner_boot := owner_boot\<rparr>
   | MK_ADMITTED_BYTES_PER_SEC \<Rightarrow> d\<lparr>d_admitted_bps := m_value m, d_admitted_provenance := m_provenance m\<rparr>
   | MK_COMPLETED_BYTES_PER_SEC \<Rightarrow> d\<lparr>d_serviced_bps := m_value m, d_serviced_provenance := m_provenance m,
       d_serviced_owner := owner, d_serviced_owner_boot := owner_boot\<rparr>
   | MK_UTILIZATION \<Rightarrow> d\<lparr>d_utilisation := m_value m, d_utilisation_provenance := m_provenance m\<rparr>
   | MK_EFFECTIVE_BANDWIDTH \<Rightarrow> d\<lparr>d_effective_bps := m_value m, d_effective_provenance := m_provenance m\<rparr>
   | _ \<Rightarrow> d)"

text \<open>\<open>None\<close> is undefined behaviour: the measurement kind indexes past the domain's array.\<close>

definition publish_measurement :: "CongestionDomainId \<Rightarrow> Measurement \<Rightarrow> WorkerId \<Rightarrow> WorkerBootId
    \<Rightarrow> CongestionFabric \<Rightarrow> (bool \<times> CongestionFabric) option" where
  "publish_measurement k m owner owner_boot e =
    (if \<not> measurement_valid m then Some (False, e)
     else case um_find (cf_domains e) k of
       None \<Rightarrow> Some (False, e)
     | Some d \<Rightarrow>
        if id_valid owner \<and> um_find (cf_worker_boot e) owner \<noteq> Some owner_boot then Some (False, e)
        else let d1 = clear_revalidation d
          in case measurements_put m (d_measurements d1) of
               None \<Rightarrow> None
             | Some ms \<Rightarrow> Some (True, set_domain e k
                 (record_rate m owner owner_boot (d1\<lparr>d_measurements := ms\<rparr>))))"

definition publish_unowned :: "CongestionDomainId \<Rightarrow> Measurement \<Rightarrow> CongestionFabric
    \<Rightarrow> (bool \<times> CongestionFabric) option" where
  "publish_unowned k m e = publish_measurement k m (Id 0) (Generation 0) e"

definition recover_domain :: "CongestionDomain \<Rightarrow> CongestionDomain" where
  "recover_domain d =
    (if d_state d = CS_UNKNOWN then d
     else d\<lparr>d_state := CS_REVALIDATION_REQUIRED, d_state_provenance := MP_UNKNOWN,
            d_queue := (d_queue d)\<lparr>q_generation := gen_next (q_generation (d_queue d))\<rparr>\<rparr>)"

definition recover_flow :: "Flow \<Rightarrow> Flow" where
  "recover_flow f =
    (if \<not> flow_terminal f \<and> \<not> flow_is_stale_or_superseded (fl_state f)
     then f\<lparr>fl_state := FS_REVALIDATION_REQUIRED\<rparr> else f)"

definition recover_dynamic_evidence :: "CongestionFabric \<Rightarrow> CongestionFabric" where
  "recover_dynamic_evidence e = e\<lparr>cf_recovered := True,
     cf_domains := um_map recover_domain (cf_domains e), cf_flows := um_map recover_flow (cf_flows e)\<rparr>"

end
