(* ===== verification/Analysis.thy ===== *)
theory Analysis
  imports Engine
begin

text \<open>
  The congestion analysis of the engine, \<^verbatim>\<open>src/engine.cpp\<close> from \<^verbatim>\<open>aggregate_domain\<close> to
  \<^verbatim>\<open>episode_history\<close>: the deterministic classification of a domain, the episode state machine
  of \<^verbatim>\<open>recompute_domain\<close>, the bottleneck, residual capacity, fairness and backpressure queries,
  local shaping and snapshots. Floating point literals are the binary64 values of the source's
  decimal literals.
\<close>

section \<open>Text of numbers\<close>

text \<open>\<^verbatim>\<open>std::to_string\<close> of an unsigned integer, and of a double: the \<^verbatim>\<open>%f\<close> format.\<close>

definition digit_char :: "nat \<Rightarrow> char" where
  "digit_char n = char_of (48 + n)"

fun to_string_nat :: "nat \<Rightarrow> string" where
  "to_string_nat n = (if n < 10 then [digit_char n] else to_string_nat (n div 10) @ [digit_char (n mod 10)])"

declare to_string_nat.simps [simp del]

fun fixed_digits :: "nat \<Rightarrow> nat \<Rightarrow> string" where
  "fixed_digits 0 n = []"
| "fixed_digits (Suc k) n = fixed_digits k (n div 10) @ [digit_char (n mod 10)]"

text \<open>How the C runtime spells a value that is not a number: the default one, with the sign bit, is
  \<^verbatim>\<open>-nan(ind)\<close>, a signalling one \<^verbatim>\<open>nan(snan)\<close>.\<close>

definition nan_text :: "double \<Rightarrow> string" where
  "nan_text x = (if x = 0xFFF8000000000000 then ''nan(ind)'' else if \<not> bit x 51 then ''nan(snan)'' else ''nan'')"

definition to_string_double :: "double \<Rightarrow> string" where
  "to_string_double x = (if dneg x then ''-'' else '''') @
    (if isnan x then nan_text x else if isinf x then ''inf''
     else let n = rhe (vmag (dmag x) * 1000000) (2 ^ 1074)
       in to_string_nat (n div 1000000) @ ''.'' @ fixed_digits 6 (n mod 1000000))"

section \<open>Classification\<close>

record CongestionEvidence =
  ev_name :: string
  ev_value :: double
  ev_detail :: string

record CongestionAssessment =
  as_state :: CongestionState
  as_provenance :: MeasurementProvenance
  as_score :: double
  as_authoritative :: bool
  as_evidence :: "CongestionEvidence list"

definition default_assessment :: CongestionAssessment where
  "default_assessment = \<lparr>as_state = CS_UNKNOWN, as_provenance = MP_UNKNOWN, as_score = 0,
     as_authoritative = False, as_evidence = []\<rparr>"

definition evidence :: "string \<Rightarrow> double \<Rightarrow> string \<Rightarrow> CongestionEvidence" where
  "evidence n v s = \<lparr>ev_name = n, ev_value = v, ev_detail = s\<rparr>"

record Aggregate =
  ag_queued_bytes :: u64
  ag_queued_ops :: u64
  ag_in_flight_bytes :: u64
  ag_in_flight_ops :: u64
  ag_completed_bytes :: u64
  ag_cancelled_bytes :: u64
  ag_failed_bytes :: u64
  ag_active_flows :: u64

definition default_aggregate :: Aggregate where
  "default_aggregate = \<lparr>ag_queued_bytes = 0, ag_queued_ops = 0, ag_in_flight_bytes = 0,
     ag_in_flight_ops = 0, ag_completed_bytes = 0, ag_cancelled_bytes = 0, ag_failed_bytes = 0,
     ag_active_flows = 0\<rparr>"

text \<open>The flows of a domain's list that the index still resolves, in order.\<close>

definition resolve :: "(FlowId, Flow) umap \<Rightarrow> FlowRef list \<Rightarrow> Flow list" where
  "resolve fm refs = List.map_filter (find_flow fm) refs"

definition live :: "Flow \<Rightarrow> bool" where
  "live f \<longleftrightarrow> \<not> flow_terminal f \<and> \<not> flow_is_stale_or_superseded (fl_state f)"

definition aggregate_flow :: "Flow \<Rightarrow> Aggregate \<Rightarrow> Aggregate" where
  "aggregate_flow f agg =
    (if flow_is_stale_or_superseded (fl_state f) then agg
     else let a1 =
            (if fl_state f = FS_QUEUED
             then agg\<lparr>ag_queued_ops := ag_queued_ops agg + 1,
                      ag_queued_bytes := ag_queued_bytes agg + bc_value (admitted_bytes f)\<rparr>
             else if flow_can_progress (fl_state f)
             then agg\<lparr>ag_in_flight_ops := ag_in_flight_ops agg + 1,
                      ag_in_flight_bytes := ag_in_flight_bytes agg + bc_value (in_flight_bytes f)\<rparr>
             else agg)
       in a1\<lparr>ag_completed_bytes := ag_completed_bytes a1 + bc_value (completed_bytes f),
             ag_cancelled_bytes := ag_cancelled_bytes a1 + bc_value (cancelled_bytes f),
             ag_failed_bytes := ag_failed_bytes a1 + bc_value (failed_bytes f),
             ag_active_flows := (if \<not> flow_terminal f then ag_active_flows a1 + 1 else ag_active_flows a1)\<rparr>)"

definition aggregate_domain :: "CongestionDomain \<Rightarrow> (FlowId, Flow) umap \<Rightarrow> Aggregate" where
  "aggregate_domain d fm = fold aggregate_flow (resolve fm (d_flows d)) default_aggregate"

text \<open>Starvation: a live flow with work in flight made no progress while another one did.\<close>

definition starvation :: "CongestionDomain \<Rightarrow> (FlowId, Flow) umap \<Rightarrow> bool" where
  "starvation d fm =
    (let fs = filter live (resolve fm (d_flows d));
         max_completed = fold (\<lambda>f m. max m (bc_value (completed_bytes f))) fs 0
     in list_ex (\<lambda>f. bc_value (completed_bytes f) = 0 \<and> bc_value (in_flight_bytes f) > 0 \<and>
          max_completed > 0) fs)"

definition latency_inflation :: "CongestionDomain \<Rightarrow> double \<Rightarrow> double" where
  "latency_inflation d eff = (case measurements_get (d_measurements d) MK_SERVICE_LATENCY of
     Some lat \<Rightarrow> if dlt 0 (m_value lat) \<and> dlt 0 eff then dmul (m_value lat) eff else d_one
   | None \<Rightarrow> d_one)"

definition merged_provenance :: "CongestionDomain \<Rightarrow> MeasurementProvenance" where
  "merged_provenance d =
    (if d_serviced_provenance d = MP_MEASURED \<or> d_offered_provenance d = MP_MEASURED then MP_MEASURED
     else if d_serviced_provenance d = MP_UNKNOWN then d_offered_provenance d
     else d_serviced_provenance d)"

definition score_of :: "double \<Rightarrow> double \<Rightarrow> double \<Rightarrow> double \<Rightarrow> u64 \<Rightarrow> double" where
  "score_of eff sat serv_ratio deficit queued_bytes =
    (let s1 = dadd 0 (dmul (dclamp sat 0 d_one) 0x3FD999999999999A);
         s2 = dadd s1 (dmul (dclamp serv_ratio 0 d_one) 0x3FC999999999999A);
         s3 = dadd s2 (dmul (dclamp (ddiv (double_of_u64 queued_bytes)
                 (if dlt 0 eff then eff else d_one)) 0 d_one) 0x3FC999999999999A);
         s4 = (if dlt 0 deficit
               then dadd s3 (dmul (dclamp (ddiv deficit eff) 0 d_one) 0x3FC999999999999A) else s3)
     in dclamp s4 0 d_one)"

definition pick_state :: "double \<Rightarrow> double \<Rightarrow> double \<Rightarrow> double \<Rightarrow> bool \<Rightarrow> bool \<Rightarrow> bool \<Rightarrow> CongestionState" where
  "pick_state eff sat serv_ratio deficit has_queue latency_high starved =
    (let queue_growing = dlt 0x3E112E0BE826D695 deficit;
         queue_draining = dlt deficit 0xBE112E0BE826D695 \<and> has_queue;
         high_demand = dle 0x3FECCCCCCCCCCCCD sat;
         over_demand = dlt d_one sat;
         saturated = dle 0x3FEE666666666666 serv_ratio \<and> high_demand
     in if has_queue \<and> queue_growing \<and> (latency_high \<or> starved) then CS_SEVERELY_CONGESTED
        else if has_queue \<and> queue_growing \<and> (dlt (dmul 0x3FC999999999999A eff) deficit \<or> latency_high)
          then CS_CONGESTED
        else if has_queue \<and> queue_growing then CS_QUEUEING
        else if over_demand \<and> \<not> has_queue then CS_SATURATED
        else if saturated \<and> \<not> has_queue then CS_APPROACHING_SATURATION
        else if has_queue \<and> queue_draining then CS_RECOVERING
        else if has_queue then CS_QUEUEING
        else if dle 0x3FE999999999999A sat then CS_BUSY
        else CS_HEALTHY)"

definition no_traffic :: "CongestionDomain \<Rightarrow> Aggregate \<Rightarrow> bool" where
  "no_traffic d agg \<longleftrightarrow> dle (d_offered_bps d) 0 \<and> dle (d_serviced_bps d) 0 \<and>
     ag_queued_ops agg = 0 \<and> ag_in_flight_ops agg = 0"

text \<open>The branch of \<^verbatim>\<open>classify\<close> that weighs the evidence against the effective capacity.\<close>

definition classify_live :: "CongestionDomain \<Rightarrow> Aggregate \<Rightarrow> (FlowId, Flow) umap \<Rightarrow> double \<Rightarrow> CongestionAssessment" where
  "classify_live d agg fm eff =
    (let offered = d_offered_bps d;
         serviced = d_serviced_bps d;
         sat = (if dlt 0 eff then ddiv offered eff else 0);
         serv_ratio = (if dlt 0 eff then ddiv serviced eff else 0);
         deficit = dsub offered serviced;
         has_queue = ag_queued_bytes agg > 0;
         latency_high = dlt 0x4000000000000000 (latency_inflation d eff);
         starved = starvation d fm
     in \<lparr>as_state = pick_state eff sat serv_ratio deficit has_queue latency_high starved,
         as_provenance = merged_provenance d,
         as_score = score_of eff sat serv_ratio deficit (ag_queued_bytes agg),
         as_authoritative = True,
         as_evidence =
          [evidence ''offered_bps'' offered ''Offered load'',
           evidence ''serviced_bps'' serviced ''Serviced load'',
           evidence ''effective_bps'' eff ''Effective capacity'',
           evidence ''queue_bytes'' (double_of_u64 (ag_queued_bytes agg)) ''Queued backlog'',
           evidence ''deficit_bps'' deficit ''offered - serviced'',
           evidence ''starvation'' (if starved then d_one else 0) ''A live flow made no progress'']\<rparr>)"

definition classify :: "CongestionDomain \<Rightarrow> Aggregate \<Rightarrow> (FlowId, Flow) umap \<Rightarrow> bool \<Rightarrow> CongestionAssessment" where
  "classify d agg fm revalidation =
    (if revalidation
     then default_assessment\<lparr>as_state := CS_REVALIDATION_REQUIRED, as_evidence :=
       [evidence ''revalidation_required'' 0 ''Dynamic evidence not republished since recovery'']\<rparr>
     else case effective (d_capacity d) of
       None \<Rightarrow> default_assessment\<lparr>as_evidence :=
         [evidence ''no_capacity_bound'' 0 ''No valid effective capacity to classify against'']\<rparr>
     | Some eff \<Rightarrow>
         if no_traffic d agg
         then default_assessment\<lparr>as_state := CS_IDLE, as_authoritative := True,
           as_provenance := d_serviced_provenance d,
           as_evidence := [evidence ''idle'' 0 ''No offered or in-flight traffic'']\<rparr>
         else classify_live d agg fm eff)"

definition needs_revalidation :: "CongestionDomain \<Rightarrow> bool" where
  "needs_revalidation d \<longleftrightarrow> d_state d = CS_REVALIDATION_REQUIRED \<or> d_state d = CS_STALE"

definition assess_domain :: "CongestionDomain \<Rightarrow> (FlowId, Flow) umap \<Rightarrow> CongestionAssessment" where
  "assess_domain d fm = classify d (aggregate_domain d fm) fm (needs_revalidation d)"

definition assess_congestion :: "CongestionDomainId \<Rightarrow> CongestionFabric \<Rightarrow> CongestionAssessment" where
  "assess_congestion k e = (case um_find (cf_domains e) k of
     None \<Rightarrow> default_assessment | Some d \<Rightarrow> assess_domain d (cf_flows e))"

section \<open>Episodes\<close>

definition congested_now :: "CongestionState \<Rightarrow> bool" where
  "congested_now s \<longleftrightarrow> s = CS_CONGESTED \<or> s = CS_SEVERELY_CONGESTED \<or> s = CS_QUEUEING \<or>
     s = CS_SATURATED \<or> s = CS_APPROACHING_SATURATION"

text \<open>The episode part of \<^verbatim>\<open>recompute_domain\<close>; the result says whether an event id was taken.\<close>

definition episode_step :: "EngineLimits \<Rightarrow> u64 \<Rightarrow> u64 \<Rightarrow> CongestionState \<Rightarrow> u64 \<Rightarrow> CongestionDomain
    \<Rightarrow> bool \<times> CongestionDomain" where
  "episode_step lims next_event now st queued d =
    (let ep = d_current_episode d
     in if congested_now st \<and> \<not> ep_open ep
        then (True, d\<lparr>d_current_episode := default_episode\<lparr>ep_event_id := Id next_event,
                ep_generation := Generation 1, ep_domain := d_ref d, ep_start_ms := now,
                ep_peak_state := st, ep_trigger := ''offered load exceeded effective capacity'',
                ep_open := True\<rparr>\<rparr>)
        else if congested_now st \<and> ep_open ep
        then (False, d\<lparr>d_current_episode := ep\<lparr>ep_peak_state := st,
                ep_peak_backlog_bytes := dmax (ep_peak_backlog_bytes ep) (double_of_u64 queued)\<rparr>\<rparr>)
        else if \<not> congested_now st \<and> ep_open ep
        then let closed = ep\<lparr>ep_end_ms := now, ep_outcome := st, ep_open := False\<rparr>;
                 eps = d_episodes d @ [closed];
                 eps' = (if length eps > unat (max_episode_history_per_domain lims) then tl eps else eps)
             in (False, d\<lparr>d_episodes := eps', d_current_episode := default_episode\<rparr>)
        else (False, d))"

definition recompute_domain :: "CongestionDomainId \<Rightarrow> u64 \<Rightarrow> CongestionFabric
    \<Rightarrow> CongestionAssessment \<times> CongestionFabric" where
  "recompute_domain k now e = (case um_find (cf_domains e) k of
     None \<Rightarrow> (default_assessment, e)
   | Some d \<Rightarrow>
      let agg = aggregate_domain d (cf_flows e);
          a = classify d agg (cf_flows e) (needs_revalidation d);
          d1 = d\<lparr>d_state := as_state a, d_state_provenance := as_provenance a\<rparr>
      in case episode_step (cf_limits e) (cf_next_event e) now (as_state a) (ag_queued_bytes agg) d1 of
           (fresh, d2) \<Rightarrow>
             (a, (set_domain e k d2)\<lparr>cf_next_event := (if fresh then cf_next_event e + 1 else cf_next_event e)\<rparr>))"

definition current_episode :: "CongestionFabric \<Rightarrow> CongestionDomainId \<Rightarrow> CongestionEpisode option" where
  "current_episode e k = map_option d_current_episode (um_find (cf_domains e) k)"

definition episode_history :: "CongestionFabric \<Rightarrow> CongestionDomainId \<Rightarrow> CongestionEpisode list" where
  "episode_history e k = (case um_find (cf_domains e) k of None \<Rightarrow> [] | Some d \<Rightarrow> d_episodes d)"

section \<open>Bottleneck and residual capacity\<close>

record BottleneckResult =
  bn_domain :: DomainRef
  bn_cause :: string
  bn_deficit_bps :: double
  bn_upstream :: bool
  bn_explanation :: string

definition default_bottleneck :: BottleneckResult where
  "default_bottleneck = \<lparr>bn_domain = invalid_ref, bn_cause = [], bn_deficit_bps = 0,
     bn_upstream = False, bn_explanation = []\<rparr>"

definition pressure :: "CongestionDomain \<Rightarrow> (FlowId, Flow) umap \<Rightarrow> double" where
  "pressure d fm = dadd (dsub (d_offered_bps d) (d_serviced_bps d))
     (double_of_u64 (ag_queued_bytes (aggregate_domain d fm)))"

definition bottleneck_text :: "CongestionDomain \<Rightarrow> (FlowId, Flow) umap \<Rightarrow> string" where
  "bottleneck_text d fm =
    ''Bottleneck at domain '' @ to_string_nat (unat (idv (ref_id (d_ref d)))) @
    '' ('' @ to_string_nat (unat (DomainKind_to_u8 (d_kind d))) @
    ''): offered='' @ to_string_double (d_offered_bps d) @
    '', serviced='' @ to_string_double (d_serviced_bps d) @
    '', effective='' @ to_string_double (case effective (d_capacity d) of Some x \<Rightarrow> x | None \<Rightarrow> 0) @
    '', backlog='' @ to_string_double (double_of_u64 (ag_queued_bytes (aggregate_domain d fm))) @ ''.''"

definition bottleneck_step :: "CongestionFabric \<Rightarrow> CongestionDomainId \<Rightarrow> BottleneckResult \<Rightarrow> BottleneckResult" where
  "bottleneck_step e k best = (case um_find (cf_domains e) k of
     None \<Rightarrow> best
   | Some d \<Rightarrow>
      let p = pressure d (cf_flows e)
      in if dlt (bn_deficit_bps best) p \<or> dlt (bn_deficit_bps best) 0
         then \<lparr>bn_domain = d_ref d, bn_cause = ''offered exceeds serviced; backlog growing'',
               bn_deficit_bps = p, bn_upstream = False, bn_explanation = bottleneck_text d (cf_flows e)\<rparr>
         else best)"

definition identify_bottleneck :: "CongestionDomainId list \<Rightarrow> CongestionFabric \<Rightarrow> BottleneckResult" where
  "identify_bottleneck path e =
    (let best = fold (bottleneck_step e) path
                  (default_bottleneck\<lparr>bn_domain := EntityRef (Id 0) (Generation 0), bn_deficit_bps := 0xBFF0000000000000\<rparr>)
     in if dlt (bn_deficit_bps best) 0
        then best\<lparr>bn_explanation := ''No bottleneck: all path domains are within capacity.'',
                  bn_deficit_bps := 0\<rparr>
        else best)"

record ResidualCapacityResult =
  rc_effective_bps :: double
  rc_residual_bps :: double
  rc_utilised_bps :: double
  rc_utilization :: double
  rc_kind :: BandwidthKind
  rc_provenance :: MeasurementProvenance
  rc_has_capacity :: bool

definition default_residual :: ResidualCapacityResult where
  "default_residual = \<lparr>rc_effective_bps = 0, rc_residual_bps = 0, rc_utilised_bps = 0,
     rc_utilization = 0, rc_kind = BK_UNKNOWN, rc_provenance = MP_UNKNOWN, rc_has_capacity = False\<rparr>"

definition query_residual_capacity :: "CongestionDomainId \<Rightarrow> double \<Rightarrow> CongestionFabric \<Rightarrow> ResidualCapacityResult" where
  "query_residual_capacity k offered e = (case um_find (cf_domains e) k of
     None \<Rightarrow> default_residual
   | Some d \<Rightarrow> (case effective (d_capacity d) of
       None \<Rightarrow> default_residual
     | Some eff \<Rightarrow>
        let res = residual (d_capacity d) offered;
            m = measured_service (d_capacity d)
        in \<lparr>rc_effective_bps = eff,
            rc_residual_bps = (case res of Some x \<Rightarrow> x | None \<Rightarrow> 0),
            rc_utilised_bps = offered,
            rc_utilization = (if dlt 0 eff then ddiv offered eff else 0),
            rc_kind = (if rate_kind m \<noteq> BK_UNKNOWN then rate_kind m
                       else if rate_kind (configured (d_capacity d)) \<noteq> BK_UNKNOWN
                         then rate_kind (configured (d_capacity d))
                       else rate_kind (theoretical (d_capacity d))),
            rc_provenance = rate_prov m, rc_has_capacity = (res \<noteq> None)\<rparr>))"

section \<open>Fairness\<close>

record FairnessReport =
  fr_domain :: CongestionDomainId
  fr_model :: FairnessModel
  fr_shares :: "FairnessShare list"

definition share_weight :: "Flow \<Rightarrow> double" where
  "share_weight f = (if dlt 0 (fc_weight (fl_fairness f)) then fc_weight (fl_fairness f) else d_one)"

definition target_share :: "FairnessModel \<Rightarrow> FairnessConfig \<Rightarrow> double \<Rightarrow> double \<Rightarrow> double \<Rightarrow> nat \<Rightarrow> double" where
  "target_share model cfg eff weight total_weight n =
    (let equal = ddiv eff (double_of_u64 (of_nat n))
     in case model of
       FM_EQUAL_SHARE \<Rightarrow> equal
     | FM_WEIGHTED_SHARE \<Rightarrow> if dlt 0 total_weight then dmul eff (ddiv weight total_weight) else equal
     | FM_CALLER_WEIGHTS \<Rightarrow> if dlt 0 total_weight then dmul eff (ddiv weight total_weight) else equal
     | FM_MINIMUM_GUARANTEED_SHARE \<Rightarrow> dmax (fc_minimum_guarantee_bps cfg) equal
     | FM_CAPPED_SHARE \<Rightarrow> dmin equal (if dlt 0 (fc_cap_bps cfg) then fc_cap_bps cfg else dmax_value)
     | _ \<Rightarrow> equal)"

definition observed_share :: "double \<Rightarrow> u64 \<Rightarrow> u64 \<Rightarrow> nat \<Rightarrow> double" where
  "observed_share serviced completed total_completed n =
    (if total_completed > 0
     then dmul serviced (ddiv (double_of_u64 completed) (double_of_u64 total_completed))
     else ddiv serviced (double_of_u64 (of_nat n)))"

definition fairness_share :: "CongestionDomain \<Rightarrow> double \<Rightarrow> double \<Rightarrow> u64 \<Rightarrow> nat \<Rightarrow> Flow \<Rightarrow> FairnessShare" where
  "fairness_share d eff total_weight total_completed n f =
    (let cfg = (fl_fairness f)\<lparr>fc_model := fc_model (d_default_fairness d)\<rparr>;
         target = target_share (fc_model cfg) cfg eff (share_weight f) total_weight n;
         observed = observed_share (d_serviced_bps d) (bc_value (completed_bytes f)) total_completed n
     in \<lparr>fsh_flow = ref_id (fl_ref f), fsh_flow_generation = ref_gen (fl_ref f), fsh_config = cfg,
         fsh_target_share_bps = target, fsh_observed_share_bps = observed,
         fsh_fairness_deficit_bps = dmax 0 (dsub target observed),
         fsh_starved = (dlt 0 eff \<and> dlt observed (dmul 0x3FA999999999999A eff) \<and> dlt 0 (d_serviced_bps d)),
         fsh_provenance = MP_DERIVED\<rparr>)"

definition evaluate_fairness :: "CongestionDomainId \<Rightarrow> CongestionFabric \<Rightarrow> FairnessReport" where
  "evaluate_fairness k e = (case um_find (cf_domains e) k of
     None \<Rightarrow> \<lparr>fr_domain = k, fr_model = FM_UNKNOWN, fr_shares = []\<rparr>
   | Some d \<Rightarrow>
      let eff = (case effective (d_capacity d) of Some x \<Rightarrow> x | None \<Rightarrow> 0);
          parts = filter live (resolve (cf_flows e) (d_flows d));
          total_completed = fold (\<lambda>f s. s + bc_value (completed_bytes f)) parts 0;
          total_weight = fold (\<lambda>f s. dadd s (share_weight f)) parts 0
      in \<lparr>fr_domain = k, fr_model = fc_model (d_default_fairness d),
          fr_shares = map (fairness_share d eff total_weight total_completed (length parts)) parts\<rparr>)"

section \<open>Backpressure and local shaping\<close>

text \<open>The largest in-flight flow among the given ones: the loop keeps the first strict maximum.\<close>

definition dominant_step :: "Flow \<Rightarrow> u64 \<times> Flow option \<Rightarrow> u64 \<times> Flow option" where
  "dominant_step f acc = (case acc of (max_inflight, dominant) \<Rightarrow>
     if bc_value (in_flight_bytes f) > max_inflight then (bc_value (in_flight_bytes f), Some f)
     else (max_inflight, dominant))"

definition dominant_flow :: "Flow list \<Rightarrow> Flow option" where
  "dominant_flow fs = snd (fold dominant_step fs (0, None))"

definition eval_backpressure :: "CongestionDomainId \<Rightarrow> CongestionFabric \<Rightarrow> BackpressureAction" where
  "eval_backpressure k e = (case um_find (cf_domains e) k of
     None \<Rightarrow> default_action
   | Some d \<Rightarrow>
      if CongestionState_to_u8 (d_state d) < CongestionState_to_u8 CS_SATURATED then default_action
      else let deficit = dsub (d_offered_bps d) (d_serviced_bps d)
        in if dle deficit 0 then default_action
           else let dominant = dominant_flow (filter live (resolve (cf_flows e) (d_flows d)))
             in \<lparr>ba_intent = (if d_state d = CS_SEVERELY_CONGESTED then AI_PAUSE_NEW_TRAFFIC
                              else if d_state d = CS_CONGESTED then AI_THROTTLE else AI_ADMIT_LIMITED),
                 ba_target_flow = (case dominant of Some f \<Rightarrow> fl_ref f | None \<Rightarrow> invalid_ref),
                 ba_target_domain = d_ref d,
                 ba_cause = ''offered exceeds effective capacity; deficit='' @ to_string_double deficit,
                 ba_expected_benefit_bps = dmax 0 deficit,
                 ba_estimated_cost_bps = (case dominant of Some f \<Rightarrow> fl_throughput_target_bps f | None \<Rightarrow> 0),
                 ba_cost_ms = d_one,
                 ba_policy_generation = fc_policy_generation (d_default_fairness d),
                 ba_generation = gen_next (d_backpressure_generation d),
                 ba_provenance = d_serviced_provenance d,
                 ba_epoch = cf_epoch e,
                 ba_validity_window_ms = 0x408F400000000000,
                 ba_preconditions = [''flow generation current'', ''domain congestion current'']\<rparr>)"

definition shaping_rate :: "CongestionDomain \<Rightarrow> double" where
  "shaping_rate d =
    (let eff = (case effective (d_capacity d) of Some x \<Rightarrow> x | None \<Rightarrow> d_serviced_bps d);
         deficit = dmax 0 (dsub (d_offered_bps d) (d_serviced_bps d))
     in dmax 0 (dsub eff deficit))"

definition apply_local_shaping :: "CongestionDomainId \<Rightarrow> BackpressureAction \<Rightarrow> CongestionFabric
    \<Rightarrow> bool \<times> CongestionFabric" where
  "apply_local_shaping k action e =
    (if \<not> action_valid action then (False, e)
     else if \<not> intent_is_restrictive (ba_intent action) then (True, e)
     else case um_find (cf_domains e) k of
       None \<Rightarrow> (False, e)
     | Some d \<Rightarrow> (True, set_domain e k (d\<lparr>d_shaping := token_bucket (shaping_rate d) (shaping_rate d),
                          d_backpressure_generation := ba_generation action\<rparr>)))"

section \<open>Snapshots\<close>

record DomainSnapshot =
  sn_ref :: DomainRef
  sn_kind :: DomainKind
  sn_state :: CongestionState
  sn_provenance :: MeasurementProvenance
  sn_offered_bps :: double
  sn_serviced_bps :: double
  sn_effective_bps :: double
  sn_residual_bps :: double
  sn_utilization :: double
  sn_queued_bytes :: u64
  sn_queued_ops :: u64
  sn_in_flight_bytes :: u64
  sn_dominant_contributor :: FlowId
  sn_dominant_class :: TrafficClass
  sn_upstream_bottleneck :: CongestionDomainId
  sn_summary :: string

definition default_snapshot :: DomainSnapshot where
  "default_snapshot = \<lparr>sn_ref = invalid_ref, sn_kind = DK_UNKNOWN, sn_state = CS_UNKNOWN,
     sn_provenance = MP_UNKNOWN, sn_offered_bps = 0, sn_serviced_bps = 0, sn_effective_bps = 0,
     sn_residual_bps = 0, sn_utilization = 0, sn_queued_bytes = 0, sn_queued_ops = 0,
     sn_in_flight_bytes = 0, sn_dominant_contributor = Id 0, sn_dominant_class = TC_UNKNOWN,
     sn_upstream_bottleneck = Id 0, sn_summary = []\<rparr>"

text \<open>The first upstream domain whose cached state is CONGESTED or beyond.\<close>

definition upstream_congested :: "CongestionFabric \<Rightarrow> CongestionDomainId \<Rightarrow> CongestionDomainId option" where
  "upstream_congested e up = (case um_find (cf_domains e) up of
     None \<Rightarrow> None
   | Some u \<Rightarrow> if CongestionState_to_u8 (d_state u) \<ge> CongestionState_to_u8 CS_CONGESTED
               then Some (ref_id (d_ref u)) else None)"

definition snapshot :: "CongestionDomainId \<Rightarrow> CongestionFabric \<Rightarrow> DomainSnapshot" where
  "snapshot k e = (case um_find (cf_domains e) k of
     None \<Rightarrow> default_snapshot
   | Some d \<Rightarrow>
      let agg = aggregate_domain d (cf_flows e);
          a = classify d agg (cf_flows e) (needs_revalidation d);
          eff = (case effective (d_capacity d) of Some x \<Rightarrow> x | None \<Rightarrow> 0);
          dominant = dominant_flow (filter (\<lambda>f. \<not> flow_terminal f) (resolve (cf_flows e) (d_flows d)))
      in \<lparr>sn_ref = d_ref d, sn_kind = d_kind d, sn_state = as_state a, sn_provenance = as_provenance a,
          sn_offered_bps = d_offered_bps d, sn_serviced_bps = d_serviced_bps d,
          sn_effective_bps = eff,
          sn_residual_bps = (case residual (d_capacity d) (d_offered_bps d) of Some x \<Rightarrow> x | None \<Rightarrow> 0),
          sn_utilization = (if dlt 0 eff then ddiv (d_offered_bps d) eff else 0),
          sn_queued_bytes = ag_queued_bytes agg, sn_queued_ops = ag_queued_ops agg,
          sn_in_flight_bytes = ag_in_flight_bytes agg,
          sn_dominant_contributor = (case dominant of Some f \<Rightarrow> ref_id (fl_ref f) | None \<Rightarrow> Id 0),
          sn_dominant_class = (case dominant of Some f \<Rightarrow> fl_traffic_class f | None \<Rightarrow> TC_UNKNOWN),
          sn_upstream_bottleneck =
            (case List.map_filter (upstream_congested e) (d_upstream_domains d) of [] \<Rightarrow> Id 0 | u # _ \<Rightarrow> u),
          sn_summary = ''domain '' @ to_string_nat (unat (idv (ref_id (d_ref d)))) @ '' state='' @
            to_string_nat (unat (CongestionState_to_u8 (as_state a)))\<rparr>)"

end
