(* ===== verification/FlowOps.thy ===== *)
theory FlowOps
  imports Analysis
begin

text \<open>
  What the flow methods of \<^verbatim>\<open>src/engine.cpp\<close> do to one flow. \<open>flow_ok\<close> is the invariant of
  a flow in the index, \<open>flow_exact\<close> the sharper byte accounting of flows that were never
  loaded from a file, \<open>flow_evolves\<close> the preorder along which a flow may change. The contract
  of a method body is the locale \<open>flow_method\<close>, interpreted on the body of every method.
\<close>

section \<open>Invariants of one flow\<close>

definition parked :: "FlowState \<Rightarrow> bool" where
  "parked s \<longleftrightarrow> flow_is_stale_or_superseded s \<or> s = FS_REVALIDATION_REQUIRED"

definition flow_ok :: "Flow \<Rightarrow> bool" where
  "flow_ok f \<longleftrightarrow> accounting_valid f \<and>
     fl_state f \<notin> {FS_VALIDATING, FS_BACKPRESSURED, FS_THROTTLED, FS_DRAINING} \<and>
     (fl_state f = FS_DECLARED \<longrightarrow> bc_value (admitted_bytes f) = 0) \<and>
     (fl_state f = FS_ADMITTED \<or> fl_state f = FS_QUEUED \<longrightarrow> bc_value (in_flight_bytes f) = 0) \<and>
     (\<not> flow_terminal f \<and> \<not> parked (fl_state f) \<longrightarrow>
        bc_value (cancelled_bytes f) = 0 \<and> bc_value (failed_bytes f) = 0)"

definition flow_exact :: "Flow \<Rightarrow> bool" where
  "flow_exact f \<longleftrightarrow>
     (\<not> flow_terminal f \<longrightarrow> bc_value (cancelled_bytes f) = 0 \<and> bc_value (failed_bytes f) = 0) \<and>
     (flow_terminal f \<longrightarrow> bc_value (in_flight_bytes f) = 0) \<and>
     (fl_state f = FS_COMPLETED \<longrightarrow> completed_bytes f = admitted_bytes f) \<and>
     bcv (completed_bytes f) + bcv (cancelled_bytes f) + bcv (failed_bytes f) \<le> bcv (admitted_bytes f)"

definition flow_counters :: "Flow \<Rightarrow> ByteCounter list" where
  "flow_counters f = [admitted_bytes f, in_flight_bytes f, completed_bytes f, failed_bytes f, cancelled_bytes f]"

definition flow_owner :: "Flow \<Rightarrow> WorkerId \<times> WorkerBootId \<times> SourceId \<times> SourceBootId" where
  "flow_owner f = (fl_owner_worker f, fl_owner_boot f, fl_source f, fl_source_boot f)"

text \<open>How a flow may change: identity, ownership, domain and submitted bytes are fixed, the
  generation and the admitted, completed, cancelled and failed byte counts only grow (the bytes in flight come
  and go), a declared state is left for good, a terminal flow keeps its state and all counters, and a parked one stays
  parked with all counters frozen.\<close>

definition flow_evolves :: "Flow \<Rightarrow> Flow \<Rightarrow> bool" where
  "flow_evolves f g \<longleftrightarrow>
     ref_id (fl_ref g) = ref_id (fl_ref f) \<and> ref_gen (fl_ref f) \<le> ref_gen (fl_ref g) \<and>
     flow_owner g = flow_owner f \<and> fl_domain g = fl_domain f \<and> submitted_bytes g = submitted_bytes f \<and>
     bcv (admitted_bytes f) \<le> bcv (admitted_bytes g) \<and>
     bcv (completed_bytes f) \<le> bcv (completed_bytes g) \<and>
     bcv (cancelled_bytes f) \<le> bcv (cancelled_bytes g) \<and> bcv (failed_bytes f) \<le> bcv (failed_bytes g) \<and>
     (fl_state f \<noteq> FS_DECLARED \<longrightarrow> fl_state g \<noteq> FS_DECLARED) \<and>
     (flow_terminal f \<longrightarrow> fl_state g = fl_state f \<and> flow_counters g = flow_counters f) \<and>
     (parked (fl_state f) \<longrightarrow> parked (fl_state g) \<and> flow_counters g = flow_counters f)"

lemma flow_evolves_refl [simp]: "flow_evolves f f"
  by (simp add: flow_evolves_def)

lemma flow_evolves_trans: "flow_evolves f g \<Longrightarrow> flow_evolves g h \<Longrightarrow> flow_evolves f h"
  by (auto simp: flow_evolves_def flow_terminal_def)

lemma flow_evolves_id: "flow_evolves f g \<Longrightarrow> ref_id (fl_ref g) = ref_id (fl_ref f)"
  by (simp add: flow_evolves_def)

lemma terminal_not_live: "flow_terminal f \<Longrightarrow> \<not> live f"
  by (simp add: live_def)

text \<open>Counter arithmetic used by the bodies.\<close>

lemma bc_top_up:
  assumes "bcv c \<le> bcv a"
  shows "bc_add c (bc_value a - bc_value c) = (True, a)"
  using assms unat_u64_diff [of "bc_value c" "bc_value a"] unat_u64_bound [of "bc_value a"]
  by (simp add: bc_add_cases)

lemma flow_ok_bounds:
  "flow_ok f \<Longrightarrow> bcv (completed_bytes f) \<le> bcv (admitted_bytes f)"
  "flow_ok f \<Longrightarrow> bcv (admitted_bytes f) \<le> bcv (submitted_bytes f)"
  "flow_ok f \<Longrightarrow> bcv (in_flight_bytes f) \<le> bcv (admitted_bytes f)"
  by (simp_all add: flow_ok_def accounting_valid_unat)

lemma bcv_zero [simp]: "bcv (ByteCounter 0) = 0"
  by simp

lemmas flow_inv_defs = flow_ok_def flow_exact_def flow_evolves_def flow_counters_def flow_owner_def
  accounting_valid_unat flow_terminal_def flow_state_preds parked_def

section \<open>The contract of a flow method\<close>

text \<open>\<open>pre\<close> is what the caller has checked on the flow before it runs the body.\<close>

locale flow_method =
  fixes pre :: "Flow \<Rightarrow> bool" and body :: "Flow \<Rightarrow> bool \<times> Flow"
  assumes keeps_ok: "pre f \<Longrightarrow> flow_ok f \<Longrightarrow> flow_ok (snd (body f))"
    and keeps_exact: "pre f \<Longrightarrow> flow_ok f \<Longrightarrow> flow_exact f \<Longrightarrow> flow_exact (snd (body f))"
    and evolves: "pre f \<Longrightarrow> flow_ok f \<Longrightarrow> flow_evolves f (snd (body f))"
    and guarded: "pre f \<Longrightarrow> flow_ok f \<Longrightarrow> fl_state (snd (body f)) = fl_state f \<or>
      flow_transition_allowed (fl_state f) (fl_state (snd (body f)))"
    and same_ref: "pre f \<Longrightarrow> fl_ref (snd (body f)) = fl_ref f"
    and no_partial: "pre f \<Longrightarrow> flow_ok f \<Longrightarrow> \<not> fst (body f) \<Longrightarrow> snd (body f) = f"
begin

lemma terminal_refused:
  assumes "pre f" "flow_ok f" "flow_terminal f"
  shows "fl_state (snd (body f)) = fl_state f"
  using evolves [OF assms(1,2)] assms(3) by (simp add: flow_evolves_def)

lemma invariants:
  assumes "pre f" "flow_ok f"
  shows "flow_ok (snd (body f)) \<and> flow_evolves f (snd (body f)) \<and>
    (flow_exact f \<longrightarrow> flow_exact (snd (body f))) \<and> fl_ref (snd (body f)) = fl_ref f"
  using assms keeps_ok evolves keeps_exact same_ref by blast

end

text \<open>Each body, unfolded on a flow that satisfies the invariant.\<close>

lemma admit_body_ok:
  assumes "flow_ok f" "fl_state f = FS_DECLARED"
  shows "admit_body f = (True, f\<lparr>admitted_bytes := submitted_bytes f, fl_state := FS_ADMITTED\<rparr>)"
proof -
  have "bc_value (admitted_bytes f) = 0" using assms by (simp add: flow_ok_def)
  then have "bc_add (admitted_bytes f) (bc_value (submitted_bytes f)) = (True, submitted_bytes f)"
    by (simp add: bc_add_zero)
  then show ?thesis by (simp add: admit_body_def)
qed

lemma start_body_ok:
  assumes "flow_ok f" "fl_owner_boot f = boot" "fl_state f = FS_ADMITTED \<or> fl_state f = FS_QUEUED"
  shows "start_body boot now f = (True, f\<lparr>fl_state := FS_ACTIVE, in_flight_bytes := admitted_bytes f,
    fl_started_ms := now, fl_last_progress_ms := now\<rparr>)"
proof -
  have "bc_value (in_flight_bytes f) = 0" using assms by (auto simp: flow_ok_def)
  then have "bc_add (in_flight_bytes f) (bc_value (admitted_bytes f)) = (True, admitted_bytes f)"
    by (simp add: bc_add_zero)
  then show ?thesis using assms by (auto simp: start_body_def flow_state_preds)
qed

lemma start_body_refused:
  assumes "flow_ok f" "fl_owner_boot f \<noteq> boot \<or> fl_state f \<noteq> FS_ADMITTED \<and> fl_state f \<noteq> FS_QUEUED"
  shows "start_body boot now f = (False, f)"
  using assms by (auto simp: start_body_def flow_ok_def)

lemma progress_body_cases:
  assumes "flow_ok f"
  shows "progress_body boot n now f =
    (if fl_owner_boot f = boot \<and> flow_can_progress (fl_state f) \<and>
        bcv (completed_bytes f) + unat n \<le> bcv (admitted_bytes f)
     then (True, f\<lparr>completed_bytes := ByteCounter (bc_value (completed_bytes f) + n),
        in_flight_bytes := ByteCounter (bc_value (in_flight_bytes f) - min n (bc_value (in_flight_bytes f))),
        fl_last_progress_ms := now\<rparr>)
     else (False, f))"
proof -
  have sub: "checked_sub (bc_value (in_flight_bytes f)) (min n (bc_value (in_flight_bytes f))) =
      Some (bc_value (in_flight_bytes f) - min n (bc_value (in_flight_bytes f)))"
    by (simp add: checked_sub_iff word_min_unat)
  have add: "(case checked_add (bc_value (completed_bytes f)) n of None \<Rightarrow> True
        | Some c \<Rightarrow> c > bc_value (admitted_bytes f)) \<longleftrightarrow>
      \<not> bcv (completed_bytes f) + unat n \<le> bcv (admitted_bytes f)"
    using unat_u64_bound [of "bc_value (admitted_bytes f)"]
    by (auto simp: checked_add_iff word_less_nat_alt unat_u64_add)
  show ?thesis
    using sub add by (auto simp: progress_body_def flow_state_preds checked_add_iff Let_def split: if_splits option.splits)
qed

lemma complete_body_cases:
  assumes "flow_ok f"
  shows "complete_body boot now f =
    (if fl_owner_boot f = boot \<and> flow_transition_allowed (fl_state f) FS_COMPLETED
     then (True, f\<lparr>completed_bytes := admitted_bytes f, in_flight_bytes := ByteCounter 0,
        fl_state := FS_COMPLETED, fl_last_progress_ms := now\<rparr>)
     else (False, f))"
  using flow_ok_bounds(1) [OF assms]
  by (auto simp: complete_body_def bc_top_up)

lemma fail_body_cases:
  assumes "flow_ok f"
  shows "fail_body boot now f =
    (if fl_owner_boot f = boot \<and> flow_transition_allowed (fl_state f) FS_FAILED
     then (True, f\<lparr>failed_bytes := ByteCounter (bc_value (admitted_bytes f) - bc_value (completed_bytes f)),
        in_flight_bytes := ByteCounter 0, fl_state := FS_FAILED, fl_last_progress_ms := now\<rparr>)
     else (False, f))"
proof (cases "flow_transition_allowed (fl_state f) FS_FAILED")
  case True
  then have "bc_value (failed_bytes f) = 0"
    using assms by (cases "fl_state f") (auto simp: flow_inv_defs)
  then show ?thesis by (auto simp: fail_body_def bc_add_zero)
qed (simp add: fail_body_def)

lemma cancel_body_cases:
  assumes "flow_ok f"
  shows "cancel_body boot n now f =
    (if fl_owner_boot f = boot \<and> flow_transition_allowed (fl_state f) FS_CANCELLED
     then (True, f\<lparr>cancelled_bytes := ByteCounter (min n (bc_value (admitted_bytes f) - bc_value (completed_bytes f))),
        in_flight_bytes := ByteCounter 0, fl_state := FS_CANCELLED, fl_last_progress_ms := now\<rparr>)
     else (False, f))"
proof -
  let ?r = "min n (bc_value (admitted_bytes f) - bc_value (completed_bytes f))"
  have r: "unat ?r \<le> bcv (admitted_bytes f) - bcv (completed_bytes f)"
    using unat_u64_diff [OF flow_ok_bounds(1) [OF assms]] by (simp add: word_min_unat)
  then have "bcv (completed_bytes f) + unat ?r \<le> bcv (admitted_bytes f)"
    using flow_ok_bounds(1) [OF assms] by linarith
  then have "\<not> bc_value (completed_bytes f) + ?r > bc_value (admitted_bytes f)"
    using unat_u64_bound [of "bc_value (admitted_bytes f)"]
    by (simp add: word_less_nat_alt unat_u64_add)
  moreover have "flow_transition_allowed (fl_state f) FS_CANCELLED \<Longrightarrow> bc_value (cancelled_bytes f) = 0"
    using assms by (cases "fl_state f") (auto simp: flow_inv_defs)
  moreover have "flow_is_stale_or_superseded (fl_state f) \<Longrightarrow> \<not> flow_transition_allowed (fl_state f) FS_CANCELLED"
    by (auto simp: flow_state_preds)
  ultimately show ?thesis
    by (auto simp: cancel_body_def bc_add_zero Let_def)
qed

text \<open>The laws of the contract, for the body of every method.\<close>

interpretation admit: flow_method "\<lambda>f. flow_transition_allowed (fl_state f) FS_ADMITTED" admit_body
proof
  fix f :: Flow assume pre: "flow_transition_allowed (fl_state f) FS_ADMITTED"
  show "fl_ref (snd (admit_body f)) = fl_ref f"
    by (simp add: admit_body_def split: prod.split)
  assume ok: "flow_ok f"
  with pre have st: "fl_state f = FS_DECLARED" by (cases "fl_state f") (auto simp: flow_ok_def)
  note body = admit_body_ok [OF ok st]
  have a: "bc_value (admitted_bytes f) = 0" using ok st by (simp add: flow_ok_def)
  then have c: "bc_value (admitted_bytes f) = 0" "bc_value (in_flight_bytes f) = 0"
      "bc_value (completed_bytes f) = 0"
    using flow_ok_bounds [OF ok] by (simp_all add: unsigned_eq_0_iff)
  show "flow_ok (snd (admit_body f))" "flow_evolves f (snd (admit_body f))"
    using ok st c by (auto simp: body flow_inv_defs)
  show "flow_exact f \<Longrightarrow> flow_exact (snd (admit_body f))"
    using st c by (auto simp: body flow_inv_defs)
  show "fl_state (snd (admit_body f)) = fl_state f \<or>
      flow_transition_allowed (fl_state f) (fl_state (snd (admit_body f)))"
    by (simp add: body st)
  show "\<not> fst (admit_body f) \<Longrightarrow> snd (admit_body f) = f" by (simp add: body)
qed

interpretation start: flow_method "\<lambda>f. True" "start_body boot now"
proof
  fix f :: Flow
  show "fl_ref (snd (start_body boot now f)) = fl_ref f"
    by (simp add: start_body_def Let_def split: prod.split)
  assume ok: "flow_ok f"
  have start_props: "flow_ok (snd (start_body boot now f)) \<and> flow_evolves f (snd (start_body boot now f)) \<and>
      (flow_exact f \<longrightarrow> flow_exact (snd (start_body boot now f))) \<and>
      flow_transition_allowed (fl_state f) (fl_state (snd (start_body boot now f))) \<and> fst (start_body boot now f)"
    if src: "fl_owner_boot f = boot" "fl_state f = FS_ADMITTED \<or> fl_state f = FS_QUEUED"
    using ok src(2) unfolding start_body_ok [OF ok src] by (elim disjE) (simp_all add: flow_inv_defs)
  show "flow_ok (snd (start_body boot now f))" "flow_evolves f (snd (start_body boot now f))"
    "flow_exact f \<Longrightarrow> flow_exact (snd (start_body boot now f))"
    "fl_state (snd (start_body boot now f)) = fl_state f \<or>
      flow_transition_allowed (fl_state f) (fl_state (snd (start_body boot now f)))"
    "\<not> fst (start_body boot now f) \<Longrightarrow> snd (start_body boot now f) = f"
    using start_body_refused [OF ok, of boot now] start_props
    by (cases "fl_owner_boot f = boot \<and> (fl_state f = FS_ADMITTED \<or> fl_state f = FS_QUEUED)";
        force simp: ok)+
qed

lemma progress_bounds:
  assumes "bcv c + unat n \<le> bcv a"
  shows "unat (bc_value c + n) = bcv c + unat n" "unat (bc_value c + n) \<le> bcv a"
  using assms unat_u64_bound [of "bc_value a"] by (simp_all add: unat_u64_add)

lemma inflight_drop: "unat (b - min n b :: u64) = unat b - min (unat n) (unat b)"
  by (simp add: unat_u64_diff word_min_unat)

interpretation progress: flow_method "\<lambda>f. True" "progress_body boot n now"
proof
  fix f :: Flow
  show "fl_ref (snd (progress_body boot n now f)) = fl_ref f"
    by (simp add: progress_body_def Let_def split: option.split)
  assume ok: "flow_ok f"
  note body = progress_body_cases [OF ok, of boot n now]
  have moves: "flow_ok (snd (progress_body boot n now f)) \<and> flow_evolves f (snd (progress_body boot n now f)) \<and>
      (flow_exact f \<longrightarrow> flow_exact (snd (progress_body boot n now f)))"
    if "flow_can_progress (fl_state f)" and fits: "bcv (completed_bytes f) + unat n \<le> bcv (admitted_bytes f)"
  proof -
    have drop: "unat (bc_value (in_flight_bytes f) - min n (bc_value (in_flight_bytes f))) \<le> bcv (admitted_bytes f)"
      "bc_value (in_flight_bytes f) = 0 \<Longrightarrow> bc_value (in_flight_bytes f) - min n (bc_value (in_flight_bytes f)) = 0"
      using flow_ok_bounds(3) [OF ok] by (simp_all add: inflight_drop le_diff_conv)
    have "fl_state f = FS_QUEUED \<or> fl_state f = FS_ACTIVE"
      using that(1) ok by (auto simp: flow_can_progress_def flow_ok_def)
    then show ?thesis
      using ok progress_bounds [OF fits] drop
      by (elim disjE) (simp_all add: body flow_inv_defs)
  qed
  have refused: "snd (progress_body boot n now f) = f"
    if "\<not> (flow_can_progress (fl_state f) \<and> bcv (completed_bytes f) + unat n \<le> bcv (admitted_bytes f))"
    using that by (auto simp: body)
  show "flow_ok (snd (progress_body boot n now f))" "flow_evolves f (snd (progress_body boot n now f))"
    "flow_exact f \<Longrightarrow> flow_exact (snd (progress_body boot n now f))"
    using moves refused ok by (metis flow_evolves_refl)+
  show "fl_state (snd (progress_body boot n now f)) = fl_state f \<or>
      flow_transition_allowed (fl_state f) (fl_state (snd (progress_body boot n now f)))"
    by (simp add: progress_body_def Let_def split: option.splits)
  show "snd (progress_body boot n now f) = f" if "\<not> fst (progress_body boot n now f)"
    using that body by (metis fst_conv snd_conv)
qed

text \<open>The three methods that close a flow store the state they tested for.\<close>

lemma closing_sources:
  assumes "flow_ok f" "flow_transition_allowed (fl_state f) t" "flow_is_terminal t"
  shows "\<not> parked (fl_state f) \<and> \<not> flow_terminal f"
  using assms by (cases "fl_state f") (auto simp: flow_inv_defs)

text \<open>What closing a flow does to the invariants: the state becomes terminal, nothing stays in
  flight, and the unfinished bytes are accounted for at most once.\<close>

lemma closed_props:
  assumes ok: "flow_ok f" and src: "\<not> parked (fl_state f)" "\<not> flow_terminal f"
    and g: "g = f\<lparr>completed_bytes := c, failed_bytes := x, cancelled_bytes := y,
      in_flight_bytes := ByteCounter 0, fl_state := t, fl_last_progress_ms := now\<rparr>"
    and t: "t = FS_COMPLETED \<and> c = admitted_bytes f \<or> t = FS_CANCELLED \<or> t = FS_FAILED"
    and c: "bcv (completed_bytes f) \<le> bcv c" and s: "bcv c + bcv x + bcv y \<le> bcv (admitted_bytes f)"
  shows "flow_ok g \<and> flow_evolves f g \<and> flow_exact g"
proof (intro conjI)
  have st: "flow_is_terminal t" "\<not> parked t" "t \<notin> {FS_DECLARED, FS_ADMITTED, FS_QUEUED}"
    using t by (auto simp: parked_def flow_state_preds)
  have acc: "accounting_valid f" using ok by (simp add: flow_ok_def)
  show "flow_ok g" using acc c s t st by (auto simp: flow_ok_def accounting_valid_unat flow_terminal_def g)
  have "bc_value (cancelled_bytes f) = 0" "bc_value (failed_bytes f) = 0" using ok src by (simp_all add: flow_ok_def)
  then show "flow_evolves f g" using src c st(3) by (simp add: flow_evolves_def flow_owner_def g)
  show "flow_exact g" using st(1) t s by (auto simp: flow_exact_def flow_terminal_def g)
qed

interpretation complete: flow_method "\<lambda>f. True" "complete_body boot now"
proof
  fix f :: Flow
  show "fl_ref (snd (complete_body boot now f)) = fl_ref f"
    by (simp add: complete_body_def Let_def split: prod.split)
  assume ok: "flow_ok f"
  note body = complete_body_cases [OF ok, of boot now]
  have zero: "bc_value (failed_bytes f) = 0" "bc_value (cancelled_bytes f) = 0"
    if "flow_transition_allowed (fl_state f) FS_COMPLETED"
    using closing_sources [OF ok that] ok by (simp_all add: flow_ok_def flow_state_preds)
  have closes: "flow_ok (snd (complete_body boot now f)) \<and> flow_evolves f (snd (complete_body boot now f)) \<and> flow_exact (snd (complete_body boot now f))"
    if src: "flow_transition_allowed (fl_state f) FS_COMPLETED" "fl_owner_boot f = boot"
    by (rule closed_props [OF ok, where t = FS_COMPLETED and now = now and
          c = "admitted_bytes f" and x = "failed_bytes f" and y = "cancelled_bytes f"])
      (use closing_sources [OF ok src(1)] flow_ok_bounds [OF ok] zero [OF src(1)] src in
        \<open>simp_all add: body flow_state_preds \<close>)
  show "flow_ok (snd (complete_body boot now f))" "flow_evolves f (snd (complete_body boot now f))"
    "flow_exact f \<Longrightarrow> flow_exact (snd (complete_body boot now f))"
    using closes ok by (cases "flow_transition_allowed (fl_state f) FS_COMPLETED \<and> fl_owner_boot f = boot"; force simp: body)+
  show "fl_state (snd (complete_body boot now f)) = fl_state f \<or>
      flow_transition_allowed (fl_state f) (fl_state (snd (complete_body boot now f)))"
    "\<not> fst (complete_body boot now f) \<Longrightarrow> snd (complete_body boot now f) = f"
    by (auto simp: body split: if_splits)
qed

interpretation fail: flow_method "\<lambda>f. True" "fail_body boot now"
proof
  fix f :: Flow
  show "fl_ref (snd (fail_body boot now f)) = fl_ref f"
    by (simp add: fail_body_def Let_def split: prod.split)
  assume ok: "flow_ok f"
  note body = fail_body_cases [OF ok, of boot now]
  have zero: "bc_value (failed_bytes f) = 0" "bc_value (cancelled_bytes f) = 0"
    if "flow_transition_allowed (fl_state f) FS_FAILED"
    using closing_sources [OF ok that] ok by (simp_all add: flow_ok_def flow_state_preds)
  have rem: "unat (bc_value (admitted_bytes f) - bc_value (completed_bytes f)) =
      bcv (admitted_bytes f) - bcv (completed_bytes f)"
    by (rule unat_u64_diff [OF flow_ok_bounds(1) [OF ok]])
  have closes: "flow_ok (snd (fail_body boot now f)) \<and> flow_evolves f (snd (fail_body boot now f)) \<and> flow_exact (snd (fail_body boot now f))"
    if src: "flow_transition_allowed (fl_state f) FS_FAILED" "fl_owner_boot f = boot"
    by (rule closed_props [OF ok, where t = FS_FAILED and now = now and
          c = "completed_bytes f" and x = "ByteCounter (bc_value (admitted_bytes f) - bc_value (completed_bytes f))" and y = "cancelled_bytes f"])
      (use closing_sources [OF ok src(1)] flow_ok_bounds [OF ok] zero [OF src(1)] src in
        \<open>simp_all add: body flow_state_preds rem\<close>)
  show "flow_ok (snd (fail_body boot now f))" "flow_evolves f (snd (fail_body boot now f))"
    "flow_exact f \<Longrightarrow> flow_exact (snd (fail_body boot now f))"
    using closes ok by (cases "flow_transition_allowed (fl_state f) FS_FAILED \<and> fl_owner_boot f = boot"; force simp: body)+
  show "fl_state (snd (fail_body boot now f)) = fl_state f \<or>
      flow_transition_allowed (fl_state f) (fl_state (snd (fail_body boot now f)))"
    "\<not> fst (fail_body boot now f) \<Longrightarrow> snd (fail_body boot now f) = f"
    by (auto simp: body split: if_splits)
qed

interpretation cancel: flow_method "\<lambda>f. True" "cancel_body boot n now"
proof
  fix f :: Flow
  show "fl_ref (snd (cancel_body boot n now f)) = fl_ref f"
    by (simp add: cancel_body_def Let_def split: prod.split)
  assume ok: "flow_ok f"
  note body = cancel_body_cases [OF ok, of boot n now]
  have zero: "bc_value (failed_bytes f) = 0" "bc_value (cancelled_bytes f) = 0"
    if "flow_transition_allowed (fl_state f) FS_CANCELLED"
    using closing_sources [OF ok that] ok by (simp_all add: flow_ok_def flow_state_preds)
  have rem: "unat (min n (bc_value (admitted_bytes f) - bc_value (completed_bytes f))) =
      min (unat n) (bcv (admitted_bytes f) - bcv (completed_bytes f))"
    by (simp add: word_min_unat unat_u64_diff [OF flow_ok_bounds(1) [OF ok]])
  have closes: "flow_ok (snd (cancel_body boot n now f)) \<and> flow_evolves f (snd (cancel_body boot n now f)) \<and> flow_exact (snd (cancel_body boot n now f))"
    if src: "flow_transition_allowed (fl_state f) FS_CANCELLED" "fl_owner_boot f = boot"
    by (rule closed_props [OF ok, where t = FS_CANCELLED and now = now and
          c = "completed_bytes f" and x = "failed_bytes f" and y = "ByteCounter (min n (bc_value (admitted_bytes f) - bc_value (completed_bytes f)))"])
      (use closing_sources [OF ok src(1)] flow_ok_bounds [OF ok] zero [OF src(1)] src in
        \<open>simp_all add: body flow_state_preds rem\<close>)
  show "flow_ok (snd (cancel_body boot n now f))" "flow_evolves f (snd (cancel_body boot n now f))"
    "flow_exact f \<Longrightarrow> flow_exact (snd (cancel_body boot n now f))"
    using closes ok by (cases "flow_transition_allowed (fl_state f) FS_CANCELLED \<and> fl_owner_boot f = boot"; force simp: body)+
  show "fl_state (snd (cancel_body boot n now f)) = fl_state f \<or>
      flow_transition_allowed (fl_state f) (fl_state (snd (cancel_body boot n now f)))"
    "\<not> fst (cancel_body boot n now f) \<Longrightarrow> snd (cancel_body boot n now f) = f"
    by (auto simp: body split: if_splits)
qed

interpretation revalidate: flow_method "\<lambda>f. True" "revalidate_body boot"
proof
  fix f :: Flow
  show "fl_ref (snd (revalidate_body boot f)) = fl_ref f"
    "fl_state (snd (revalidate_body boot f)) = fl_state f \<or>
      flow_transition_allowed (fl_state f) (fl_state (snd (revalidate_body boot f)))"
    "\<not> fst (revalidate_body boot f) \<Longrightarrow> snd (revalidate_body boot f) = f"
    by (auto simp: revalidate_body_def)
  assume ok: "flow_ok f"
  have moved: "fl_state f = FS_STALE \<and> snd (revalidate_body boot f) = f\<lparr>fl_state := FS_REVALIDATION_REQUIRED\<rparr>"
    if "snd (revalidate_body boot f) \<noteq> f"
    using that by (cases "fl_state f") (auto simp: revalidate_body_def split: if_splits)
  have "flow_ok (f\<lparr>fl_state := FS_REVALIDATION_REQUIRED\<rparr>) \<and> flow_evolves f (f\<lparr>fl_state := FS_REVALIDATION_REQUIRED\<rparr>) \<and>
      (flow_exact f \<longrightarrow> flow_exact (f\<lparr>fl_state := FS_REVALIDATION_REQUIRED\<rparr>))" if "fl_state f = FS_STALE"
    using ok that by (simp add: flow_inv_defs)
  with moved ok show "flow_ok (snd (revalidate_body boot f))" "flow_evolves f (snd (revalidate_body boot f))"
    "flow_exact f \<Longrightarrow> flow_exact (snd (revalidate_body boot f))"
    by (metis flow_evolves_refl)+
qed

end
