(* ===== verification/EngineInv.thy ===== *)
theory EngineInv
  imports FlowOps
begin

text \<open>
  The invariant of the engine state and the order in which it evolves. \<open>good_step e e'\<close> says
  that a step keeps the invariant, lets every flow and every registered boot only evolve, and
  keeps the exact accounting; every mutating method of the engine but \<^verbatim>\<open>load\<close> is shown to be
  such a step. Steps compose, so the facts lift to arbitrary sequences of calls.
\<close>

section \<open>The invariant\<close>

definition domain_ok :: "CongestionDomainId \<Rightarrow> CongestionDomain \<Rightarrow> bool" where
  "domain_ok k d \<longleftrightarrow> ref_id (d_ref d) = k \<and> capacity_valid (d_capacity d) \<and> length (d_measurements d) = 20"

definition engine_inv :: "CongestionFabric \<Rightarrow> bool" where
  "engine_inv e \<longleftrightarrow> um_wf (cf_worker_boot e) \<and> um_wf (cf_source_boot e) \<and> um_wf (cf_domains e) \<and>
     um_wf (cf_flows e) \<and>
     (\<forall>k f. um_find (cf_flows e) k = Some f \<longrightarrow> flow_ok f \<and> ref_id (fl_ref f) = k) \<and>
     (\<forall>k d. um_find (cf_domains e) k = Some d \<longrightarrow> domain_ok k d)"

text \<open>A domain's list names each bound flow once, and only flows of that domain that were
  admitted; every flow's bytes are accounted for exactly.\<close>

definition bound_to :: "(FlowId, Flow) umap \<Rightarrow> CongestionDomainId \<Rightarrow> FlowRef list \<Rightarrow> bool" where
  "bound_to fm k rs \<longleftrightarrow> distinct (map ref_id rs) \<and>
     (\<forall>r\<in>set rs. \<exists>f. um_find fm (ref_id r) = Some f \<and> ref_id (fl_domain f) = k \<and> fl_state f \<noteq> FS_DECLARED)"

definition engine_exact :: "CongestionFabric \<Rightarrow> bool" where
  "engine_exact e \<longleftrightarrow>
     (\<forall>k f. um_find (cf_flows e) k = Some f \<longrightarrow> flow_exact f) \<and>
     (\<forall>k d. um_find (cf_domains e) k = Some d \<longrightarrow> bound_to (cf_flows e) k (d_flows d))"

definition map_grows :: "('v \<Rightarrow> 'v \<Rightarrow> bool) \<Rightarrow> ('k, 'v) umap \<Rightarrow> ('k, 'v) umap \<Rightarrow> bool" where
  "map_grows R m n \<longleftrightarrow> (\<forall>k v. um_find m k = Some v \<longrightarrow> (\<exists>w. um_find n k = Some w \<and> R v w))"

definition engine_evolves :: "CongestionFabric \<Rightarrow> CongestionFabric \<Rightarrow> bool" where
  "engine_evolves e e' \<longleftrightarrow> cf_limits e' = cf_limits e \<and> cf_epoch e \<le> cf_epoch e' \<and>
     map_grows flow_evolves (cf_flows e) (cf_flows e') \<and>
     map_grows (\<le>) (cf_worker_boot e) (cf_worker_boot e') \<and>
     map_grows (\<le>) (cf_source_boot e) (cf_source_boot e')"

definition good_step :: "CongestionFabric \<Rightarrow> CongestionFabric \<Rightarrow> bool" where
  "good_step e e' \<longleftrightarrow> (engine_inv e \<longrightarrow> engine_inv e' \<and> engine_evolves e e' \<and>
     (engine_exact e \<longrightarrow> engine_exact e'))"

lemma map_grows_refl: "(\<And>v. R v v) \<Longrightarrow> map_grows R m m"
  by (simp add: map_grows_def)

lemma map_grows_trans:
  assumes "\<And>u v w. R u v \<Longrightarrow> R v w \<Longrightarrow> R u w" "map_grows R m n" "map_grows R n p"
  shows "map_grows R m p"
  using assms unfolding map_grows_def by metis

lemma map_grows_assign:
  "(\<And>v. R v v) \<Longrightarrow> (\<And>v. um_find m k = Some v \<Longrightarrow> R v w) \<Longrightarrow> map_grows R m (um_assign m k w)"
  by (simp add: map_grows_def)

lemma engine_evolves_refl [simp]: "engine_evolves e e"
  by (simp add: engine_evolves_def map_grows_refl)

lemma engine_evolves_trans: "engine_evolves e e1 \<Longrightarrow> engine_evolves e1 e2 \<Longrightarrow> engine_evolves e e2"
  unfolding engine_evolves_def
  by (auto elim: map_grows_trans [rotated] order_trans intro: flow_evolves_trans)

lemma good_step_refl [simp]: "good_step e e"
  by (simp add: good_step_def)

lemma good_step_trans [trans]: "good_step e e1 \<Longrightarrow> good_step e1 e2 \<Longrightarrow> good_step e e2"
  by (auto simp: good_step_def intro: engine_evolves_trans)

lemma bound_to_grows:
  assumes "bound_to fm k rs" "map_grows flow_evolves fm fm'"
  shows "bound_to fm' k rs"
  using assms unfolding bound_to_def map_grows_def flow_evolves_def by metis

section \<open>Steps on the four maps\<close>

lemma good_boots:
  assumes "um_wf (cf_worker_boot e) \<Longrightarrow> um_wf wb" "map_grows (\<le>) (cf_worker_boot e) wb"
    and "um_wf (cf_source_boot e) \<Longrightarrow> um_wf sb" "map_grows (\<le>) (cf_source_boot e) sb"
    and "cf_epoch e \<le> ep"
  shows "good_step e (e\<lparr>cf_epoch := ep, cf_worker_boot := wb, cf_source_boot := sb\<rparr>)"
  unfolding good_step_def
  using assms by (simp add: engine_inv_def engine_evolves_def engine_exact_def map_grows_refl)

lemma good_flows:
  assumes "um_wf (cf_flows e) \<Longrightarrow> um_wf fm" and "engine_inv e \<Longrightarrow> map_grows flow_evolves (cf_flows e) fm"
    and "\<And>k g. engine_inv e \<Longrightarrow> um_find fm k = Some g \<Longrightarrow> flow_ok g \<and> ref_id (fl_ref g) = k \<and>
      ((\<forall>f. um_find (cf_flows e) k = Some f \<longrightarrow> flow_exact f) \<longrightarrow> flow_exact g)"
  shows "good_step e (e\<lparr>cf_flows := fm\<rparr>)"
  unfolding good_step_def
proof (intro impI conjI)
  assume inv: "engine_inv e"
  then show "engine_inv (e\<lparr>cf_flows := fm\<rparr>)"
    using assms(1) assms(3) [OF inv] by (simp add: engine_inv_def)
  show "engine_evolves e (e\<lparr>cf_flows := fm\<rparr>)"
    using assms(2) [OF inv] by (simp add: engine_evolves_def map_grows_refl)
  show "engine_exact (e\<lparr>cf_flows := fm\<rparr>)" if "engine_exact e"
    using that assms(3) [OF inv] bound_to_grows [OF _ assms(2) [OF inv]]
    by (auto simp: engine_exact_def)
qed

lemma good_set_flow:
  assumes f: "um_find (cf_flows e) k = Some f"
    and g: "flow_ok f \<Longrightarrow> flow_ok g \<and> flow_evolves f g \<and> (flow_exact f \<longrightarrow> flow_exact g)"
  shows "good_step e (set_flow e k g)"
proof (rule good_flows)
  assume inv: "engine_inv e"
  then have ok: "flow_ok f" "ref_id (fl_ref f) = k" using f by (auto simp: engine_inv_def)
  show "map_grows flow_evolves (cf_flows e) (um_assign (cf_flows e) k g)"
    using f g ok by (intro map_grows_assign) auto
  fix j h assume h: "um_find (um_assign (cf_flows e) k g) j = Some h"
  show "flow_ok h \<and> ref_id (fl_ref h) = j \<and>
      ((\<forall>f. um_find (cf_flows e) j = Some f \<longrightarrow> flow_exact f) \<longrightarrow> flow_exact h)"
    using h inv g ok f by (auto simp: engine_inv_def flow_evolves_def split: if_splits)
qed auto

lemma good_map_flows:
  assumes g: "\<And>f. flow_ok f \<Longrightarrow> flow_ok (g f) \<and> flow_evolves f (g f) \<and> (flow_exact f \<longrightarrow> flow_exact (g f))"
  shows "good_step e (e\<lparr>cf_flows := um_map g (cf_flows e)\<rparr>)"
proof (rule good_flows)
  assume inv: "engine_inv e"
  then have ok: "\<And>k f. um_find (cf_flows e) k = Some f \<Longrightarrow> flow_ok f \<and> ref_id (fl_ref f) = k"
    by (simp add: engine_inv_def)
  show "map_grows flow_evolves (cf_flows e) (um_map g (cf_flows e))"
    using ok g by (auto simp: map_grows_def)
  fix j h assume "um_find (um_map g (cf_flows e)) j = Some h"
  then obtain f where f: "um_find (cf_flows e) j = Some f" "h = g f" by auto
  show "flow_ok h \<and> ref_id (fl_ref h) = j \<and>
      ((\<forall>f. um_find (cf_flows e) j = Some f \<longrightarrow> flow_exact f) \<longrightarrow> flow_exact h)"
    using f ok [OF f(1)] g [of f] by (auto simp: flow_evolves_def)
qed auto

lemma good_domains:
  assumes wf: "um_wf (cf_domains e) \<Longrightarrow> um_wf ds"
    and d: "\<And>k d'. engine_inv e \<Longrightarrow> um_find ds k = Some d' \<Longrightarrow>
      domain_ok k d' \<and> (d_flows d' = [] \<or> (\<exists>d. um_find (cf_domains e) k = Some d \<and> d_flows d' = d_flows d))"
  shows "good_step e (e\<lparr>cf_domains := ds\<rparr>)"
  unfolding good_step_def
proof (intro impI conjI)
  assume inv: "engine_inv e"
  then show "engine_inv (e\<lparr>cf_domains := ds\<rparr>)" using wf d by (auto simp: engine_inv_def)
  show "engine_evolves e (e\<lparr>cf_domains := ds\<rparr>)" by (simp add: engine_evolves_def map_grows_refl)
  show "engine_exact (e\<lparr>cf_domains := ds\<rparr>)" if "engine_exact e"
    using that d [OF inv] by (fastforce simp: engine_exact_def bound_to_def)
qed

lemma good_set_domain:
  assumes "um_find (cf_domains e) k = Some d" "domain_ok k d \<Longrightarrow> domain_ok k d'" "d_flows d' = d_flows d"
  shows "good_step e (set_domain e k d')"
  using assms by (intro good_domains) (auto simp: engine_inv_def split: if_splits)

lemma counters_irrelevant:
  "engine_inv (e\<lparr>cf_active_flows := n\<rparr>) = engine_inv e" "engine_inv (e\<lparr>cf_next_event := n\<rparr>) = engine_inv e"
  "engine_inv (e\<lparr>cf_next_domain := n\<rparr>) = engine_inv e" "engine_inv (e\<lparr>cf_next_flow := n\<rparr>) = engine_inv e"
  "engine_inv (e\<lparr>cf_flow_history := h\<rparr>) = engine_inv e" "engine_inv (e\<lparr>cf_recovered := r\<rparr>) = engine_inv e"
  "engine_exact (e\<lparr>cf_active_flows := n\<rparr>) = engine_exact e" "engine_exact (e\<lparr>cf_next_event := n\<rparr>) = engine_exact e"
  "engine_exact (e\<lparr>cf_next_domain := n\<rparr>) = engine_exact e" "engine_exact (e\<lparr>cf_next_flow := n\<rparr>) = engine_exact e"
  "engine_exact (e\<lparr>cf_flow_history := h\<rparr>) = engine_exact e" "engine_exact (e\<lparr>cf_recovered := r\<rparr>) = engine_exact e"
  "engine_evolves a (e\<lparr>cf_active_flows := n\<rparr>) = engine_evolves a e" "engine_evolves a (e\<lparr>cf_next_event := n\<rparr>) = engine_evolves a e"
  "engine_evolves a (e\<lparr>cf_next_domain := n\<rparr>) = engine_evolves a e" "engine_evolves a (e\<lparr>cf_next_flow := n\<rparr>) = engine_evolves a e"
  "engine_evolves a (e\<lparr>cf_flow_history := h\<rparr>) = engine_evolves a e" "engine_evolves a (e\<lparr>cf_recovered := r\<rparr>) = engine_evolves a e"
  by (simp_all add: engine_inv_def engine_exact_def engine_evolves_def)

lemma good_counters:
  "good_step e e' \<Longrightarrow> good_step e (e'\<lparr>cf_active_flows := n\<rparr>)"
  "good_step e e' \<Longrightarrow> good_step e (e'\<lparr>cf_next_event := m\<rparr>)"
  "good_step e e' \<Longrightarrow> good_step e (e'\<lparr>cf_next_domain := m\<rparr>)"
  "good_step e e' \<Longrightarrow> good_step e (e'\<lparr>cf_next_flow := m\<rparr>)"
  "good_step e e' \<Longrightarrow> good_step e (e'\<lparr>cf_flow_history := h\<rparr>)"
  "good_step e e' \<Longrightarrow> good_step e (e'\<lparr>cf_recovered := r\<rparr>)"
  by (simp_all add: good_step_def counters_irrelevant)

section \<open>Every method is a good step\<close>

named_theorems op_good \<open>the engine methods are good steps\<close>

lemma good_worker_boot:
  assumes "\<And>b. um_find (cf_worker_boot e) w = Some b \<Longrightarrow> b \<le> boot"
  shows "good_step e (e\<lparr>cf_worker_boot := um_assign (cf_worker_boot e) w boot\<rparr>)"
  using good_boots [of e "um_assign (cf_worker_boot e) w boot" "cf_source_boot e" "cf_epoch e"] assms
  by (simp add: map_grows_refl map_grows_assign um_wf_intros)

lemma good_source_boot:
  assumes "\<And>b. um_find (cf_source_boot e) w = Some b \<Longrightarrow> b \<le> boot"
  shows "good_step e (e\<lparr>cf_source_boot := um_assign (cf_source_boot e) w boot\<rparr>)"
  using good_boots [of e "cf_worker_boot e" "um_assign (cf_source_boot e) w boot" "cf_epoch e"] assms
  by (simp add: map_grows_refl map_grows_assign um_wf_intros)

lemma good_advance_epoch [op_good]: "good_step e (snd (advance_epoch nxt e))"
  using good_boots [of e "cf_worker_boot e" "cf_source_boot e" nxt]
  by (auto simp: advance_epoch_def map_grows_refl less_eq_Generation_def)

lemma good_register_worker [op_good]: "good_step e (snd (register_worker w boot e))"
  by (auto simp: register_worker_def less_eq_Generation_def split: option.split intro!: good_worker_boot)

lemma good_register_source [op_good]: "good_step e (snd (register_source s boot e))"
  by (auto simp: register_source_def less_eq_Generation_def split: option.split intro!: good_source_boot)

text \<open>Fencing and recovery park flows; the invariant does not distinguish them.\<close>

lemma park_props:
  assumes "flow_ok f" "live f" "s = FS_STALE \<or> s = FS_REVALIDATION_REQUIRED"
  shows "flow_ok (f\<lparr>fl_state := s\<rparr>) \<and> flow_evolves f (f\<lparr>fl_state := s\<rparr>) \<and>
    (flow_exact f \<longrightarrow> flow_exact (f\<lparr>fl_state := s\<rparr>))"
  using assms(2,3) assms(1)
  by (elim disjE) (simp_all add: live_def flow_inv_defs)

lemma fence_flow_props:
  "flow_ok f \<Longrightarrow> flow_ok (fence_flow P f) \<and> flow_evolves f (fence_flow P f) \<and>
    (flow_exact f \<longrightarrow> flow_exact (fence_flow P f))"
  using park_props [of f FS_STALE] by (simp add: fence_flow_def live_def)

lemma recover_flow_props:
  "flow_ok f \<Longrightarrow> flow_ok (recover_flow f) \<and> flow_evolves f (recover_flow f) \<and>
    (flow_exact f \<longrightarrow> flow_exact (recover_flow f))"
  using park_props [of f FS_REVALIDATION_REQUIRED] by (simp add: recover_flow_def live_def)

lemma fence_domain_keeps:
  "d_ref (snd (fence_domain w b any d)) = d_ref d" "d_capacity (snd (fence_domain w b any d)) = d_capacity d"
  "d_measurements (snd (fence_domain w b any d)) = d_measurements d"
  "d_flows (snd (fence_domain w b any d)) = d_flows d"
  by (simp_all add: fence_domain_def drop_evidence_def invalidate_domain_def Let_def)

lemma find_fence_domains:
  "um_find (fence_domains w b any ds) k = Some d' \<Longrightarrow>
   \<exists>d any'. um_find ds k = Some d \<and> d' = snd (fence_domain w b any' d)"
proof (induction w b any ds rule: fence_domains.induct)
  case (2 w b any j d ds)
  obtain any' d1 where fd: "fence_domain w b any d = (any', d1)" by fastforce
  then show ?case
    using 2 by (cases "k = j") (auto simp: um_find_Cons intro: exI [of _ any])
qed simp

lemma fence_domains_keys [simp]: "map fst (fence_domains w b any ds) = map fst ds"
  by (induction w b any ds rule: fence_domains.induct) (auto split: prod.split)

lemma fence_domain_ok: "domain_ok k d \<Longrightarrow> domain_ok k (snd (fence_domain w b any d))"
  by (simp add: domain_ok_def fence_domain_keeps)

lemma good_fence_worker [op_good]: "good_step e (snd (fence_worker w dead e))"
proof -
  let ?e1 = "e\<lparr>cf_worker_boot := um_assign (cf_worker_boot e) w (gen_next dead)\<rparr>"
  let ?g = "fence_flow (\<lambda>f. fl_owner_worker f = w \<and> fl_owner_boot f = dead)"
  let ?e2 = "?e1\<lparr>cf_flows := um_map ?g (cf_flows ?e1)\<rparr>"
  let ?e3 = "?e2\<lparr>cf_domains := fence_domains w dead False (cf_domains ?e2)\<rparr>"
  have "good_step e ?e1" if "um_find (cf_worker_boot e) w = Some dead"
    using that gen_next_ge [of dead] by (intro good_worker_boot) simp
  moreover have "good_step ?e1 ?e2" by (rule good_map_flows) (rule fence_flow_props)
  moreover have "good_step ?e2 ?e3"
    by (rule good_domains)
      (auto simp: um_wf_def engine_inv_def fence_domain_keeps fence_domain_ok dest!: find_fence_domains)
  ultimately have "um_find (cf_worker_boot e) w = Some dead \<Longrightarrow> good_step e ?e3"
    by (blast intro: good_step_trans)
  then show ?thesis by (simp add: fence_worker_def split: option.split)
qed

lemma good_fence_source [op_good]: "good_step e (snd (fence_source s dead e))"
proof -
  let ?e1 = "e\<lparr>cf_source_boot := um_assign (cf_source_boot e) s (gen_next dead)\<rparr>"
  let ?g = "fence_flow (\<lambda>f. fl_source f = s \<and> fl_source_boot f = dead)"
  have "good_step e ?e1" if "um_find (cf_source_boot e) s = Some dead"
    using that gen_next_ge [of dead] by (intro good_source_boot) simp
  moreover have "good_step ?e1 (?e1\<lparr>cf_flows := um_map ?g (cf_flows ?e1)\<rparr>)"
    by (rule good_map_flows) (rule fence_flow_props)
  ultimately have "um_find (cf_source_boot e) s = Some dead \<Longrightarrow>
      good_step e (?e1\<lparr>cf_flows := um_map ?g (cf_flows ?e1)\<rparr>)"
    by (blast intro: good_step_trans)
  then show ?thesis by (simp add: fence_source_def split: option.split)
qed

lemma good_recover [op_good]: "good_step e (recover_dynamic_evidence e)"
proof -
  let ?e0 = "e\<lparr>cf_recovered := True\<rparr>"
  let ?e1 = "?e0\<lparr>cf_domains := um_map recover_domain (cf_domains ?e0)\<rparr>"
  have "good_step e ?e0" by (intro good_counters) simp
  also have "good_step ?e0 ?e1"
    by (rule good_domains) (auto simp: engine_inv_def domain_ok_def recover_domain_def)
  also have "good_step ?e1 (?e1\<lparr>cf_flows := um_map recover_flow (cf_flows ?e1)\<rparr>)"
    by (rule good_map_flows) (rule recover_flow_props)
  finally show ?thesis by (simp add: recover_dynamic_evidence_def)
qed

subsection \<open>Domains and measurements\<close>

lemma good_create_domain [op_good]: "good_step e (snd (create_domain kind c e))"
proof -
  let ?k = "Id (cf_next_domain e)"
  let ?d = "default_domain\<lparr>d_ref := EntityRef ?k (Generation 1), d_kind := kind,
    d_capacity := c, d_queue := default_queue\<lparr>q_generation := Generation 1\<rparr>,
    d_residual_bps := (case residual c 0 of Some r \<Rightarrow> r | None \<Rightarrow> 0)\<rparr>"
  let ?e0 = "e\<lparr>cf_next_domain := cf_next_domain e + 1\<rparr>"
  have "good_step e ?e0" by (intro good_counters) simp
  also have "good_step ?e0 (?e0\<lparr>cf_domains := um_emplace (cf_domains ?e0) ?k ?d\<rparr>)" if "capacity_valid c"
    by (rule good_domains)
      (use that in \<open>auto simp: engine_inv_def domain_ok_def default_domain_def empty_measurements_def
         split: option.splits if_splits\<close>)
  finally show ?thesis by (simp add: create_domain_def Let_def)
qed

lemma good_remove_domain [op_good]: "good_step e (snd (remove_domain k e))"
  unfolding remove_domain_def snd_conv
  by (rule good_domains) (auto simp: engine_inv_def split: if_splits)

lemma clear_revalidation_keeps [simp]:
  "d_ref (clear_revalidation d) = d_ref d" "d_capacity (clear_revalidation d) = d_capacity d"
  "d_measurements (clear_revalidation d) = d_measurements d" "d_flows (clear_revalidation d) = d_flows d"
  by (simp_all add: clear_revalidation_def)

lemma record_rate_keeps [simp]:
  "d_ref (record_rate m w b d) = d_ref d" "d_capacity (record_rate m w b d) = d_capacity d"
  "d_measurements (record_rate m w b d) = d_measurements d" "d_flows (record_rate m w b d) = d_flows d"
  "d_state (record_rate m w b d) = d_state d"
  by (simp_all add: record_rate_def split: MeasurementKind.split)

lemma good_publish [op_good]:
  assumes "publish_measurement k m w b e = Some (r, e')"
  shows "good_step e e'"
proof (cases "e' = e")
  case False
  then obtain d ms where d: "um_find (cf_domains e) k = Some d" "measurements_put m (d_measurements d) = Some ms"
      and e': "e' = set_domain e k (record_rate m w b ((clear_revalidation d)\<lparr>d_measurements := ms\<rparr>))"
    using assms by (auto simp: publish_measurement_def Let_def split: if_splits option.splits)
  show ?thesis
    unfolding e' by (rule good_set_domain [OF d(1)])
      (use measurements_put_length [OF d(2)] in \<open>auto simp: domain_ok_def\<close>)
qed simp

lemma episode_step_keeps:
  "d_ref (snd (episode_step l n now st q d)) = d_ref d"
  "d_capacity (snd (episode_step l n now st q d)) = d_capacity d"
  "d_measurements (snd (episode_step l n now st q d)) = d_measurements d"
  "d_flows (snd (episode_step l n now st q d)) = d_flows d"
  "d_state (snd (episode_step l n now st q d)) = d_state d"
  by (simp_all add: episode_step_def Let_def)

lemma good_recompute [op_good]: "good_step e (snd (recompute_domain k now e))"
proof (cases "um_find (cf_domains e) k")
  case (Some d)
  then show ?thesis
    by (simp add: recompute_domain_def Let_def case_prod_unfold)
      (intro conjI impI good_counters(2) good_set_domain [OF Some]; simp add: domain_ok_def episode_step_keeps)
qed (simp add: recompute_domain_def)

lemma good_apply_shaping [op_good]: "good_step e (snd (apply_local_shaping k a e))"
  by (auto simp: apply_local_shaping_def domain_ok_def split: option.split intro!: good_set_domain)

subsection \<open>Flows\<close>

lemma find_flow_SomeD:
  "find_flow fm ref = Some f \<Longrightarrow> um_find fm (ref_id ref) = Some f \<and> ref_gen (fl_ref f) = ref_gen ref"
  by (auto simp: find_flow_def split: option.splits if_splits)

lemma good_declare_flow [op_good]: "good_step e (snd (declare_flow opts now e))"
proof -
  let ?k = "Id (cf_next_flow e)"
  have new: "flow_ok (flow_of_options ?k now opts)" "flow_exact (flow_of_options ?k now opts)"
    by (simp_all add: flow_of_options_def flow_inv_defs)
  let ?e0 = "e\<lparr>cf_next_flow := cf_next_flow e + 1\<rparr>"
  have "good_step e ?e0" by (intro good_counters) simp
  also have "good_step ?e0 (?e0\<lparr>cf_flows := um_emplace (cf_flows ?e0) ?k (flow_of_options ?k now opts)\<rparr>)"
    by (rule good_flows)
      (use new in \<open>auto simp: map_grows_def engine_inv_def flow_of_options_def split: option.splits if_splits\<close>)
  finally have "good_step e (?e0\<lparr>cf_flows := um_emplace (cf_flows ?e0) ?k (flow_of_options ?k now opts),
      cf_active_flows := a, cf_flow_history := h\<rparr>)" for a h
    by (intro good_counters)
  then show ?thesis by (simp add: declare_flow_def Let_def)
qed

lemma good_on_flow:
  assumes "\<And>f. flow_ok f \<Longrightarrow> flow_ok (snd (body f)) \<and> flow_evolves f (snd (body f)) \<and>
    (flow_exact f \<longrightarrow> flow_exact (snd (body f))) \<and> fl_ref (snd (body f)) = fl_ref f"
  shows "good_step e (snd (on_flow ref body e))"
  using assms
  by (auto simp: on_flow_def split: option.split prod.split dest!: find_flow_SomeD
      intro!: good_set_flow) (metis snd_conv)+

lemma good_release_slot: "good_step e (snd r) \<Longrightarrow> good_step e (snd (release_slot r))"
  by (cases r) (simp add: release_slot_def good_counters)

lemma good_flow_progress [op_good]: "good_step e (snd (flow_progress ref boot n now e))"
  unfolding flow_progress_def using progress.invariants by (intro good_on_flow) simp

lemma good_flow_complete [op_good]: "good_step e (snd (flow_complete ref boot now e))"
  unfolding flow_complete_def using complete.invariants by (intro good_release_slot good_on_flow) simp

lemma good_flow_cancel [op_good]: "good_step e (snd (flow_cancel ref boot n now e))"
  unfolding flow_cancel_def using cancel.invariants by (intro good_release_slot good_on_flow) simp

lemma good_flow_fail [op_good]: "good_step e (snd (flow_fail ref boot now e))"
  unfolding flow_fail_def using fail.invariants by (intro good_release_slot good_on_flow) simp

lemma good_revalidate_flow [op_good]: "good_step e (snd (revalidate_flow ref boot e))"
  unfolding revalidate_flow_def using revalidate.invariants by (intro good_on_flow) simp

lemma good_advance_flow_generation [op_good]: "good_step e (snd (advance_flow_generation ref nxt e))"
proof (cases "um_find (cf_flows e) (ref_id ref)")
  case (Some f)
  let ?g = "f\<lparr>fl_ref := EntityRef (ref_id (fl_ref f)) nxt,
    fl_state := (if fl_state f = FS_STALE then FS_REVALIDATION_REQUIRED else fl_state f)\<rparr>"
  have "flow_ok ?g \<and> flow_evolves f ?g \<and> (flow_exact f \<longrightarrow> flow_exact ?g)"
    if "ref_gen (fl_ref f) \<le> nxt" "flow_ok f"
    using that by (cases "fl_state f = FS_STALE") (simp_all add: flow_inv_defs)
  then show ?thesis
    using good_set_flow [OF Some, of ?g] Some
    by (auto simp: advance_flow_generation_def less_eq_Generation_def)
qed (simp add: advance_flow_generation_def)

lemma good_queue_flow [op_good]: "good_step e (snd (queue_flow ref e))"
proof (cases "find_flow (cf_flows e) ref")
  case (Some f)
  let ?g = "f\<lparr>fl_state := FS_QUEUED\<rparr>"
  have "flow_ok ?g \<and> flow_evolves f ?g \<and> (flow_exact f \<longrightarrow> flow_exact ?g)"
    if "flow_transition_allowed (fl_state f) FS_QUEUED" "flow_ok f"
  proof -
    have "fl_state f = FS_ADMITTED" using that(1) by (cases "fl_state f") auto
    then show ?thesis using that(2) by (simp add: flow_inv_defs)
  qed
  then show ?thesis
    using good_set_flow [of e "ref_id ref" f ?g] find_flow_SomeD [OF Some] Some
    by (auto simp: queue_flow_def split: option.split)
qed (simp add: queue_flow_def)

lemma good_start_flow [op_good]: "good_step e (snd (start_flow ref boot now e))"
proof (cases "find_flow (cf_flows e) ref")
  case (Some f)
  let ?g = "snd (start_body boot now f)"
  have flow: "good_step e (set_flow e (ref_id ref) ?g)"
    using find_flow_SomeD [OF Some] start.invariants by (intro good_set_flow) auto
  have "good_step (set_flow e (ref_id ref) ?g)
      (set_domain (set_flow e (ref_id ref) ?g) k (clear_revalidation d))"
    if "um_find (cf_domains e) k = Some d" for k d
    using that by (intro good_set_domain) (auto simp: domain_ok_def)
  then show ?thesis
    using flow Some by (auto simp: start_flow_def split: option.split prod.split intro: good_step_trans)
qed (simp add: start_flow_def)

text \<open>Admission binds the flow to its domain; it was not bound before, because a bound flow is
  no longer in the declared state.\<close>

lemma admit_flow_cases:
  assumes "engine_inv e"
  shows "admit_flow ref e = (False, e) \<or>
    (\<exists>f d. find_flow (cf_flows e) ref = Some f \<and> fl_state f = FS_DECLARED \<and>
      um_find (cf_domains e) (ref_id (fl_domain f)) = Some d \<and>
      admit_flow ref e = (True, set_domain
        (set_flow e (ref_id ref) (f\<lparr>admitted_bytes := submitted_bytes f, fl_state := FS_ADMITTED\<rparr>))
        (ref_id (fl_domain f)) (d\<lparr>d_flows := d_flows d @ [ref]\<rparr>)))"
proof (cases "find_flow (cf_flows e) ref")
  case (Some f)
  then have ok: "flow_ok f" using assms by (auto simp: engine_inv_def dest: find_flow_SomeD)
  show ?thesis
  proof (cases "flow_transition_allowed (fl_state f) FS_ADMITTED")
    case True
    then have st: "fl_state f = FS_DECLARED" using ok by (cases "fl_state f") (auto simp: flow_ok_def)
    show ?thesis
      using Some True st admit_body_ok [OF ok st] by (simp add: admit_flow_def split: option.split)
  qed (simp add: admit_flow_def Some)
qed (simp add: admit_flow_def)

lemma good_admit_flow [op_good]: "good_step e (snd (admit_flow ref e))"
proof (cases "engine_inv e \<and> admit_flow ref e \<noteq> (False, e)")
  case True
  then obtain f d where f: "find_flow (cf_flows e) ref = Some f" "fl_state f = FS_DECLARED"
      and d: "um_find (cf_domains e) (ref_id (fl_domain f)) = Some d"
      and e': "snd (admit_flow ref e) = set_domain
        (set_flow e (ref_id ref) (f\<lparr>admitted_bytes := submitted_bytes f, fl_state := FS_ADMITTED\<rparr>))
        (ref_id (fl_domain f)) (d\<lparr>d_flows := d_flows d @ [ref]\<rparr>)"
    using admit_flow_cases [of e ref] by fastforce
  let ?g = "f\<lparr>admitted_bytes := submitted_bytes f, fl_state := FS_ADMITTED\<rparr>"
  let ?e1 = "set_flow e (ref_id ref) ?g"
  have idx: "um_find (cf_flows e) (ref_id ref) = Some f" using find_flow_SomeD [OF f(1)] by simp
  have ok: "flow_ok f" using True idx by (auto simp: engine_inv_def)
  have g1: "good_step e ?e1"
    using admit.invariants [of f] admit_body_ok [OF ok f(2)] f(2) by (intro good_set_flow [OF idx]) simp
  have s1: "engine_inv ?e1" "engine_evolves e ?e1" "engine_exact e \<Longrightarrow> engine_exact ?e1"
    using g1 True by (simp_all add: good_step_def)
  have bind: "bound_to (cf_flows ?e1) (ref_id (fl_domain f)) (d_flows d @ [ref])" if "engine_exact e"
  proof -
    have "bound_to (cf_flows e) (ref_id (fl_domain f)) (d_flows d)" using that d by (simp add: engine_exact_def)
    then have "ref_id ref \<notin> ref_id ` set (d_flows d)" using idx f(2) by (force simp: bound_to_def)
    moreover have "bound_to (cf_flows ?e1) (ref_id (fl_domain f)) (d_flows d)"
      using s1(3) [OF that] d by (simp add: engine_exact_def)
    ultimately show ?thesis by (simp add: bound_to_def)
  qed
  have "engine_inv (snd (admit_flow ref e))"
    using s1(1) d by (auto simp: e' engine_inv_def domain_ok_def)
  moreover have "engine_evolves e (snd (admit_flow ref e))"
    using s1(2) by (simp add: e' engine_evolves_def)
  moreover have "engine_exact (snd (admit_flow ref e))" if "engine_exact e"
    using s1(3) [OF that] bind [OF that] by (simp add: e' engine_exact_def)
  ultimately show ?thesis by (simp add: good_step_def)
qed (auto simp: good_step_def)

end
