(* ===== verification/Bytes.thy ===== *)
theory Bytes
  imports Prelude "HOL-Library.Monad_Syntax"
begin

text \<open>
  The binary persistence primitives: \<^verbatim>\<open>include/congestion_fabric/persistence.hpp\<close>. A
  \<^verbatim>\<open>Writer\<close> is the list of bytes written so far, so a write is the list it appends. A
  \<^verbatim>\<open>Reader\<close> is the list of bytes not read yet; \<open>None\<close> is a thrown \<^verbatim>\<open>CorruptError\<close>, whose
  message no caller looks at. The locale \<open>codec\<close> is the contract of a writer and its reader.
\<close>

section \<open>Checksum\<close>

definition crc_bit :: "u32 \<Rightarrow> u32" where
  "crc_bit crc = (let mask = - (crc AND 1) in drop_bit 1 crc XOR (0xEDB88320 AND mask))"

definition crc_byte :: "u8 \<Rightarrow> u32 \<Rightarrow> u32" where
  "crc_byte b crc = (crc_bit ^^ 8) (crc XOR ucast b)"

definition crc32_seeded :: "u8 list \<Rightarrow> u32 \<Rightarrow> u32" where
  "crc32_seeded data seed = NOT (fold crc_byte data (NOT seed))"

definition crc32 :: "u8 list \<Rightarrow> u32" where
  "crc32 data = crc32_seeded data 0"

lemma crc_bit_alt: "crc_bit c = (if odd c then drop_bit 1 c XOR 0xEDB88320 else drop_bit 1 c)"
  by (simp add: crc_bit_def and_one_eq mod_2_eq_odd)

lemma crc_bit_top: "bit (crc_bit c) 31 \<longleftrightarrow> odd c"
proof -
  have "\<not> bit (drop_bit 1 c) 31"
    using bit_imp_le_length [of c 32] by (auto simp: bit_drop_bit_eq)
  moreover have "bit (0xEDB88320 :: u32) 31" by simp
  ultimately show ?thesis by (simp add: crc_bit_alt bit_xor_iff)
qed

lemma xor_cancel_word: "(a XOR c = b XOR c) \<longleftrightarrow> a = (b :: 'a::len word)"
  by (metis xor.assoc xor.right_neutral xor_self_eq)

lemma crc_bit_linear: "crc_bit (a XOR b) = crc_bit a XOR crc_bit b"
proof -
  have "odd (a XOR b) \<longleftrightarrow> odd a \<noteq> odd b" by (simp add: even_xor_iff)
  then show ?thesis
    by (simp add: crc_bit_alt drop_bit_xor ac_simps)
qed

lemma crc_bits_linear: "(crc_bit ^^ n) (a XOR b) = (crc_bit ^^ n) a XOR (crc_bit ^^ n) b"
  by (induction n) (simp_all add: crc_bit_linear)

lemma crc_bit_inj: "inj crc_bit"
proof (rule injI)
  fix a b assume eq: "crc_bit a = crc_bit b"
  then have par: "odd a = odd b" using crc_bit_top [of a] crc_bit_top [of b] by simp
  have "drop_bit 1 a = drop_bit 1 b"
    using eq par by (cases "odd a") (simp_all add: crc_bit_alt xor_cancel_word)
  then have "a div 2 = b div 2" by (simp add: drop_bit_eq_div)
  moreover have "a mod 2 = b mod 2" using par by (simp only: mod_2_eq_odd)
  ultimately show "a = b" by (metis mult_div_mod_eq)
qed

lemma crc_bits_inj: "inj (crc_bit ^^ n)"
  by (rule inj_fn [OF crc_bit_inj])

lemma crc_byte_inj_state: "crc_byte b c = crc_byte b d \<longleftrightarrow> c = d"
  using inj_eq [OF crc_bits_inj] by (simp add: crc_byte_def xor_cancel_word)

lemma fold_crc_inj: "fold crc_byte xs c = fold crc_byte xs d \<longleftrightarrow> c = d"
  by (induction xs arbitrary: c d) (simp_all add: crc_byte_inj_state)

text \<open>Up to four bytes act on the register as one word, so they determine it.\<close>

lemma crc_bits_shift: "(\<And>i. i < n \<Longrightarrow> \<not> bit w i) \<Longrightarrow> (crc_bit ^^ n) w = drop_bit n w"
proof (induction n arbitrary: w)
  case (Suc n)
  have "even w" using Suc.prems [of 0] by (simp add: bit_0)
  then have "crc_bit w = drop_bit 1 w" by (simp add: crc_bit_alt)
  moreover have "(crc_bit ^^ n) (drop_bit 1 w) = drop_bit n (drop_bit 1 w)"
    using Suc.prems by (intro Suc.IH) (simp add: bit_drop_bit_eq)
  ultimately show ?case by (simp add: funpow_swap1 del: funpow.simps(2) add: funpow_Suc_right)
qed simp

fun le_val :: "u8 list \<Rightarrow> u32" where
  "le_val [] = 0"
| "le_val (b # bs) = ucast b XOR push_bit 8 (le_val bs)"

lemma le_val_bits: "bit (le_val bs) i \<Longrightarrow> i < 8 * length bs"
proof (induction bs arbitrary: i)
  case (Cons b bs)
  then show ?case
    by (auto simp: bit_xor_iff bit_push_bit_iff bit_ucast_iff dest: bit_imp_le_length dest!: Cons.IH)
qed simp

lemma le_val_shift: "length bs < 4 \<Longrightarrow> drop_bit 8 (push_bit 8 (le_val bs)) = le_val bs"
  by (rule bit_eqI) (auto simp: bit_drop_bit_eq bit_push_bit_iff dest: le_val_bits)

lemma fold_crc_word:
  "length bs \<le> 4 \<Longrightarrow> fold crc_byte bs c = (crc_bit ^^ (8 * length bs)) (c XOR le_val bs)"
proof (induction bs arbitrary: c)
  case (Cons b bs)
  have shift: "(crc_bit ^^ 8) (push_bit 8 (le_val bs)) = le_val bs"
    using Cons.prems by (subst crc_bits_shift) (auto simp: bit_push_bit_iff le_val_shift)
  have "fold crc_byte (b # bs) c = (crc_bit ^^ (8 * length bs)) (crc_byte b c XOR le_val bs)"
    using Cons by simp
  also have "crc_byte b c XOR le_val bs = (crc_bit ^^ 8) (c XOR le_val (b # bs))"
    by (simp add: crc_byte_def crc_bits_linear shift ac_simps)
  finally show ?case
    by (metis add.commute comp_apply funpow_add length_Cons mult_Suc_right)
qed simp

lemma le_val_inj: "length as = length bs \<Longrightarrow> length as \<le> 4 \<Longrightarrow> le_val as = le_val bs \<Longrightarrow> as = bs"
proof (induction as bs rule: list_induct2)
  case (Cons a as b bs)
  have eq: "bit (ucast a :: u32) i \<noteq> bit (push_bit 8 (le_val as)) i \<longleftrightarrow>
      bit (ucast b :: u32) i \<noteq> bit (push_bit 8 (le_val bs)) i" for i
    using Cons.prems(2) by (metis bit_xor_iff le_val.simps(2))
  have "a = b"
  proof (rule bit_word_eqI)
    fix i assume "i < LENGTH(8)"
    then show "bit a i = bit b i" using eq [of i] by (simp add: bit_push_bit_iff bit_ucast_iff)
  qed
  moreover have "push_bit 8 (le_val as) = push_bit 8 (le_val bs)"
    using Cons.prems(2) calculation by (metis le_val.simps(2) xor.commute xor_cancel_word)
  then have "le_val as = le_val bs"
    by (rule box_equals [OF arg_cong [of _ _ "drop_bit 8"] le_val_shift le_val_shift])
      (use Cons.hyps Cons.prems(1) in simp_all)
  ultimately show ?case using Cons by simp
qed simp

section \<open>Writer\<close>

definition wr_u8 :: "u8 \<Rightarrow> u8 list" where
  "wr_u8 v = [v]"

definition le_bytes :: "nat \<Rightarrow> 'a::len word \<Rightarrow> u8 list" where
  "le_bytes n v = map (\<lambda>i. ucast (drop_bit (8 * i) v AND 0xFF)) [0..<n]"

definition wr_u16 :: "u16 \<Rightarrow> u8 list" where
  "wr_u16 v = le_bytes 2 v"

definition wr_u32 :: "u32 \<Rightarrow> u8 list" where
  "wr_u32 v = le_bytes 4 v"

definition wr_u64 :: "u64 \<Rightarrow> u8 list" where
  "wr_u64 v = le_bytes 8 v"

definition wr_str :: "string \<Rightarrow> u8 list" where
  "wr_str s = wr_u64 (of_nat (length s)) @ map (\<lambda>c. of_nat (of_char c)) s"

section \<open>Reader\<close>

text \<open>A condition that throws when it fails.\<close>

definition check :: "bool \<Rightarrow> unit option" where
  "check b = (if b then Some () else None)"

definition kMaxStringBytes :: u64 where
  "kMaxStringBytes = 0x1000000"

fun rd_u8 :: "u8 list \<Rightarrow> (u8 \<times> u8 list) option" where
  "rd_u8 [] = None"
| "rd_u8 (b # bs) = Some (b, bs)"

text \<open>The loop of the multi-byte reads: byte \<open>i\<close> is shifted into place and or-ed in.\<close>

fun rd_le :: "nat \<Rightarrow> nat \<Rightarrow> 'a::len word \<Rightarrow> u8 list \<Rightarrow> ('a word \<times> u8 list) option" where
  "rd_le i 0 v bs = Some (v, bs)"
| "rd_le i (Suc n) v bs = (case rd_u8 bs of None \<Rightarrow> None
     | Some (b, bs') \<Rightarrow> rd_le (Suc i) n (v OR push_bit (8 * i) (ucast b)) bs')"

definition rd_u16 :: "u8 list \<Rightarrow> (u16 \<times> u8 list) option" where
  "rd_u16 bs = rd_le 0 2 0 bs"

definition rd_u32 :: "u8 list \<Rightarrow> (u32 \<times> u8 list) option" where
  "rd_u32 bs = rd_le 0 4 0 bs"

definition rd_u64 :: "u8 list \<Rightarrow> (u64 \<times> u8 list) option" where
  "rd_u64 bs = rd_le 0 8 0 bs"

definition rd_raw :: "nat \<Rightarrow> u8 list \<Rightarrow> (u8 list \<times> u8 list) option" where
  "rd_raw n bs = (if n > length bs then None else Some (take n bs, drop n bs))"

definition rd_str :: "u8 list \<Rightarrow> (string \<times> u8 list) option" where
  "rd_str bs = do {
     (n, bs) \<leftarrow> rd_u64 bs;
     if n > kMaxStringBytes then None
     else do { (raw, bs) \<leftarrow> rd_raw (unat n) bs; Some (map (\<lambda>b. char_of (unat b)) raw, bs) } }"

definition bounded_count :: "u64 \<Rightarrow> u8 list \<Rightarrow> (u64 \<times> u8 list) option" where
  "bounded_count bnd bs = do { (n, bs) \<leftarrow> rd_u64 bs; if n > bnd then None else Some (n, bs) }"

text \<open>A counted loop that reads one element per iteration.\<close>

fun rd_many :: "nat \<Rightarrow> (u8 list \<Rightarrow> ('a \<times> u8 list) option) \<Rightarrow> u8 list \<Rightarrow> ('a list \<times> u8 list) option" where
  "rd_many 0 dec bs = Some ([], bs)"
| "rd_many (Suc n) dec bs = (case dec bs of None \<Rightarrow> None
     | Some (x, bs') \<Rightarrow> (case rd_many n dec bs' of None \<Rightarrow> None | Some (xs, bs'') \<Rightarrow> Some (x # xs, bs'')))"

lemma check_simps [simp]: "check True = Some ()" "check False = None" "check b = Some () \<longleftrightarrow> b"
  "check b = Some u \<longleftrightarrow> b"
  by (simp_all add: check_def)

section \<open>The contract of a codec\<close>

text \<open>What a writer and its reader promise: on an acceptable value the reader gives back the
  value, up to the parts that are not persisted (\<open>norm\<close>), and exactly the bytes that follow.\<close>

locale codec =
  fixes enc :: "'a \<Rightarrow> u8 list" and dec :: "u8 list \<Rightarrow> ('a \<times> u8 list) option"
    and ok :: "'a \<Rightarrow> bool" and norm :: "'a \<Rightarrow> 'a"
  assumes round: "ok x \<Longrightarrow> dec (enc x @ bs) = Some (norm x, bs)"
begin

lemma round_many:
  "list_all ok xs \<Longrightarrow> rd_many (length xs) dec (concat (map enc xs) @ bs) = Some (map norm xs, bs)"
  by (induction xs) (simp_all add: round)

lemma prefix_free:
  "ok x \<Longrightarrow> ok y \<Longrightarrow> enc x @ bs = enc y @ cs \<Longrightarrow> norm x = norm y \<and> bs = cs"
  using round [of x bs] round [of y cs] by simp

end

lemma rd_le_step:
  fixes v :: "'a::len word"
  shows "take_bit (8 * i) v OR push_bit (8 * i) (ucast (ucast (drop_bit (8 * i) v AND 0xFF) :: u8)) =
    take_bit (8 * Suc i) v"
proof (rule bit_eqI)
  fix n assume "possible_bit TYPE('a word) n"
  then have n: "n < LENGTH('a)" by simp
  have ff: "bit (0xFF :: int) m \<longleftrightarrow> m < 8" for m
    using bit_mask_iff [of 8 m, where ?'a = int] by (simp add: mask_eq_exp_minus_1)
  show "bit (take_bit (8 * i) v OR push_bit (8 * i) (ucast (ucast (drop_bit (8 * i) v AND 0xFF) :: u8))) n =
    bit (take_bit (8 * Suc i) v) n"
    using n by (auto simp: bit_or_iff bit_take_bit_iff bit_push_bit_iff bit_ucast_iff bit_and_iff
        bit_drop_bit_eq ff dest: bit_imp_le_length)
qed

lemma rd_le_bytes:
  "rd_le i n (take_bit (8 * i) v) (map (\<lambda>i. ucast (drop_bit (8 * i) v AND 0xFF)) [i..<i + n] @ bs) =
    Some (take_bit (8 * (i + n)) v, bs)"
proof (induction n arbitrary: i)
  case (Suc n)
  have "[i..<i + Suc n] = i # [Suc i..<Suc i + n]" by (simp add: upt_conv_Cons)
  then show ?case using Suc.IH [of "Suc i"] by (simp add: rd_le_step)
qed simp

lemma rd_le_bytes_all:
  assumes "LENGTH('a::len) = 8 * n"
  shows "rd_le 0 n 0 (le_bytes n (v :: 'a word) @ bs) = Some (v, bs)"
  using rd_le_bytes [of 0 n v bs] assms by (simp add: le_bytes_def take_bit_word_eq_self)

interpretation c_u8: codec wr_u8 rd_u8 "\<lambda>_. True" id
  by unfold_locales (simp add: wr_u8_def)

interpretation c_u16: codec wr_u16 rd_u16 "\<lambda>_. True" id
  by unfold_locales (simp add: wr_u16_def rd_u16_def rd_le_bytes_all)

interpretation c_u32: codec wr_u32 rd_u32 "\<lambda>_. True" id
  by unfold_locales (simp add: wr_u32_def rd_u32_def rd_le_bytes_all)

interpretation c_u64: codec wr_u64 rd_u64 "\<lambda>_. True" id
  by unfold_locales (simp add: wr_u64_def rd_u64_def rd_le_bytes_all)

lemma rd_raw_append: "n = length xs \<Longrightarrow> rd_raw n (xs @ bs) = Some (xs, bs)"
  by (simp add: rd_raw_def)

lemma char_byte [simp]: "char_of (unat (of_nat (of_char c) :: u8)) = c"
  by (simp add: unat_of_nat)

lemma unat_u64_of_nat: "n < 2 ^ 64 \<Longrightarrow> unat (of_nat n :: u64) = n"
  by (simp add: unat_of_nat)

definition str_ok :: "string \<Rightarrow> bool" where
  "str_ok s \<longleftrightarrow> length s \<le> 2 ^ 24"

interpretation c_str: codec wr_str rd_str str_ok id
proof
  fix s bs assume "str_ok s"
  then have len: "length s \<le> 2 ^ 24" by (simp add: str_ok_def)
  then have "unat (of_nat (length s) :: u64) = length s"
    by (intro unat_u64_of_nat) (simp add: le_less_trans)
  moreover have "\<not> (of_nat (length s) :: u64) > kMaxStringBytes"
    using len calculation by (simp add: kMaxStringBytes_def word_less_nat_alt)
  ultimately show "rd_str (wr_str s @ bs) = Some (id s, bs)"
    using c_u64.round [of "of_nat (length s)" "map (\<lambda>c. of_nat (of_char c)) s @ bs"]
    by (simp add: rd_str_def wr_str_def rd_raw_append comp_def)
qed

lemma bounded_count_round:
  "n \<le> unat b \<Longrightarrow> bounded_count b (wr_u64 (of_nat n) @ bs) = Some (of_nat n, bs) \<and> unat (of_nat n :: u64) = n"
  using unat_u64_bound [of b] c_u64.round [of "of_nat n" bs]
  by (simp add: bounded_count_def word_less_nat_alt unat_u64_of_nat)

lemmas prim_round [codec_rt] = c_u8.round [simplified] c_u16.round [simplified] c_u32.round [simplified]
  c_u64.round [simplified] c_str.round [simplified]

end
