(* ===== verification/Persist.thy ===== *)
theory Persist
  imports EngineInv Bytes
begin

text \<open>
  Durable state: the serializers of \<^verbatim>\<open>src/engine.cpp\<close> and \<^verbatim>\<open>CongestionFabric::save\<close> and
  \<^verbatim>\<open>load\<close>. A file is its list of bytes; \<open>save_file\<close> is what \<^verbatim>\<open>save\<close> hands to the stream, and
  the argument of \<open>load\<close> is what the stream delivers, \<open>None\<close> when the file cannot be read.
  The host is little endian, as the checksum over the length field assumes. Maps are written in
  iteration order and rebuilt in file order.
\<close>

section \<open>Primitive serializers\<close>

definition wr_id :: "'t Id \<Rightarrow> u8 list" where
  "wr_id x = wr_u64 (idv x)"

definition rd_id :: "u8 list \<Rightarrow> ('t Id \<times> u8 list) option" where
  "rd_id bs = do { (v, bs) \<leftarrow> rd_u64 bs; Some (Id v, bs) }"

definition wr_gen :: "'t Generation \<Rightarrow> u8 list" where
  "wr_gen g = wr_u64 (genv g)"

definition rd_gen :: "u8 list \<Rightarrow> ('t Generation \<times> u8 list) option" where
  "rd_gen bs = do { (v, bs) \<leftarrow> rd_u64 bs; Some (Generation v, bs) }"

definition wr_ref :: "'t EntityRef \<Rightarrow> u8 list" where
  "wr_ref r = wr_id (ref_id r) @ wr_gen (ref_gen r)"

definition rd_ref :: "u8 list \<Rightarrow> ('t EntityRef \<times> u8 list) option" where
  "rd_ref bs = do { (i, bs) \<leftarrow> rd_id bs; (g, bs) \<leftarrow> rd_gen bs; Some (EntityRef i g, bs) }"

definition wr_bool :: "bool \<Rightarrow> u8 list" where
  "wr_bool b = wr_u8 (if b then 1 else 0)"

definition rd_bool :: "u8 list \<Rightarrow> (bool \<times> u8 list) option" where
  "rd_bool bs = do { (u, bs) \<leftarrow> rd_u8 bs; Some (u \<noteq> 0, bs) }"

text \<open>A byte, its range check and the cast: the shape of every enum reader.\<close>

definition rd_enum :: "(u8 \<Rightarrow> bool) \<Rightarrow> (u8 \<Rightarrow> 'e) \<Rightarrow> u8 list \<Rightarrow> ('e \<times> u8 list) option" where
  "rd_enum valid of_u8 bs = do { (u, bs) \<leftarrow> rd_u8 bs; check (valid u); Some (of_u8 u, bs) }"

definition rd_flow_state :: "u8 list \<Rightarrow> (FlowState \<times> u8 list) option" where
  "rd_flow_state bs = rd_enum flow_state_valid FlowState_of_u8 bs"

definition rd_domain_kind :: "u8 list \<Rightarrow> (DomainKind \<times> u8 list) option" where
  "rd_domain_kind bs = rd_enum domain_kind_valid DomainKind_of_u8 bs"

definition rd_traffic_class :: "u8 list \<Rightarrow> (TrafficClass \<times> u8 list) option" where
  "rd_traffic_class bs = rd_enum traffic_class_valid TrafficClass_of_u8 bs"

definition rd_prov :: "u8 list \<Rightarrow> (MeasurementProvenance \<times> u8 list) option" where
  "rd_prov bs = rd_enum provenance_valid MeasurementProvenance_of_u8 bs"

definition wr_rate :: "Rate \<Rightarrow> u8 list" where
  "wr_rate x = wr_u8 (BandwidthKind_to_u8 (rate_kind x)) @ wr_u8 (MeasurementProvenance_to_u8 (rate_prov x)) @
     wr_u64 (rate_bps x) @ wr_gen (rate_gen x)"

definition rd_rate :: "u8 list \<Rightarrow> (Rate \<times> u8 list) option" where
  "rd_rate bs = do {
     (k, bs) \<leftarrow> rd_enum bandwidth_kind_valid BandwidthKind_of_u8 bs;
     (p, bs) \<leftarrow> rd_enum provenance_valid MeasurementProvenance_of_u8 bs;
     (v, bs) \<leftarrow> rd_u64 bs;
     (g, bs) \<leftarrow> rd_gen bs;
     let x = \<lparr>rate_bps = v, rate_kind = k, rate_prov = p, rate_gen = g\<rparr>;
     check (is_finite_nonneg x);
     Some (x, bs) }"

definition wr_capacity :: "CapacityProfile \<Rightarrow> u8 list" where
  "wr_capacity c = wr_rate (theoretical c) @ wr_rate (configured c) @ wr_rate (measured_service c) @
     wr_rate (reserved c) @ wr_gen (cap_generation c)"

definition rd_capacity :: "u8 list \<Rightarrow> (CapacityProfile \<times> u8 list) option" where
  "rd_capacity bs = do {
     (theo, bs) \<leftarrow> rd_rate bs;
     (conf, bs) \<leftarrow> rd_rate bs;
     (meas, bs) \<leftarrow> rd_rate bs;
     (res, bs) \<leftarrow> rd_rate bs;
     (cg, bs) \<leftarrow> rd_gen bs;
     Some (\<lparr>theoretical = theo, configured = conf, measured_service = meas, reserved = res,
            cap_generation = cg\<rparr>, bs) }"

definition wr_fairness :: "FairnessConfig \<Rightarrow> u8 list" where
  "wr_fairness f = wr_u8 (FairnessModel_to_u8 (fc_model f)) @ wr_u64 (fc_weight f) @
     wr_u64 (fc_minimum_guarantee_bps f) @ wr_u64 (fc_cap_bps f) @
     wr_bool (fc_latency_critical_protected f) @ wr_gen (fc_policy_generation f)"

text \<open>The fairness reader of \<^verbatim>\<open>rd_flow\<close> casts the model byte unchecked; the one of \<^verbatim>\<open>load\<close>
  for a domain's default checks it.\<close>

definition rd_fairness :: "(u8 \<Rightarrow> bool) \<Rightarrow> u8 list \<Rightarrow> (FairnessConfig \<times> u8 list) option" where
  "rd_fairness valid bs = do {
     (m, bs) \<leftarrow> rd_enum valid FairnessModel_of_u8 bs;
     (w, bs) \<leftarrow> rd_u64 bs;
     (mg, bs) \<leftarrow> rd_u64 bs;
     (cap, bs) \<leftarrow> rd_u64 bs;
     (lc, bs) \<leftarrow> rd_bool bs;
     (pg, bs) \<leftarrow> rd_gen bs;
     Some (\<lparr>fc_model = m, fc_weight = w, fc_minimum_guarantee_bps = mg, fc_cap_bps = cap,
            fc_latency_critical_protected = lc, fc_policy_generation = pg\<rparr>, bs) }"

definition wr_measurement :: "Measurement \<Rightarrow> u8 list" where
  "wr_measurement m = wr_u8 (MeasurementKind_to_u8 (m_kind m)) @ wr_u64 (m_value m) @
     wr_u8 (MeasurementProvenance_to_u8 (m_provenance m)) @ wr_gen (m_generation m) @
     wr_u64 (m_timestamp_ms m) @ wr_u64 (m_confidence m)"

definition rd_measurement :: "u8 list \<Rightarrow> (Measurement \<times> u8 list) option" where
  "rd_measurement bs = do {
     (k, bs) \<leftarrow> rd_enum measurement_kind_valid MeasurementKind_of_u8 bs;
     (v, bs) \<leftarrow> rd_u64 bs;
     (p, bs) \<leftarrow> rd_prov bs;
     (g, bs) \<leftarrow> rd_gen bs;
     (t, bs) \<leftarrow> rd_u64 bs;
     (c, bs) \<leftarrow> rd_u64 bs;
     Some (\<lparr>m_kind = k, m_value = v, m_provenance = p, m_generation = g, m_timestamp_ms = t,
            m_confidence = c\<rparr>, bs) }"

definition wr_bytes :: "ByteCounter \<Rightarrow> u8 list" where
  "wr_bytes b = wr_u64 (bc_value b)"

definition rd_bytes :: "u8 list \<Rightarrow> (ByteCounter \<times> u8 list) option" where
  "rd_bytes bs = do { (v, bs) \<leftarrow> rd_u64 bs; Some (ByteCounter v, bs) }"

section \<open>Flows\<close>

definition wr_flow :: "Flow \<Rightarrow> u8 list" where
  "wr_flow f = wr_ref (fl_ref f) @ wr_id (fl_owner_worker f) @ wr_gen (fl_owner_boot f) @
     wr_id (fl_source f) @ wr_gen (fl_source_boot f) @ wr_ref (fl_workload f) @ wr_ref (fl_execution f) @
     wr_u8 (TrafficClass_to_u8 (fl_traffic_class f)) @ wr_ref (fl_domain f) @ wr_ref (fl_path f) @
     wr_u8 (FlowState_to_u8 (fl_state f)) @
     wr_bytes (expected_bytes f) @ wr_bytes (submitted_bytes f) @ wr_bytes (admitted_bytes f) @
     wr_bytes (in_flight_bytes f) @ wr_bytes (completed_bytes f) @ wr_bytes (failed_bytes f) @
     wr_bytes (cancelled_bytes f) @
     wr_u64 (fl_declared_ms f) @ wr_u64 (fl_started_ms f) @ wr_u64 (fl_last_progress_ms f) @
     wr_u64 (fl_priority f) @ wr_u64 (fl_latency_sensitivity f) @ wr_u64 (fl_throughput_target_bps f) @
     wr_u64 (fl_burst_allowance_bytes f) @ wr_u64 (fl_deadline_ms f) @
     wr_fairness (fl_fairness f) @ wr_u8 (MeasurementProvenance_to_u8 (fl_provenance f)) @
     wr_str (fl_description f)"

definition rd_flow :: "u8 list \<Rightarrow> (Flow \<times> u8 list) option" where
  "rd_flow bs = do {
     (ref, bs) \<leftarrow> rd_ref bs;
     (ow, bs) \<leftarrow> rd_id bs;
     (ob, bs) \<leftarrow> rd_gen bs;
     (src, bs) \<leftarrow> rd_id bs;
     (sb, bs) \<leftarrow> rd_gen bs;
     (wl, bs) \<leftarrow> rd_ref bs;
     (ex, bs) \<leftarrow> rd_ref bs;
     (tc, bs) \<leftarrow> rd_traffic_class bs;
     (dm, bs) \<leftarrow> rd_ref bs;
     (pth, bs) \<leftarrow> rd_ref bs;
     (st, bs) \<leftarrow> rd_flow_state bs;
     (xb, bs) \<leftarrow> rd_bytes bs;
     (sub, bs) \<leftarrow> rd_bytes bs;
     (adm, bs) \<leftarrow> rd_bytes bs;
     (infl, bs) \<leftarrow> rd_bytes bs;
     (cmp, bs) \<leftarrow> rd_bytes bs;
     (fld, bs) \<leftarrow> rd_bytes bs;
     (cnc, bs) \<leftarrow> rd_bytes bs;
     (dms, bs) \<leftarrow> rd_u64 bs;
     (sms, bs) \<leftarrow> rd_u64 bs;
     (pms, bs) \<leftarrow> rd_u64 bs;
     (pri, bs) \<leftarrow> rd_u64 bs;
     (lat, bs) \<leftarrow> rd_u64 bs;
     (thr, bs) \<leftarrow> rd_u64 bs;
     (bur, bs) \<leftarrow> rd_u64 bs;
     (ddl, bs) \<leftarrow> rd_u64 bs;
     (fair, bs) \<leftarrow> rd_fairness (\<lambda>_. True) bs;
     (prov, bs) \<leftarrow> rd_prov bs;
     (desc, bs) \<leftarrow> rd_str bs;
     Some (\<lparr>fl_ref = ref, fl_owner_worker = ow, fl_owner_boot = ob, fl_source = src,
       fl_source_boot = sb, fl_workload = wl, fl_execution = ex, fl_traffic_class = tc,
       fl_domain = dm, fl_path = pth, fl_state = st, expected_bytes = xb, submitted_bytes = sub,
       admitted_bytes = adm, in_flight_bytes = infl, completed_bytes = cmp, failed_bytes = fld,
       cancelled_bytes = cnc, fl_declared_ms = dms, fl_started_ms = sms, fl_last_progress_ms = pms,
       fl_priority = pri, fl_latency_sensitivity = lat, fl_throughput_target_bps = thr,
       fl_burst_allowance_bytes = bur, fl_deadline_ms = ddl, fl_fairness = fair,
       fl_provenance = prov, fl_description = desc\<rparr>, bs) }"

section \<open>Episodes and domains\<close>

definition kMaxCollectionCount :: u64 where
  "kMaxCollectionCount = 0x1000000"

definition wr_episode :: "CongestionEpisode \<Rightarrow> u8 list" where
  "wr_episode e = wr_id (ep_event_id e) @ wr_gen (ep_generation e) @ wr_ref (ep_domain e) @
     wr_u8 (CongestionState_to_u8 (ep_peak_state e)) @ wr_u64 (ep_start_ms e) @ wr_u64 (ep_peak_ms e) @
     wr_u64 (ep_recovery_start_ms e) @ wr_u64 (ep_end_ms e) @ wr_str (ep_trigger e) @
     wr_u64 (ep_peak_backlog_bytes e) @ wr_u64 (ep_service_deficit_bytes e) @
     wr_u64 (of_nat (length (ep_affected_flows e))) @ concat (map wr_id (ep_affected_flows e)) @
     wr_ref (ep_bottleneck e) @ wr_u8 (CongestionState_to_u8 (ep_outcome e)) @ wr_bool (ep_open e)"

text \<open>The episode actions are not persisted.\<close>

definition rd_episode :: "u8 list \<Rightarrow> (CongestionEpisode \<times> u8 list) option" where
  "rd_episode bs = do {
     (ev, bs) \<leftarrow> rd_id bs;
     (g, bs) \<leftarrow> rd_gen bs;
     (dm, bs) \<leftarrow> rd_ref bs;
     (ps, bs) \<leftarrow> rd_enum congestion_state_valid CongestionState_of_u8 bs;
     (sms, bs) \<leftarrow> rd_u64 bs;
     (pms, bs) \<leftarrow> rd_u64 bs;
     (rms, bs) \<leftarrow> rd_u64 bs;
     (ems, bs) \<leftarrow> rd_u64 bs;
     (trg, bs) \<leftarrow> rd_str bs;
     (pb, bs) \<leftarrow> rd_u64 bs;
     (sd, bs) \<leftarrow> rd_u64 bs;
     (naf, bs) \<leftarrow> bounded_count kMaxCollectionCount bs;
     (af, bs) \<leftarrow> rd_many (unat naf) rd_id bs;
     (bn, bs) \<leftarrow> rd_ref bs;
     (oc, bs) \<leftarrow> rd_enum congestion_state_valid CongestionState_of_u8 bs;
     (opn, bs) \<leftarrow> rd_bool bs;
     Some (\<lparr>ep_event_id = ev, ep_generation = g, ep_domain = dm, ep_peak_state = ps,
       ep_start_ms = sms, ep_peak_ms = pms, ep_recovery_start_ms = rms, ep_end_ms = ems,
       ep_trigger = trg, ep_peak_backlog_bytes = pb, ep_service_deficit_bytes = sd,
       ep_affected_flows = af, ep_bottleneck = bn, ep_actions = [], ep_outcome = oc, ep_open = opn\<rparr>, bs) }"

definition rd_closed_episode :: "u8 list \<Rightarrow> (CongestionEpisode \<times> u8 list) option" where
  "rd_closed_episode bs = do { (ep, bs) \<leftarrow> rd_episode bs; check (episode_valid ep); Some (ep, bs) }"

definition wr_measured :: "double \<Rightarrow> MeasurementProvenance \<Rightarrow> u8 list" where
  "wr_measured v p = wr_u64 v @ wr_u8 (MeasurementProvenance_to_u8 p)"

definition rd_measured :: "u8 list \<Rightarrow> ((double \<times> MeasurementProvenance) \<times> u8 list) option" where
  "rd_measured bs = do { (v, bs) \<leftarrow> rd_u64 bs; (p, bs) \<leftarrow> rd_prov bs; Some ((v, p), bs) }"

definition wr_domain :: "CongestionDomain \<Rightarrow> u8 list" where
  "wr_domain d = wr_ref (d_ref d) @ wr_u8 (DomainKind_to_u8 (d_kind d)) @ wr_capacity (d_capacity d) @
     wr_gen (q_generation (d_queue d)) @ wr_u8 (CongestionState_to_u8 (d_state d)) @
     wr_u8 (MeasurementProvenance_to_u8 (d_state_provenance d)) @
     wr_gen (d_backpressure_generation d) @ wr_gen (d_recovery_generation d) @
     wr_fairness (d_default_fairness d) @ wr_u64 (tb_rate (d_shaping d)) @ wr_u64 (tb_capacity (d_shaping d)) @
     wr_measured (d_offered_bps d) (d_offered_provenance d) @
     wr_measured (d_admitted_bps d) (d_admitted_provenance d) @
     wr_measured (d_serviced_bps d) (d_serviced_provenance d) @
     wr_measured (d_utilisation d) (d_utilisation_provenance d) @
     wr_measured (d_effective_bps d) (d_effective_provenance d) @
     wr_measured (d_residual_bps d) (d_residual_provenance d) @
     wr_u64 (of_nat (length (d_flows d))) @ concat (map wr_ref (d_flows d)) @
     wr_u64 (of_nat (length (d_episodes d))) @ concat (map wr_episode (d_episodes d)) @
     wr_episode (d_current_episode d)"

definition rd_domain :: "CongestionDomainId \<Rightarrow> u8 list \<Rightarrow> (CongestionDomain \<times> u8 list) option" where
  "rd_domain k bs = do {
     (ref, bs) \<leftarrow> rd_ref bs;
     check (ref_id ref = k);
     (kind, bs) \<leftarrow> rd_domain_kind bs;
     (cap, bs) \<leftarrow> rd_capacity bs;
     (qg, bs) \<leftarrow> rd_gen bs;
     (st, bs) \<leftarrow> rd_enum congestion_state_valid CongestionState_of_u8 bs;
     (sp, bs) \<leftarrow> rd_prov bs;
     (bg, bs) \<leftarrow> rd_gen bs;
     (rg, bs) \<leftarrow> rd_gen bs;
     (df, bs) \<leftarrow> rd_fairness fairness_model_valid bs;
     check (fairness_valid df);
     (srate, bs) \<leftarrow> rd_u64 bs;
     (scap, bs) \<leftarrow> rd_u64 bs;
     check (\<not> (\<not> isfinite srate \<or> dlt srate 0 \<or> \<not> isfinite scap \<or> dlt scap 0));
     (off, bs) \<leftarrow> rd_measured bs;
     (adm, bs) \<leftarrow> rd_measured bs;
     (srv, bs) \<leftarrow> rd_measured bs;
     (utl, bs) \<leftarrow> rd_measured bs;
     (eff, bs) \<leftarrow> rd_measured bs;
     (rsd, bs) \<leftarrow> rd_measured bs;
     (nfc, bs) \<leftarrow> bounded_count kMaxCollectionCount bs;
     (fls, bs) \<leftarrow> rd_many (unat nfc) rd_ref bs;
     (nep, bs) \<leftarrow> bounded_count kMaxCollectionCount bs;
     (eps, bs) \<leftarrow> rd_many (unat nep) rd_closed_episode bs;
     (cur, bs) \<leftarrow> rd_episode bs;
     check (capacity_valid cap);
     Some (default_domain\<lparr>d_ref := ref, d_kind := kind, d_capacity := cap,
       d_queue := default_queue\<lparr>q_generation := qg\<rparr>, d_state := st, d_state_provenance := sp,
       d_backpressure_generation := bg, d_recovery_generation := rg, d_default_fairness := df,
       d_shaping := token_bucket srate scap,
       d_offered_bps := fst off, d_offered_provenance := snd off,
       d_admitted_bps := fst adm, d_admitted_provenance := snd adm,
       d_serviced_bps := fst srv, d_serviced_provenance := snd srv,
       d_utilisation := fst utl, d_utilisation_provenance := snd utl,
       d_effective_bps := fst eff, d_effective_provenance := snd eff,
       d_residual_bps := fst rsd, d_residual_provenance := snd rsd,
       d_flows := fls, d_episodes := eps, d_current_episode := cur\<rparr>, bs) }"

section \<open>Saving\<close>

definition wr_boots :: "('t Id, 'u Generation) umap \<Rightarrow> u8 list" where
  "wr_boots m = wr_u32 (of_nat (length m)) @ concat (map (\<lambda>(w, b). wr_id w @ wr_gen b) m)"

definition save_payload :: "CongestionFabric \<Rightarrow> u8 list" where
  "save_payload e = wr_gen (cf_epoch e) @ wr_boots (cf_worker_boot e) @ wr_boots (cf_source_boot e) @
     wr_u32 (of_nat (length (cf_domains e))) @ concat (map (\<lambda>(k, d). wr_id k @ wr_domain d) (cf_domains e)) @
     wr_u32 (of_nat (length (cf_flows e))) @ concat (map (\<lambda>(k, f). wr_id k @ wr_flow f) (cf_flows e)) @
     wr_u64 (cf_next_domain e) @ wr_u64 (cf_next_flow e) @ wr_u64 (cf_next_event e) @ wr_u64 (cf_next_policy e)"

definition kMagic :: "u8 list" where
  "kMagic = map (\<lambda>c. of_nat (of_char c)) ''CONGFAB1''"

definition kVersion :: u32 where
  "kVersion = 1"

definition kMaxPayloadBytes :: u64 where
  "kMaxPayloadBytes = 0x40000000"

definition envelope :: "u8 list \<Rightarrow> u8 list" where
  "envelope payload = (let len = of_nat (length payload) :: u64
     in kMagic @ wr_u32 kVersion @ wr_u64 len @ wr_u32 (crc32 (le_bytes 8 len)) @ payload @
        wr_u32 (crc32 payload))"

definition save_file :: "CongestionFabric \<Rightarrow> u8 list" where
  "save_file e = envelope (save_payload e)"

section \<open>Loading\<close>

fun rd_boots :: "nat \<Rightarrow> ('t Id, 'u Generation) umap \<Rightarrow> u8 list \<Rightarrow> (('t Id, 'u Generation) umap \<times> u8 list) option" where
  "rd_boots 0 m bs = Some (m, bs)"
| "rd_boots (Suc n) m bs = do {
     (w, bs) \<leftarrow> rd_id bs;
     (b, bs) \<leftarrow> rd_gen bs;
     check (id_valid w \<and> gen_valid b);
     check (um_find m w = None);
     rd_boots n (um_emplace m w b) bs }"

definition load_boots :: "u8 list \<Rightarrow> (('t Id, 'u Generation) umap \<times> u8 list) option" where
  "load_boots bs = do {
     (n, bs) \<leftarrow> rd_u32 bs;
     check (\<not> ucast n > kMaxCollectionCount);
     rd_boots (unat n) [] bs }"

text \<open>\<open>gens\<close> is \<^verbatim>\<open>domain_gen\<close>, the generations seen so far.\<close>

definition gen_regresses :: "('k, u64) umap \<Rightarrow> 'k \<Rightarrow> 't Generation \<Rightarrow> bool" where
  "gen_regresses gens k g = (case um_find gens k of None \<Rightarrow> False | Some seen \<Rightarrow> genv g \<le> seen)"

fun rd_domains :: "nat \<Rightarrow> (CongestionDomainId, u64) umap \<Rightarrow> (CongestionDomainId, CongestionDomain) umap
    \<Rightarrow> u8 list \<Rightarrow> ((CongestionDomainId, CongestionDomain) umap \<times> u8 list) option" where
  "rd_domains 0 gens m bs = Some (m, bs)"
| "rd_domains (Suc n) gens m bs = do {
     (k, bs) \<leftarrow> rd_id bs;
     check (id_valid k);
     (d, bs) \<leftarrow> rd_domain k bs;
     check (\<not> gen_regresses gens k (ref_gen (d_ref d)));
     check (um_find m k = None);
     rd_domains n (um_assign gens k (genv (ref_gen (d_ref d)))) (um_emplace m k d) bs }"

definition flow_acceptable :: "FlowId \<Rightarrow> Flow \<Rightarrow> bool" where
  "flow_acceptable k f \<longleftrightarrow> ref_id (fl_ref f) = k \<and> flow_state_valid (FlowState_to_u8 (fl_state f)) \<and>
     traffic_class_valid (TrafficClass_to_u8 (fl_traffic_class f)) \<and> accounting_valid f \<and>
     fairness_valid (fl_fairness f)"

fun rd_flows :: "nat \<Rightarrow> (FlowId, u64) umap \<Rightarrow> (FlowId, Flow) umap \<Rightarrow> u8 list
    \<Rightarrow> ((FlowId, Flow) umap \<times> u8 list) option" where
  "rd_flows 0 gens m bs = Some (m, bs)"
| "rd_flows (Suc n) gens m bs = do {
     (k, bs) \<leftarrow> rd_id bs;
     check (id_valid k);
     (f, bs) \<leftarrow> rd_flow bs;
     check (flow_acceptable k f);
     check (\<not> gen_regresses gens k (ref_gen (fl_ref f)));
     check (um_find m k = None);
     rd_flows n (um_assign gens k (genv (ref_gen (fl_ref f)))) (um_emplace m k f) bs }"

text \<open>The envelope: everything checked before a byte of the payload is interpreted.\<close>

definition open_envelope :: "u8 list \<Rightarrow> u8 list option" where
  "open_envelope bs = do {
     (magic, bs) \<leftarrow> rd_raw 8 bs;
     check (magic = kMagic);
     (version, bs) \<leftarrow> rd_u32 bs;
     check (version = kVersion);
     (plen, bs) \<leftarrow> rd_u64 bs;
     check (\<not> plen > kMaxPayloadBytes);
     (len_crc, bs) \<leftarrow> rd_u32 bs;
     check (crc32 (le_bytes 8 plen) = len_crc);
     check (\<not> length bs < unat plen);
     (payload, bs) \<leftarrow> rd_raw (unat plen) bs;
     (stored_crc, bs) \<leftarrow> rd_u32 bs;
     check (bs = []);
     check (crc32 payload = stored_crc);
     Some payload }"

record Durable =
  du_epoch :: CoordinatorEpoch
  du_worker_boot :: "(WorkerId, WorkerBootId) umap"
  du_source_boot :: "(SourceId, SourceBootId) umap"
  du_domains :: "(CongestionDomainId, CongestionDomain) umap"
  du_flows :: "(FlowId, Flow) umap"
  du_next_domain :: u64
  du_next_flow :: u64
  du_next_event :: u64
  du_next_policy :: u64

definition rd_payload :: "u8 list \<Rightarrow> Durable option" where
  "rd_payload bs = do {
     (epoch, bs) \<leftarrow> rd_gen bs;
     check (gen_valid epoch);
     (wb, bs) \<leftarrow> load_boots bs;
     (sb, bs) \<leftarrow> load_boots bs;
     (dn, bs) \<leftarrow> rd_u32 bs;
     check (\<not> ucast dn > kMaxCollectionCount);
     (ds, bs) \<leftarrow> rd_domains (unat dn) [] [] bs;
     (fn, bs) \<leftarrow> rd_u32 bs;
     check (\<not> ucast fn > kMaxCollectionCount);
     (fs, bs) \<leftarrow> rd_flows (unat fn) [] [] bs;
     (nd, bs) \<leftarrow> rd_u64 bs;
     (nf, bs) \<leftarrow> rd_u64 bs;
     (ne, bs) \<leftarrow> rd_u64 bs;
     (np, bs) \<leftarrow> rd_u64 bs;
     check (bs = []);
     Some \<lparr>du_epoch = epoch, du_worker_boot = wb, du_source_boot = sb, du_domains = ds, du_flows = fs,
       du_next_domain = nd, du_next_flow = nf, du_next_event = ne, du_next_policy = np\<rparr> }"

text \<open>The commit: durable facts replace the state, dynamic ones are marked for revalidation.
  The limits, the active flow count and the recovered flag are not touched.\<close>

definition commit_load :: "Durable \<Rightarrow> CongestionFabric \<Rightarrow> CongestionFabric" where
  "commit_load du e = e\<lparr>cf_epoch := du_epoch du, cf_worker_boot := du_worker_boot du,
     cf_source_boot := du_source_boot du, cf_domains := um_map recover_domain (du_domains du),
     cf_flows := um_map recover_flow (du_flows du), cf_flow_history := map fst (du_flows du),
     cf_next_domain := du_next_domain du, cf_next_flow := du_next_flow du,
     cf_next_event := du_next_event du, cf_next_policy := du_next_policy du\<rparr>"

definition parse_file :: "u8 list \<Rightarrow> Durable option" where
  "parse_file bs = (if length bs = 0 \<or> length bs > 2 ^ 30 then None
     else case open_envelope bs of None \<Rightarrow> None | Some payload \<Rightarrow> rd_payload payload)"

definition load :: "u8 list option \<Rightarrow> CongestionFabric \<Rightarrow> bool \<times> CongestionFabric" where
  "load file e = (case file of
     None \<Rightarrow> (False, e)
   | Some bs \<Rightarrow> (case parse_file bs of None \<Rightarrow> (False, e) | Some du \<Rightarrow> (True, commit_load du e)))"

section \<open>Round trips\<close>

context byte_enum
begin

lemma enum_round: "named e \<Longrightarrow> rd_enum valid of_u8 (wr_u8 (to_u8 e) @ bs) = Some (e, bs)"
  by (simp add: rd_enum_def prim_round valid_named of_to)

end

lemmas enum_rounds [codec_rt] = DK.enum_round TC.enum_round MK.enum_round FS.enum_round CS.enum_round
  MP.enum_round BK.enum_round FM.enum_round

lemma all_named [simp]: "FlowState_named s" "CongestionState_named c"
  by (cases s; simp add: FlowState_named_def FlowState_enum_def)
    (cases c; simp add: CongestionState_named_def CongestionState_enum_def)

lemma flow_fairness_model_round [codec_rt]:
  "FairnessModel_named m \<Longrightarrow> rd_enum (\<lambda>_. True) FairnessModel_of_u8 (wr_u8 (FairnessModel_to_u8 m) @ bs) = Some (m, bs)"
  by (simp add: rd_enum_def prim_round FM.of_to)

interpretation c_id: codec wr_id rd_id "\<lambda>_. True" id
  by unfold_locales (simp add: wr_id_def rd_id_def prim_round)

interpretation c_gen: codec wr_gen rd_gen "\<lambda>_. True" id
  by unfold_locales (simp add: wr_gen_def rd_gen_def prim_round)

interpretation c_bool: codec wr_bool rd_bool "\<lambda>_. True" id
  by unfold_locales (simp add: wr_bool_def rd_bool_def prim_round)

interpretation c_bytes: codec wr_bytes rd_bytes "\<lambda>_. True" id
  by unfold_locales (simp add: wr_bytes_def rd_bytes_def prim_round)

lemmas small_round [codec_rt] = c_id.round [simplified] c_gen.round [simplified]
  c_bool.round [simplified] c_bytes.round [simplified]

interpretation c_ref: codec wr_ref rd_ref "\<lambda>_. True" id
  by unfold_locales (simp add: wr_ref_def rd_ref_def codec_rt)

definition rate_storable :: "Rate \<Rightarrow> bool" where
  "rate_storable x \<longleftrightarrow> BandwidthKind_named (rate_kind x) \<and> MeasurementProvenance_named (rate_prov x) \<and>
     is_finite_nonneg x"

interpretation c_rate: codec wr_rate rd_rate rate_storable id
  by unfold_locales (simp add: wr_rate_def rd_rate_def rate_storable_def codec_rt Let_def
      is_finite_nonneg_def)

lemmas ref_rate_round [codec_rt] = c_ref.round [simplified] c_rate.round [simplified]

definition capacity_storable :: "CapacityProfile \<Rightarrow> bool" where
  "capacity_storable c \<longleftrightarrow> rate_storable (theoretical c) \<and> rate_storable (configured c) \<and>
     rate_storable (measured_service c) \<and> rate_storable (reserved c)"

interpretation c_capacity: codec wr_capacity rd_capacity capacity_storable id
  by unfold_locales (simp add: wr_capacity_def rd_capacity_def capacity_storable_def codec_rt)

definition measurement_storable :: "Measurement \<Rightarrow> bool" where
  "measurement_storable m \<longleftrightarrow> MeasurementKind_named (m_kind m) \<and> MeasurementProvenance_named (m_provenance m)"

lemma rd_prov_round [codec_rt]:
  "MeasurementProvenance_named p \<Longrightarrow> rd_prov (wr_u8 (MeasurementProvenance_to_u8 p) @ bs) = Some (p, bs)"
  by (simp add: rd_prov_def codec_rt)

interpretation c_measurement: codec wr_measurement rd_measurement measurement_storable id
  by unfold_locales (simp add: wr_measurement_def rd_measurement_def measurement_storable_def codec_rt)

interpretation c_fairness: codec wr_fairness "rd_fairness fairness_model_valid" "\<lambda>f. FairnessModel_named (fc_model f)" id
  by unfold_locales (simp add: wr_fairness_def rd_fairness_def codec_rt)

interpretation c_flow_fairness: codec wr_fairness "rd_fairness (\<lambda>_. True)" "\<lambda>f. FairnessModel_named (fc_model f)" id
  by unfold_locales (simp add: wr_fairness_def rd_fairness_def codec_rt)

lemmas config_round [codec_rt] = c_capacity.round [simplified] c_fairness.round [simplified]
  c_flow_fairness.round [simplified]

definition flow_storable :: "Flow \<Rightarrow> bool" where
  "flow_storable f \<longleftrightarrow> TrafficClass_named (fl_traffic_class f) \<and> FairnessModel_named (fc_model (fl_fairness f)) \<and>
     MeasurementProvenance_named (fl_provenance f) \<and> str_ok (fl_description f)"

interpretation c_flow: codec wr_flow rd_flow flow_storable id
  by unfold_locales (simp add: wr_flow_def rd_flow_def flow_storable_def rd_traffic_class_def
      rd_flow_state_def codec_rt)

definition episode_storable :: "CongestionEpisode \<Rightarrow> bool" where
  "episode_storable ep \<longleftrightarrow> str_ok (ep_trigger ep) \<and> length (ep_affected_flows ep) \<le> 2 ^ 24"

definition durable_episode :: "CongestionEpisode \<Rightarrow> CongestionEpisode" where
  "durable_episode ep = ep\<lparr>ep_actions := []\<rparr>"

lemma collection_bound: "unat kMaxCollectionCount = 2 ^ 24"
  by (simp add: kMaxCollectionCount_def)

lemma counted_round:
  assumes "codec enc dec ok nrm" "list_all ok xs" "length xs \<le> 2 ^ 24"
  shows "bounded_count kMaxCollectionCount (wr_u64 (of_nat (length xs)) @ bs) = Some (of_nat (length xs), bs)"
    and "rd_many (unat (of_nat (length xs) :: u64)) dec (concat (map enc xs) @ bs) = Some (map nrm xs, bs)"
  using bounded_count_round [of "length xs" kMaxCollectionCount] codec.round_many [OF assms(1,2)] assms(3)
  by (simp_all add: collection_bound)

lemmas ids_round = counted_round [OF c_id.codec_axioms, simplified list.pred_True, simplified]
lemmas refs_round = counted_round [OF c_ref.codec_axioms, simplified list.pred_True, simplified]

interpretation c_episode: codec wr_episode rd_episode episode_storable durable_episode
  by unfold_locales (simp add: wr_episode_def rd_episode_def episode_storable_def durable_episode_def
      codec_rt ids_round)

interpretation c_closed: codec wr_episode rd_closed_episode
  "\<lambda>ep. episode_storable ep \<and> episode_valid ep" durable_episode
  by unfold_locales (simp add: rd_closed_episode_def c_episode.round episode_valid_def durable_episode_def)

lemmas episodes_round = counted_round [OF c_closed.codec_axioms]

text \<open>What a file keeps of a domain: configuration, rates and their provenance, bound flows and
  episodes. The queue counters, the latest measurements, the evidence owners, the class
  aggregates and the influence edges are not persisted; the token bucket is refilled.\<close>

definition durable_domain :: "CongestionDomain \<Rightarrow> CongestionDomain" where
  "durable_domain d = d\<lparr>d_queue := default_queue\<lparr>q_generation := q_generation (d_queue d)\<rparr>,
     d_measurements := empty_measurements, d_shaping := token_bucket (tb_rate (d_shaping d)) (tb_capacity (d_shaping d)),
     d_class_bytes := empty_aggregate, d_outbound_influence := [], d_upstream_domains := [],
     d_episodes := map durable_episode (d_episodes d), d_current_episode := durable_episode (d_current_episode d),
     d_offered_owner := Id 0, d_offered_owner_boot := Generation 0,
     d_serviced_owner := Id 0, d_serviced_owner_boot := Generation 0\<rparr>"

definition provs_named :: "CongestionDomain \<Rightarrow> bool" where
  "provs_named d \<longleftrightarrow> list_all MeasurementProvenance_named
     [d_state_provenance d, d_offered_provenance d, d_admitted_provenance d, d_serviced_provenance d,
      d_utilisation_provenance d, d_effective_provenance d, d_residual_provenance d]"

definition domain_storable :: "CongestionDomain \<Rightarrow> bool" where
  "domain_storable d \<longleftrightarrow> DomainKind_named (d_kind d) \<and> capacity_storable (d_capacity d) \<and>
     capacity_valid (d_capacity d) \<and> provs_named d \<and>
     FairnessModel_named (fc_model (d_default_fairness d)) \<and> fairness_valid (d_default_fairness d) \<and>
     isfinite (tb_rate (d_shaping d)) \<and> \<not> dlt (tb_rate (d_shaping d)) 0 \<and>
     isfinite (tb_capacity (d_shaping d)) \<and> \<not> dlt (tb_capacity (d_shaping d)) 0 \<and>
     length (d_flows d) \<le> 2 ^ 24 \<and> length (d_episodes d) \<le> 2 ^ 24 \<and>
     list_all (\<lambda>ep. episode_storable ep \<and> episode_valid ep) (d_episodes d) \<and>
     episode_storable (d_current_episode d)"

lemma measured_round [codec_rt]:
  "MeasurementProvenance_named p \<Longrightarrow> rd_measured (wr_measured v p @ bs) = Some ((v, p), bs)"
  by (simp add: rd_measured_def wr_measured_def codec_rt)

lemma domain_round:
  assumes "domain_storable d"
  shows "rd_domain (ref_id (d_ref d)) (wr_domain d @ bs) = Some (durable_domain d, bs)"
proof -
  have eps: "list_all (\<lambda>ep. episode_storable ep \<and> episode_valid ep) (d_episodes d)" "length (d_episodes d) \<le> 2 ^ 24"
      and fls: "length (d_flows d) \<le> 2 ^ 24" and cur: "episode_storable (d_current_episode d)"
    using assms by (simp_all add: domain_storable_def)
  note parts = assms [unfolded domain_storable_def provs_named_def, simplified]
  show ?thesis
    using parts
    by (simp add: rd_domain_def wr_domain_def rd_domain_kind_def codec_rt refs_round
        episodes_round [OF eps] c_episode.round [OF cur] durable_domain_def default_domain_def)
qed

subsection \<open>Whole maps\<close>

lemma um_fresh_iff: "um_find m k = None \<longleftrightarrow> k \<notin> set (map fst m)"
  by (auto simp: um_find_def map_of_eq_None_iff)

lemma boots_round:
  assumes "um_wf (acc @ m)" "list_all (\<lambda>(w, b). id_valid w \<and> gen_valid b) m"
  shows "rd_boots (length m) acc (concat (map (\<lambda>(w, b). wr_id w @ wr_gen b) m) @ bs) = Some (acc @ m, bs)"
  using assms
proof (induction m arbitrary: acc)
  case (Cons x m)
  obtain w b where x: "x = (w, b)" by fastforce
  have fresh: "um_find acc w = None" using Cons.prems(1) by (auto simp: um_fresh_iff um_wf_def x)
  show ?case
    using Cons.IH [of "acc @ [(w, b)]"] Cons.prems fresh
    by (simp add: x codec_rt um_emplace_fresh um_wf_def)
qed simp

lemma u32_count:
  assumes "n \<le> 2 ^ 24"
  shows "unat (of_nat n :: u32) = n" "\<not> (ucast (of_nat n :: u32) :: u64) > kMaxCollectionCount"
proof -
  show n: "unat (of_nat n :: u32) = n" using assms by (simp add: unat_of_nat)
  have "(ucast (of_nat n :: u32) :: u64) = of_nat n" using n by (metis of_nat_unat)
  then have "unat (ucast (of_nat n :: u32) :: u64) = n" using assms by (simp add: unat_u64_of_nat)
  then show "\<not> (ucast (of_nat n :: u32) :: u64) > kMaxCollectionCount"
    using assms by (simp add: word_less_nat_alt collection_bound)
qed

lemma load_boots_round:
  assumes "um_wf m" "list_all (\<lambda>(w, b). id_valid w \<and> gen_valid b) m" "length m \<le> 2 ^ 24"
  shows "load_boots (wr_boots m @ bs) = Some (m, bs)"
  using boots_round [of "[]" m bs] assms u32_count [OF assms(3)]
  by (simp add: load_boots_def wr_boots_def codec_rt)

lemma domains_round:
  assumes "um_wf (acc @ m)" "\<And>k. um_find gens k \<noteq> None \<Longrightarrow> um_find acc k \<noteq> None"
    and "list_all (\<lambda>(k, d). id_valid k \<and> ref_id (d_ref d) = k \<and> domain_storable d) m"
  shows "rd_domains (length m) gens acc (concat (map (\<lambda>(k, d). wr_id k @ wr_domain d) m) @ bs) =
    Some (acc @ um_map durable_domain m, bs)"
  using assms
proof (induction m arbitrary: acc gens)
  case (Cons x m)
  obtain k d where x: "x = (k, d)" by fastforce
  let ?acc = "acc @ [(k, durable_domain d)]"
  have fresh: "um_find acc k = None" using Cons.prems(1) by (auto simp: um_fresh_iff um_wf_def x)
  then have gens: "um_find gens k = None" using Cons.prems(2) by blast
  have d: "id_valid k" "rd_domain k (wr_domain d @ cs) = Some (durable_domain d, cs)" for cs
    using Cons.prems(3) domain_round [of d] by (auto simp: x)
  have "rd_domains (length m) (um_assign gens k g) ?acc (concat (map (\<lambda>(k, d). wr_id k @ wr_domain d) m) @ bs) =
      Some (?acc @ um_map durable_domain m, bs)" for g
    by (rule Cons.IH) (use Cons.prems in \<open>auto simp: um_wf_def x um_find_append um_find_Cons split: option.splits if_splits\<close>)
  then show ?case
    using d gens fresh by (simp add: x codec_rt gen_regresses_def um_emplace_fresh um_map_def)
qed (simp add: um_map_def)

lemma flows_round:
  assumes "um_wf (acc @ m)" "\<And>k. um_find gens k \<noteq> None \<Longrightarrow> um_find acc k \<noteq> None"
    and "list_all (\<lambda>(k, f). id_valid k \<and> flow_acceptable k f \<and> flow_storable f) m"
  shows "rd_flows (length m) gens acc (concat (map (\<lambda>(k, f). wr_id k @ wr_flow f) m) @ bs) = Some (acc @ m, bs)"
  using assms
proof (induction m arbitrary: acc gens)
  case (Cons x m)
  obtain k f where x: "x = (k, f)" by fastforce
  let ?acc = "acc @ [(k, f)]"
  have fresh: "um_find acc k = None" using Cons.prems(1) by (auto simp: um_fresh_iff um_wf_def x)
  then have gens: "um_find gens k = None" using Cons.prems(2) by blast
  have f: "id_valid k" "flow_acceptable k f" "rd_flow (wr_flow f @ cs) = Some (f, cs)" for cs
    using Cons.prems(3) c_flow.round [of f] by (auto simp: x)
  have "rd_flows (length m) (um_assign gens k g) ?acc (concat (map (\<lambda>(k, f). wr_id k @ wr_flow f) m) @ bs) =
      Some (?acc @ m, bs)" for g
    by (rule Cons.IH) (use Cons.prems in \<open>auto simp: um_wf_def x um_find_append um_find_Cons split: option.splits if_splits\<close>)
  then show ?case
    using f gens fresh by (simp add: x codec_rt gen_regresses_def um_emplace_fresh)
qed simp

subsection \<open>Envelope and file\<close>

lemma magic_length: "length kMagic = 8"
  by (simp add: kMagic_def)

lemma envelope_round:
  assumes "length payload \<le> 2 ^ 30"
  shows "open_envelope (envelope payload) = Some payload"
proof -
  have len: "unat (of_nat (length payload) :: u64) = length payload"
    using assms by (intro unat_u64_of_nat) simp
  have "\<not> (of_nat (length payload) :: u64) > kMaxPayloadBytes"
    using assms len by (simp add: word_less_nat_alt kMaxPayloadBytes_def)
  then show ?thesis
    using prim_round(3) [of "crc32 payload" "[]"]
    by (simp add: open_envelope_def envelope_def Let_def rd_raw_append magic_length prim_round len)
qed

definition storable :: "CongestionFabric \<Rightarrow> bool" where
  "storable e \<longleftrightarrow> gen_valid (cf_epoch e) \<and>
     um_wf (cf_worker_boot e) \<and> um_wf (cf_source_boot e) \<and> um_wf (cf_domains e) \<and> um_wf (cf_flows e) \<and>
     list_all (\<lambda>(w, b). id_valid w \<and> gen_valid b) (cf_worker_boot e) \<and>
     list_all (\<lambda>(s, b). id_valid s \<and> gen_valid b) (cf_source_boot e) \<and>
     list_all (\<lambda>(k, d). id_valid k \<and> ref_id (d_ref d) = k \<and> domain_storable d) (cf_domains e) \<and>
     list_all (\<lambda>(k, f). id_valid k \<and> flow_acceptable k f \<and> flow_storable f) (cf_flows e) \<and>
     length (cf_worker_boot e) \<le> 2 ^ 24 \<and> length (cf_source_boot e) \<le> 2 ^ 24 \<and>
     length (cf_domains e) \<le> 2 ^ 24 \<and> length (cf_flows e) \<le> 2 ^ 24 \<and> length (save_file e) \<le> 2 ^ 30"

definition durable_of :: "CongestionFabric \<Rightarrow> Durable" where
  "durable_of e = \<lparr>du_epoch = cf_epoch e, du_worker_boot = cf_worker_boot e, du_source_boot = cf_source_boot e,
     du_domains = um_map durable_domain (cf_domains e), du_flows = cf_flows e,
     du_next_domain = cf_next_domain e, du_next_flow = cf_next_flow e,
     du_next_event = cf_next_event e, du_next_policy = cf_next_policy e\<rparr>"

lemma payload_round:
  assumes "storable e"
  shows "rd_payload (save_payload e) = Some (durable_of e)"
proof -
  note parts = assms [unfolded storable_def]
  have w: "load_boots (wr_boots (cf_worker_boot e) @ bs) = Some (cf_worker_boot e, bs)"
    and s: "load_boots (wr_boots (cf_source_boot e) @ bs) = Some (cf_source_boot e, bs)" for bs
    using parts by (simp_all add: load_boots_round)
  have d: "rd_domains (length (cf_domains e)) [] [] (concat (map (\<lambda>(k, d). wr_id k @ wr_domain d) (cf_domains e)) @ bs) =
      Some (um_map durable_domain (cf_domains e), bs)" for bs
    using parts domains_round [of "[]" "cf_domains e" "[]" bs] by simp
  have f: "rd_flows (length (cf_flows e)) [] [] (concat (map (\<lambda>(k, f). wr_id k @ wr_flow f) (cf_flows e)) @ bs) =
      Some (cf_flows e, bs)" for bs
    using parts flows_round [of "[]" "cf_flows e" "[]" bs] by simp
  have n: "unat (of_nat (length (cf_domains e)) :: u32) = length (cf_domains e)"
    "\<not> (ucast (of_nat (length (cf_domains e)) :: u32) :: u64) > kMaxCollectionCount"
    "unat (of_nat (length (cf_flows e)) :: u32) = length (cf_flows e)"
    "\<not> (ucast (of_nat (length (cf_flows e)) :: u32) :: u64) > kMaxCollectionCount"
    using parts u32_count [of "length (cf_domains e)"] u32_count [of "length (cf_flows e)"] by blast+
  have epoch: "gen_valid (cf_epoch e)" using parts by blast
  have last: "rd_u64 (wr_u64 (cf_next_policy e)) = Some (cf_next_policy e, [])"
    using prim_round(4) [of "cf_next_policy e" "[]"] by simp
  show ?thesis
    by (simp add: rd_payload_def save_payload_def durable_of_def codec_rt w s d f n epoch last)
qed

lemma envelope_length: "length payload + 28 = length (envelope payload)"
  by (simp add: envelope_def Let_def magic_length wr_u32_def wr_u64_def le_bytes_def)

lemma parse_save: "storable e \<Longrightarrow> parse_file (save_file e) = Some (durable_of e)"
  using envelope_length [of "save_payload e"] envelope_round [of "save_payload e"] payload_round [of e]
  by (auto simp: parse_file_def save_file_def storable_def)

end
