(* ===== verification/Sample.thy ===== *)
theory Sample
  imports EngineInv
begin

text \<open>
  A small concrete engine used by the witnesses: one registered worker and source, one NIC
  domain of capacity 100 MB/s, and one flow of 1000 bytes taken through the first steps of its
  lifecycle. Every value is computed from the operations by simplification.
\<close>

definition sample_engine :: CongestionFabric where
  "sample_engine = snd (create_domain DK_NIC_TX sample_capacity
     (snd (register_source (Id 1) (Generation 1)
       (snd (register_worker (Id 1) (Generation 1) (new_fabric default_limits))))))"

definition sample_options :: FlowOptions where
  "sample_options = default_options\<lparr>o_owner_worker := Id 1, o_owner_boot := Generation 1, o_source := Id 1,
     o_source_boot := Generation 1, o_traffic_class := TC_CHECKPOINT,
     o_domain := EntityRef (Id 1) (Generation 1), o_expected_bytes := 1000, o_submitted_bytes := 1000\<rparr>"

abbreviation sample_ref :: FlowRef where
  "sample_ref \<equiv> EntityRef (Id 1) (Generation 1)"

definition sample_declared :: CongestionFabric where
  "sample_declared = snd (declare_flow sample_options 5 sample_engine)"

definition sample_active :: CongestionFabric where
  "sample_active = snd (start_flow sample_ref (Generation 1) 6 (snd (admit_flow sample_ref sample_declared)))"

definition sample_domain :: CongestionDomain where
  "sample_domain = default_domain\<lparr>d_ref := EntityRef (Id 1) (Generation 1), d_kind := DK_NIC_TX,
     d_capacity := sample_capacity, d_queue := default_queue\<lparr>q_generation := Generation 1\<rparr>,
     d_residual_bps := (case residual sample_capacity 0 of Some r \<Rightarrow> r | None \<Rightarrow> 0)\<rparr>"

lemma sample_engine_eval:
  "sample_engine = (new_fabric default_limits)\<lparr>cf_worker_boot := [(Id 1, Generation 1)],
     cf_source_boot := [(Id 1, Generation 1)], cf_next_domain := 2, cf_domains := [(Id 1, sample_domain)]\<rparr>"
  by (simp add: sample_engine_def register_worker_def register_source_def new_fabric_def create_domain_def
      id_valid_def gen_valid_def default_limits_def sample_capacity_valid um_assign_def
      um_emplace_def sample_domain_def Let_def)

lemma sample_declared_eval:
  "sample_declared = sample_engine\<lparr>cf_next_flow := 2, cf_flows := [(Id 1, flow_of_options (Id 1) 5 sample_options)],
     cf_active_flows := 1, cf_flow_history := [Id 1]\<rparr>"
  by (simp add: sample_declared_def declare_flow_def declare_allowed_def sample_options_def default_options_def
      sample_engine_eval new_fabric_def default_limits_def id_valid_def gen_valid_def um_find_def um_emplace_def
      Let_def)

lemma sample_flow_admitted:
  "admit_flow sample_ref sample_declared = (True, sample_declared\<lparr>
     cf_flows := [(Id 1, (flow_of_options (Id 1) 5 sample_options)\<lparr>admitted_bytes := ByteCounter 1000, fl_state := FS_ADMITTED\<rparr>)],
     cf_domains := [(Id 1, sample_domain\<lparr>d_flows := [sample_ref]\<rparr>)]\<rparr>)"
  by (simp add: admit_flow_def sample_declared_eval find_flow_def um_find_def flow_of_options_def admit_body_def
      bc_add_def checked_add_def sample_options_def default_options_def sample_engine_eval new_fabric_def
      um_assign_def sample_domain_def default_domain_def)

lemma sample_active_eval:
  "sample_active = sample_declared\<lparr>
     cf_flows := [(Id 1, (flow_of_options (Id 1) 5 sample_options)\<lparr>admitted_bytes := ByteCounter 1000,
       in_flight_bytes := ByteCounter 1000, fl_state := FS_ACTIVE, fl_started_ms := 6, fl_last_progress_ms := 6\<rparr>)],
     cf_domains := [(Id 1, sample_domain\<lparr>d_flows := [sample_ref]\<rparr>)]\<rparr>"
  unfolding sample_active_def sample_flow_admitted
  by (simp add: start_flow_def find_flow_def um_find_def flow_of_options_def start_body_def flow_state_preds
      bc_add_def checked_add_def sample_options_def default_options_def um_assign_def clear_revalidation_def
      sample_domain_def default_domain_def)

text \<open>The sample states are reached by methods of the engine, so they satisfy the invariants.\<close>

lemma new_fabric_inv: "engine_inv (new_fabric l)" "engine_exact (new_fabric l)"
  by (simp_all add: new_fabric_def engine_inv_def engine_exact_def)

lemma good_stepD: "good_step e e' \<Longrightarrow> engine_inv e \<and> engine_exact e \<Longrightarrow> engine_inv e' \<and> engine_exact e'"
  by (simp add: good_step_def)

lemma sample_inv: "engine_inv sample_engine" "engine_exact sample_engine"
    "engine_inv sample_declared" "engine_exact sample_declared"
    "engine_inv sample_active" "engine_exact sample_active"
proof -
  have "engine_inv sample_engine \<and> engine_exact sample_engine"
    unfolding sample_engine_def by (intro good_stepD [OF good_create_domain] good_stepD [OF good_register_source]
        good_stepD [OF good_register_worker]) (simp add: new_fabric_inv)
  moreover from this have "engine_inv sample_declared \<and> engine_exact sample_declared"
    unfolding sample_declared_def by (rule good_stepD [OF good_declare_flow])
  moreover from this have "engine_inv sample_active \<and> engine_exact sample_active"
    unfolding sample_active_def by (intro good_stepD [OF good_start_flow] good_stepD [OF good_admit_flow])
  ultimately show "engine_inv sample_engine" "engine_exact sample_engine"
    "engine_inv sample_declared" "engine_exact sample_declared"
    "engine_inv sample_active" "engine_exact sample_active" by blast+
qed

end
