(* ===== verification/Checksum.thy ===== *)
theory Checksum
  imports Bytes
begin

text \<open>
  Facts about the byte layer that the state file and the frame protocol share: the readers invert
  the writers, so a successful read determines the bytes it consumed, and the CRC tells apart any
  two byte strings that differ only within four consecutive bytes.
\<close>

section \<open>Reads determine the bytes\<close>

lemma le_bytes_length [simp]: "length (le_bytes n v) = n"
  by (simp add: le_bytes_def)

lemma le_bytes_surj:
  assumes len: "LENGTH('a::len) = 8 * n" and bs: "length bs = n"
  shows "\<exists>v :: 'a word. le_bytes n v = bs"
proof -
  let ?L = "{xs :: u8 list. length xs = n}"
  have inj: "inj (le_bytes n :: 'a word \<Rightarrow> u8 list)"
    by (rule injI) (metis append_Nil2 len option.inject prod.inject rd_le_bytes_all)
  have "card (range (le_bytes n :: 'a word \<Rightarrow> u8 list)) = 2 ^ (8 * n)"
    using len by (simp add: card_image [OF inj] card_word)
  also have "\<dots> = card ?L"
    using card_lists_length_eq [of "UNIV :: u8 set" n] by (simp add: card_word power_mult)
  finally have "card (range (le_bytes n :: 'a word \<Rightarrow> u8 list)) = card ?L" .
  moreover have "finite ?L" using finite_lists_length_eq [of "UNIV :: u8 set" n] by simp
  moreover have "range (le_bytes n :: 'a word \<Rightarrow> u8 list) \<subseteq> ?L" by auto
  ultimately have "range (le_bytes n :: 'a word \<Rightarrow> u8 list) = ?L" by (metis card_subset_eq)
  then show ?thesis using bs by (metis (mono_tags, lifting) mem_Collect_eq rangeE)
qed

lemma rd_le_needs: "rd_le i n v bs = Some (w, bs') \<Longrightarrow> n \<le> length bs"
proof (induction n arbitrary: i v bs)
  case (Suc n)
  then show ?case by (cases bs) force+
qed simp

lemma rd_le_inverse:
  assumes "LENGTH('a::len) = 8 * n" "rd_le 0 n 0 bs = Some (v :: 'a word, bs')"
  shows "bs = le_bytes n v @ bs'"
proof -
  have "n \<le> length bs" using rd_le_needs [OF assms(2)] .
  then obtain w :: "'a word" where w: "le_bytes n w = take n bs"
    using le_bytes_surj [OF assms(1), of "take n bs"] by auto
  have "bs = le_bytes n w @ drop n bs" by (simp add: w)
  moreover from this have "rd_le 0 n 0 bs = Some (w, drop n bs)"
    by (metis assms(1) rd_le_bytes_all)
  ultimately show ?thesis using assms(2) by simp
qed

lemma rd_u32_inverse: "rd_u32 bs = Some (v, bs') \<Longrightarrow> bs = wr_u32 v @ bs'"
  by (simp add: rd_u32_def wr_u32_def rd_le_inverse)

lemma rd_u64_inverse: "rd_u64 bs = Some (v, bs') \<Longrightarrow> bs = wr_u64 v @ bs'"
  by (simp add: rd_u64_def wr_u64_def rd_le_inverse)

lemma rd_raw_inverse: "rd_raw n bs = Some (xs, bs') \<Longrightarrow> bs = xs @ bs' \<and> length xs = n"
  by (auto simp: rd_raw_def split: if_splits)

section \<open>Error detection\<close>

text \<open>A message followed by its checksum leaves a fixed residue in the register.\<close>

lemma split_low_byte: "ucast (ucast (w AND 0xFF) :: u8) XOR push_bit 8 (drop_bit 8 w) = (w :: u32)"
proof (rule bit_word_eqI)
  fix i assume i: "i < LENGTH(32)"
  have ff: "bit (0xFF :: int) i \<longleftrightarrow> i < 8"
    using bit_mask_iff [of 8 i, where ?'a = int] by (simp add: mask_eq_exp_minus_1)
  show "bit (ucast (ucast (w AND 0xFF) :: u8) XOR push_bit 8 (drop_bit 8 w)) i = bit w i"
    using i by (auto simp: bit_xor_iff bit_ucast_iff bit_and_iff bit_push_bit_iff bit_drop_bit_eq ff)
qed

lemma le_val_u32: "le_val (wr_u32 c) = c"
proof -
  have "wr_u32 c = [ucast (drop_bit 0 c AND 0xFF), ucast (drop_bit 8 c AND 0xFF),
      ucast (drop_bit 16 c AND 0xFF), ucast (drop_bit 24 c AND 0xFF)]"
    by (simp add: wr_u32_def le_bytes_def upt_rec numeral_eq_Suc)
  moreover have "drop_bit 32 c = 0" by (rule bit_word_eqI) (simp add: bit_drop_bit_eq)
  ultimately show ?thesis
    using split_low_byte [of c] split_low_byte [of "drop_bit 8 c"] split_low_byte [of "drop_bit 16 c"]
      split_low_byte [of "drop_bit 24 c"] by simp
qed

lemma crc_residue:
  "crc32 p = c \<longleftrightarrow> fold crc_byte (p @ wr_u32 c) (NOT 0) = (crc_bit ^^ 32) (- 1)"
proof -
  let ?s = "fold crc_byte p (NOT 0)"
  have len: "length (wr_u32 c) = 4" by (simp add: wr_u32_def)
  have "fold crc_byte (p @ wr_u32 c) (NOT 0) = (crc_bit ^^ 32) (?s XOR c)"
    using fold_crc_word [of "wr_u32 c" ?s] len by (simp add: le_val_u32)
  then have "fold crc_byte (p @ wr_u32 c) (NOT 0) = (crc_bit ^^ 32) (- 1) \<longleftrightarrow> ?s XOR c = - 1"
    using inj_eq [OF crc_bits_inj] by simp
  also have "\<dots> \<longleftrightarrow> NOT ?s = c"
    by (auto simp: bit_eq_iff bit_xor_iff bit_not_iff)
  finally show ?thesis by (simp add: crc32_def crc32_seeded_def)
qed

text \<open>Two byte strings of the same length that differ at most within four consecutive bytes.\<close>

definition burst :: "u8 list \<Rightarrow> u8 list \<Rightarrow> bool" where
  "burst f g \<longleftrightarrow> (\<exists>xs as bs ys. f = xs @ as @ ys \<and> g = xs @ bs @ ys \<and> length as = length bs \<and> length as \<le> 4)"

lemma burst_drop: "burst f g \<Longrightarrow> burst (drop n f) (drop n g)"
proof -
  assume "burst f g"
  then obtain xs as bs ys where "f = xs @ as @ ys" "g = xs @ bs @ ys" "length as = length bs" "length as \<le> 4"
    by (auto simp: burst_def)
  then show ?thesis
    unfolding burst_def
    by (intro exI [of _ "drop n xs"] exI [of _ "drop (n - length xs) as"] exI [of _ "drop (n - length xs) bs"]
        exI [of _ "drop (n - length xs - length as) ys"]) auto
qed

lemma burst_crc:
  assumes "burst f g" "fold crc_byte f c = fold crc_byte g c"
  shows "f = g"
proof -
  from assms(1) obtain xs as bs ys where fg: "f = xs @ as @ ys" "g = xs @ bs @ ys"
      and len: "length as = length bs" "length as \<le> 4"
    by (auto simp: burst_def)
  let ?c = "fold crc_byte xs c"
  have "fold crc_byte as ?c = fold crc_byte bs ?c" using assms(2) by (simp add: fg fold_crc_inj)
  then have "?c XOR le_val as = ?c XOR le_val bs"
    using inj_eq [OF crc_bits_inj] len by (simp add: fold_crc_word)
  then have "as = bs" using le_val_inj [OF len] by (metis xor.commute xor_cancel_word)
  then show ?thesis by (simp add: fg)
qed

end
