(* ===== verification/Durability.thy ===== *)
theory Durability
  imports Persist Sample Checksum
begin

text \<open>
  What \<^verbatim>\<open>save\<close> and \<^verbatim>\<open>load\<close> guarantee: the envelope reader accepts exactly the envelopes the
  writer produces, corruption within four consecutive bytes, truncation and trailing bytes are
  detected, whatever file is accepted the engine invariant holds afterwards and no dynamic fact
  stays authoritative, and a saved state comes back.
\<close>

section \<open>The envelope is canonical\<close>

lemma open_envelope_inverse:
  assumes "open_envelope bs = Some payload"
  shows "bs = envelope payload \<and> length payload \<le> 2 ^ 30"
proof -
  from assms obtain magic b1 version b2 plen b3 len_crc b4 b5 stored b6 where
    r: "rd_raw 8 bs = Some (magic, b1)" "magic = kMagic" "rd_u32 b1 = Some (version, b2)" "version = kVersion"
      "rd_u64 b2 = Some (plen, b3)" "\<not> plen > kMaxPayloadBytes" "rd_u32 b3 = Some (len_crc, b4)"
      "crc32 (le_bytes 8 plen) = len_crc" "rd_raw (unat plen) b4 = Some (payload, b5)"
      "rd_u32 b5 = Some (stored, b6)" "b6 = []" "crc32 payload = stored"
    by (auto simp: open_envelope_def bind_eq_Some_conv)
  have len: "length payload = unat plen" using rd_raw_inverse [OF r(9)] by simp
  then have plen: "of_nat (length payload) = plen" by simp
  have "unat plen \<le> 2 ^ 30"
    using r(6) by (simp add: kMaxPayloadBytes_def word_less_nat_alt not_less)
  moreover have "bs = envelope payload"
    using rd_raw_inverse [OF r(1)] rd_u32_inverse [OF r(3)] rd_u64_inverse [OF r(5)]
      rd_u32_inverse [OF r(7)] rd_raw_inverse [OF r(9)] rd_u32_inverse [OF r(10)] r(2,4,8,11,12)
    by (simp add: envelope_def plen)
  ultimately show ?thesis using len by simp
qed

lemma open_envelope_iff: "open_envelope bs = Some p \<longleftrightarrow> bs = envelope p \<and> length p \<le> 2 ^ 30"
  using open_envelope_inverse envelope_round by blast

lemma parse_file_envelope: "parse_file bs = Some du \<Longrightarrow> \<exists>p. bs = envelope p \<and> length p \<le> 2 ^ 30 \<and> rd_payload p = Some du"
  by (auto simp: parse_file_def open_envelope_iff split: if_splits option.splits)

section \<open>Corruption\<close>

lemma envelope_body: "drop 24 (envelope p) = p @ wr_u32 (crc32 p)"
  by (simp add: envelope_def Let_def magic_length wr_u32_def wr_u64_def)

lemma envelope_head_length:
  assumes "envelope p @ xs = envelope q @ ys" "length p \<le> 2 ^ 30" "length q \<le> 2 ^ 30"
  shows "length p = length q"
proof -
  have "(of_nat (length p) :: u64) = of_nat (length q)"
    using assms(1) c_u64.prefix_free [where x = "of_nat (length p)" and y = "of_nat (length q)"]
    by (auto simp: envelope_def Let_def)
  moreover have "length p < 2 ^ 64" "length q < 2 ^ 64" using assms(2,3) by simp_all
  ultimately show ?thesis by (metis unat_u64_of_nat)
qed

lemma envelope_burst:
  assumes "burst (envelope p) (envelope q)"
  shows "envelope p = envelope q"
proof -
  have "length (envelope p) = length (envelope q)" using assms by (auto simp: burst_def)
  then have len: "length p = length q" using envelope_length [of p] envelope_length [of q] by simp
  have "fold crc_byte (p @ wr_u32 (crc32 p)) (NOT 0) = fold crc_byte (q @ wr_u32 (crc32 q)) (NOT 0)"
    by (metis crc_residue)
  then have "p @ wr_u32 (crc32 p) = q @ wr_u32 (crc32 q)"
    using burst_crc [OF burst_drop [OF assms, of 24], of "NOT 0"] by (simp only: envelope_body)
  then show ?thesis using len by (simp add: envelope_def)
qed

text \<open>C5: a file that \<^verbatim>\<open>load\<close> accepts is rejected after any corruption that is confined to four
  consecutive bytes, wherever they lie: magic, version, length, checksums or payload.\<close>

theorem load_detects_burst:
  assumes "parse_file (xs @ as @ ys) \<noteq> None" "length bs = length as" "length as \<le> 4" "bs \<noteq> as"
  shows "load (Some (xs @ bs @ ys)) e = (False, e)"
proof (cases "parse_file (xs @ bs @ ys)")
  case (Some du)
  obtain p where p: "xs @ as @ ys = envelope p"
    using assms(1) parse_file_envelope by fastforce
  obtain q where q: "xs @ bs @ ys = envelope q"
    using parse_file_envelope [OF Some] by blast
  have "burst (xs @ as @ ys) (xs @ bs @ ys)" 
    unfolding burst_def using assms(2,3) by metis
  then have "xs @ as @ ys = xs @ bs @ ys" unfolding p q by (rule envelope_burst)
  then show ?thesis using assms(2,4) by simp
qed (simp add: load_def)

text \<open>No proper prefix and no proper extension of a file that \<^verbatim>\<open>load\<close> accepts is accepted:
  truncation and trailing bytes are always detected.\<close>

theorem load_detects_length:
  assumes "parse_file f \<noteq> None"
  shows "(zs \<noteq> [] \<longrightarrow> load (Some (f @ zs)) e = (False, e)) \<and>
    (n < length f \<longrightarrow> load (Some (take n f)) e = (False, e))"
proof -
  have same: "length zs = 0" if fg: "parse_file f \<noteq> None" "parse_file (f @ zs) \<noteq> None" for f zs
  proof -
    obtain p where p: "f = envelope p" "length p \<le> 2 ^ 30" using fg(1) parse_file_envelope by fastforce
    obtain q where q: "f @ zs = envelope q" "length q \<le> 2 ^ 30" using fg(2) parse_file_envelope by fastforce
    have "length p = length q" using p q envelope_head_length [of p zs q "[]"] by simp
    then have "length f = length (f @ zs)"
      using envelope_length [of p] envelope_length [of q] p q by simp
    then show ?thesis by simp
  qed
  have "parse_file (f @ zs) = None" if "zs \<noteq> []"
    using same [OF assms, of zs] that by (cases "parse_file (f @ zs)") simp_all
  moreover have "parse_file (take n f) = None" if "n < length f"
    using same [of "take n f" "drop n f"] assms that by fastforce
  ultimately show ?thesis by (simp add: load_def)
qed

section \<open>What an accepted file establishes\<close>

lemma rd_boots_wf: "rd_boots n m bs = Some (m', bs') \<Longrightarrow> um_wf m \<Longrightarrow> um_wf m'"
proof (induction n m bs rule: rd_boots.induct)
  case (2 n m bs)
  then show ?case by (fastforce simp: bind_eq_Some_conv)
qed simp

lemma load_boots_wf: "load_boots bs = Some (m, bs') \<Longrightarrow> um_wf m"
  by (auto simp: load_boots_def bind_eq_Some_conv dest: rd_boots_wf)

lemma rd_domain_ok: "rd_domain k bs = Some (d, bs') \<Longrightarrow> domain_ok k d"
  by (auto simp: rd_domain_def bind_eq_Some_conv domain_ok_def default_domain_def empty_measurements_def)

lemma rd_domains_ok:
  assumes "rd_domains n gens m bs = Some (m', bs')" "um_wf m" "\<And>k d. um_find m k = Some d \<Longrightarrow> domain_ok k d"
  shows "um_wf m' \<and> (\<forall>k d. um_find m' k = Some d \<longrightarrow> domain_ok k d)"
  using assms
proof (induction n arbitrary: gens m bs)
  case (Suc n)
  then obtain k b1 d b2 where d: "rd_domain k b1 = Some (d, b2)" "um_find m k = None"
      and rest: "rd_domains n (um_assign gens k (genv (ref_gen (d_ref d)))) (um_emplace m k d) b2 = Some (m', bs')"
    by (auto simp: bind_eq_Some_conv)
  show ?case
    by (rule Suc.IH [OF rest]) (use Suc.prems(2,3) rd_domain_ok [OF d(1)] in \<open>auto split: option.splits if_splits\<close>)
qed auto

lemma rd_flows_ok:
  assumes "rd_flows n gens m bs = Some (m', bs')" "um_wf m" "\<And>k f. um_find m k = Some f \<Longrightarrow> flow_acceptable k f"
  shows "um_wf m' \<and> (\<forall>k f. um_find m' k = Some f \<longrightarrow> flow_acceptable k f)"
  using assms
proof (induction n arbitrary: gens m bs)
  case (Suc n)
  then obtain k b1 f b2 where f: "flow_acceptable k f" "um_find m k = None"
      and rest: "rd_flows n (um_assign gens k (genv (ref_gen (fl_ref f)))) (um_emplace m k f) b2 = Some (m', bs')"
    by (auto simp: bind_eq_Some_conv)
  show ?case
    by (rule Suc.IH [OF rest]) (use Suc.prems(2,3) f in \<open>auto split: option.splits if_splits\<close>)
qed auto

lemma recover_flow_parked: "flow_terminal (recover_flow f) \<or> parked (fl_state (recover_flow f))"
  by (auto simp: recover_flow_def flow_terminal_def parked_def)

lemma recover_flow_ok: "accounting_valid f \<Longrightarrow> flow_ok (recover_flow f)"
  using recover_flow_parked [of f]
  by (auto simp: flow_ok_def accounting_valid_def recover_flow_def flow_terminal_def parked_def flow_state_preds)

lemma recover_domain_state: "d_state (recover_domain d) = CS_UNKNOWN \<or> d_state (recover_domain d) = CS_REVALIDATION_REQUIRED"
  by (simp add: recover_domain_def)

lemma rd_payload_ok:
  assumes "rd_payload p = Some du"
  shows "um_wf (du_worker_boot du) \<and> um_wf (du_source_boot du) \<and> um_wf (du_domains du) \<and> um_wf (du_flows du) \<and>
    (\<forall>k d. um_find (du_domains du) k = Some d \<longrightarrow> domain_ok k d) \<and>
    (\<forall>k f. um_find (du_flows du) k = Some f \<longrightarrow> flow_acceptable k f)"
proof -
  from assms obtain b1 b2 b3 b4 b5 b6 b7 dn fn where r:
    "load_boots b1 = Some (du_worker_boot du, b2)" "load_boots b2 = Some (du_source_boot du, b3)"
    "rd_domains dn [] [] b4 = Some (du_domains du, b5)" "rd_flows fn [] [] b6 = Some (du_flows du, b7)"
    by (auto simp: rd_payload_def bind_eq_Some_conv)
  then show ?thesis
    using load_boots_wf [OF r(1)] load_boots_wf [OF r(2)] rd_domains_ok [OF r(3)] rd_flows_ok [OF r(4)] by simp
qed

lemma commit_load_inv:
  assumes "rd_payload p = Some du"
  shows "engine_inv (commit_load du e)"
  using rd_payload_ok [OF assms]
  by (auto simp: engine_inv_def commit_load_def domain_ok_def recover_domain_def flow_acceptable_def
      recover_flow_ok um_wf_intros) (simp add: recover_flow_def)

text \<open>C8: whatever the bytes of the file, a successful \<^verbatim>\<open>load\<close> leaves the engine in a state that
  satisfies its invariant, with every flow terminal or parked and every domain unknown or marked
  for revalidation, so that a domain that had been classified is not reported authoritatively; an
  unsuccessful one changes nothing.\<close>

theorem load_establishes_invariant:
  assumes "load file e = (ok, e')"
  shows "if ok then engine_inv e' \<and>
      (\<forall>k f. flow_of e' k = Some f \<longrightarrow> flow_terminal f \<or> parked (fl_state f)) \<and>
      (\<forall>k d. domain_of e' k = Some d \<longrightarrow> d_state d = CS_UNKNOWN \<or>
        d_state d = CS_REVALIDATION_REQUIRED \<and> \<not> as_authoritative (assess_congestion k e'))
    else e' = e"
proof (cases ok)
  case True
  then obtain du p where e': "e' = commit_load du e" and p: "rd_payload p = Some du"
    using assms parse_file_envelope by (auto simp: load_def split: option.splits)
  have "d_state d = CS_UNKNOWN \<or> d_state d = CS_REVALIDATION_REQUIRED"
    if "domain_of e' k = Some d" for k d
    using that recover_domain_state by (auto simp: e' domain_of_def commit_load_def)
  then have "d_state d = CS_UNKNOWN \<or> d_state d = CS_REVALIDATION_REQUIRED \<and> \<not> as_authoritative (assess_congestion k e')"
    if "domain_of e' k = Some d" for k d
    using that by (auto simp: assess_congestion_def domain_of_def assess_domain_def needs_revalidation_def
        classify_def default_assessment_def)
  moreover have "flow_terminal f \<or> parked (fl_state f)" if "flow_of e' k = Some f" for k f
    using that recover_flow_parked by (auto simp: e' flow_of_def commit_load_def)
  ultimately show ?thesis using True commit_load_inv [OF p, of e] by (simp add: e')
qed (use assms in \<open>auto simp: load_def split: option.splits\<close>)

text \<open>C3: loading the saved file of a \<open>storable\<close> state succeeds and restores the epoch, both boot registries, the
  counters, every flow with its identity, ownership and byte counters, and the durable part of
  every domain; only the states change, to those that require revalidation.\<close>

theorem load_restores_save:
  assumes "storable e"
  shows "\<exists>e'. load (Some (save_file e)) e0 = (True, e') \<and> cf_epoch e' = cf_epoch e \<and>
    (\<forall>w. um_find (cf_worker_boot e') w = um_find (cf_worker_boot e) w) \<and>
    (\<forall>s. um_find (cf_source_boot e') s = um_find (cf_source_boot e) s) \<and>
    (\<forall>k. flow_of e' k = map_option recover_flow (flow_of e k)) \<and>
    (\<forall>k. domain_of e' k = map_option (recover_domain \<circ> durable_domain) (domain_of e k)) \<and>
    cf_next_domain e' = cf_next_domain e \<and> cf_next_flow e' = cf_next_flow e \<and>
    cf_next_event e' = cf_next_event e \<and> cf_next_policy e' = cf_next_policy e"
  using parse_save [OF assms]
  by (auto simp: load_def commit_load_def durable_of_def flow_of_def domain_of_def option.map_comp)

section \<open>Witnesses\<close>

lemma wr_lengths: "length (wr_u8 a) = 1" "length (wr_u32 b) = 4" "length (wr_u64 c) = 8"
  by (simp_all add: wr_u8_def wr_u32_def wr_u64_def)

lemmas sample_state = sample_active_eval sample_declared_eval sample_engine_eval new_fabric_def
lemmas sample_values = sample_domain_def default_domain_def sample_options_def default_options_def
  flow_of_options_def default_fairness_config_def default_episode_def invalid_ref_def

lemma sample_domain_storable: "domain_storable (sample_domain\<lparr>d_flows := [sample_ref]\<rparr>)"
  using sample_capacity_valid
  by (simp add: domain_storable_def sample_values provs_named_def MeasurementProvenance_named_def
      MeasurementProvenance_enum_def DomainKind_named_def DomainKind_enum_def FairnessModel_named_def
      FairnessModel_enum_def fairness_valid_def d_one_def default_bucket_def token_bucket_def
      episode_storable_def str_ok_def capacity_storable_def rate_storable_def sample_capacity_def
      BandwidthKind_named_def BandwidthKind_enum_def capacity_eval)

lemma sample_flow_storable:
  assumes "um_find (cf_flows sample_active) k = Some f"
  shows "k = Id 1 \<and> flow_acceptable k f \<and> flow_storable f"
  using assms
  by (auto simp: sample_state um_find_def flow_acceptable_def flow_storable_def sample_values flow_state_valid_def
      traffic_class_valid_def accounting_valid_def fairness_valid_def d_one_def double_eval str_ok_def
      TrafficClass_named_def TrafficClass_enum_def FairnessModel_named_def FairnessModel_enum_def
      MeasurementProvenance_named_def MeasurementProvenance_enum_def split: if_splits)

lemma sample_file_small: "length (save_file sample_active) \<le> 2 ^ 30"
  by (simp add: save_file_def envelope_length [symmetric] save_payload_def sample_state wr_boots_def wr_id_def
      wr_gen_def wr_domain_def wr_flow_def wr_ref_def wr_bytes_def wr_bool_def wr_str_def wr_capacity_def
      wr_rate_def wr_fairness_def wr_measured_def wr_episode_def wr_lengths sample_values)

lemma sample_active_storable: "storable sample_active"
proof -
  have "list_all (\<lambda>(k, f). id_valid k \<and> flow_acceptable k f \<and> flow_storable f) (cf_flows sample_active)"
    using sample_flow_storable [of "Id 1"] by (simp add: sample_state um_find_def id_valid_def)
  then show ?thesis
    using sample_inv(5) sample_domain_storable sample_file_small
    by (simp add: storable_def engine_inv_def)
      (simp add: sample_state gen_valid_def id_valid_def sample_domain_def)
qed

theorem load_restores_save_witness:
  "\<exists>e'. load (Some (save_file sample_active)) (new_fabric default_limits) = (True, e') \<and>
     map_option fl_state (flow_of e' (Id 1)) = Some FS_REVALIDATION_REQUIRED \<and>
     map_option completed_bytes (flow_of e' (Id 1)) = Some (ByteCounter 0)"
  using load_restores_save [OF sample_active_storable, of "new_fabric default_limits"]
  by (auto simp: flow_of_def sample_state um_find_def recover_flow_def flow_terminal_def flow_state_preds sample_values)

theorem load_establishes_invariant_witness:
  "\<exists>e'. load (Some (save_file sample_active)) (new_fabric default_limits) = (True, e') \<and> engine_inv e'"
  using load_establishes_invariant [of "Some (save_file sample_active)" "new_fabric default_limits" True]
    parse_save [OF sample_active_storable] by (simp add: load_def)

theorem load_detects_burst_witness:
  "load (Some (0x44 # tl (save_file sample_active))) sample_active = (False, sample_active)"
  using load_detects_burst [of "[]" "[0x43]" "tl (save_file sample_active)" "[0x44]" sample_active]
    parse_save [OF sample_active_storable]
  by (simp add: save_file_def envelope_def kMagic_def Let_def)

theorem load_detects_length_witness:
  "load (Some (save_file sample_active @ [0])) sample_active = (False, sample_active) \<and>
   load (Some (take 30 (save_file sample_active))) sample_active = (False, sample_active)"
proof -
  have "30 < length (save_file sample_active)"
    by (simp add: save_file_def envelope_length [symmetric] save_payload_def wr_lengths wr_gen_def)
  then show ?thesis
    using load_detects_length [of "save_file sample_active" "[0]" sample_active 30]
      parse_save [OF sample_active_storable] by simp
qed

end
