(* ===== verification/Runs.thy ===== *)
theory Runs
  imports Durability
begin

text \<open>
  The engine as a state machine: a \<open>call\<close> is one public mutating method with its arguments,
  \<open>exec\<close> performs it (the methods run under one lock, so a concurrent history is a sequence of
  calls), \<open>reachable\<close> are the states any sequence of calls leads to, \<open>session\<close> relates the
  states of one run of the process without a \<^verbatim>\<open>load\<close>. The clock value of a call is arbitrary.
  The theorems lift the invariants and the evolution order of one step to all histories.
\<close>

section \<open>Calls\<close>

datatype call =
    AdvanceEpoch CoordinatorEpoch
  | RegisterWorker WorkerId WorkerBootId
  | RegisterSource SourceId SourceBootId
  | FenceWorker WorkerId WorkerBootId
  | FenceSource SourceId SourceBootId
  | CreateDomain DomainKind CapacityProfile
  | RemoveDomain CongestionDomainId
  | DeclareFlow FlowOptions
  | AdmitFlow FlowRef
  | QueueFlow FlowRef
  | StartFlow FlowRef WorkerBootId
  | FlowProgress FlowRef WorkerBootId u64
  | FlowComplete FlowRef WorkerBootId
  | FlowCancel FlowRef WorkerBootId u64
  | FlowFail FlowRef WorkerBootId
  | AdvanceFlowGeneration FlowRef FlowGeneration
  | RevalidateFlow FlowRef WorkerBootId
  | PublishMeasurement CongestionDomainId Measurement WorkerId WorkerBootId
  | RecomputeDomain CongestionDomainId
  | ApplyLocalShaping CongestionDomainId BackpressureAction
  | RecoverDynamicEvidence
  | Load "u8 list option"

text \<open>The success flag of a call: its boolean result, or whether it returned a valid reference.
  \<open>None\<close> is undefined behaviour.\<close>

definition ref_result :: "'t EntityRef \<times> CongestionFabric \<Rightarrow> bool \<times> CongestionFabric" where
  "ref_result r = (case r of (ref, e) \<Rightarrow> (ref_valid ref, e))"

fun exec :: "u64 \<Rightarrow> call \<Rightarrow> CongestionFabric \<Rightarrow> (bool \<times> CongestionFabric) option" where
  "exec now (AdvanceEpoch n) e = Some (advance_epoch n e)"
| "exec now (RegisterWorker w b) e = Some (register_worker w b e)"
| "exec now (RegisterSource s b) e = Some (register_source s b e)"
| "exec now (FenceWorker w b) e = Some (fence_worker w b e)"
| "exec now (FenceSource s b) e = Some (fence_source s b e)"
| "exec now (CreateDomain k c) e = Some (ref_result (create_domain k c e))"
| "exec now (RemoveDomain k) e = Some (remove_domain k e)"
| "exec now (DeclareFlow opts) e = Some (ref_result (declare_flow opts now e))"
| "exec now (AdmitFlow r) e = Some (admit_flow r e)"
| "exec now (QueueFlow r) e = Some (queue_flow r e)"
| "exec now (StartFlow r b) e = Some (start_flow r b now e)"
| "exec now (FlowProgress r b n) e = Some (flow_progress r b n now e)"
| "exec now (FlowComplete r b) e = Some (flow_complete r b now e)"
| "exec now (FlowCancel r b n) e = Some (flow_cancel r b n now e)"
| "exec now (FlowFail r b) e = Some (flow_fail r b now e)"
| "exec now (AdvanceFlowGeneration r g) e = Some (advance_flow_generation r g e)"
| "exec now (RevalidateFlow r b) e = Some (revalidate_flow r b e)"
| "exec now (PublishMeasurement k m w b) e = publish_measurement k m w b e"
| "exec now (RecomputeDomain k) e = Some (True, snd (recompute_domain k now e))"
| "exec now (ApplyLocalShaping k a) e = Some (apply_local_shaping k a e)"
| "exec now RecoverDynamicEvidence e = Some (True, recover_dynamic_evidence e)"
| "exec now (Load file) e = Some (load file e)"

fun is_load :: "call \<Rightarrow> bool" where
  "is_load (Load _) = True"
| "is_load _ = False"

inductive reachable :: "EngineLimits \<Rightarrow> CongestionFabric \<Rightarrow> bool" for lims where
  init: "reachable lims (new_fabric lims)"
| step: "reachable lims e \<Longrightarrow> exec now c e = Some (r, e') \<Longrightarrow> reachable lims e'"

inductive session :: "CongestionFabric \<Rightarrow> CongestionFabric \<Rightarrow> bool" for e where
  refl: "session e e"
| step: "session e e1 \<Longrightarrow> \<not> is_load c \<Longrightarrow> exec now c e1 = Some (r, e2) \<Longrightarrow> session e e2"

lemma exec_good:
  assumes "exec now c e = Some (r, e')" "\<not> is_load c"
  shows "good_step e e'"
  using assms op_good
  by (cases c) (auto simp: ref_result_def split: prod.splits; metis snd_conv)+

lemma exec_inv: "exec now c e = Some (r, e') \<Longrightarrow> engine_inv e \<Longrightarrow> engine_inv e'"
proof (cases "is_load c")
  case True
  then obtain bs where c: "c = Load bs" by (cases c) auto
  assume "exec now c e = Some (r, e')" "engine_inv e"
  then show ?thesis
    using commit_load_inv by (auto simp: c load_def split: option.splits dest!: parse_file_envelope)
next
  case False
  assume "exec now c e = Some (r, e')" "engine_inv e"
  then show ?thesis using exec_good [OF _ False] by (auto simp: good_step_def)
qed

lemma reachable_inv: "reachable lims e \<Longrightarrow> engine_inv e"
  by (induction rule: reachable.induct) (auto intro: exec_inv simp: new_fabric_inv)

lemma session_good: "session e e' \<Longrightarrow> good_step e e'"
  by (induction rule: session.induct) (auto intro: good_step_trans exec_good)

lemma session_reachable: "session e e' \<Longrightarrow> reachable lims e \<Longrightarrow> reachable lims e'"
  by (induction rule: session.induct) (auto intro: reachable.step)

lemma evolves_lookup:
  assumes "engine_evolves e e'"
  shows "um_find (cf_flows e) k = Some f \<Longrightarrow> \<exists>g. um_find (cf_flows e') k = Some g \<and> flow_evolves f g"
    and "um_find (cf_worker_boot e) w = Some b \<Longrightarrow> \<exists>b'. um_find (cf_worker_boot e') w = Some b' \<and> b \<le> b'"
    and "um_find (cf_source_boot e) s = Some c \<Longrightarrow> \<exists>c'. um_find (cf_source_boot e') s = Some c' \<and> c \<le> c'"
  using assms unfolding engine_evolves_def map_grows_def by blast+

section \<open>Accounting and history\<close>

text \<open>In every reachable state, loads of arbitrary files included, each indexed flow is stored
  under its own id, its completed, in-flight and admitted bytes never exceed admitted and submitted
  bytes, and it is in none of the states no method ever enters.\<close>

theorem reachable_flow_accounting:
  assumes "reachable lims e" "flow_of e k = Some f"
  shows "accounting_valid f \<and> ref_id (fl_ref f) = k \<and>
    fl_state f \<notin> {FS_VALIDATING, FS_BACKPRESSURED, FS_THROTTLED, FS_DRAINING}"
  using reachable_inv [OF assms(1)] assms(2) by (auto simp: engine_inv_def flow_of_def flow_ok_def)

text \<open>C1: in a run without loads no byte of a flow is accounted for twice: completed,
  cancelled and failed bytes add up to at most the admitted bytes (a partial cancel leaves the rest in no counter), a terminal flow has nothing in
  flight, a completed one has completed everything it was admitted for, and no byte is cancelled or
  failed before the flow is closed.\<close>

theorem session_exact_accounting:
  assumes "session (new_fabric lims) e" "flow_of e k = Some f"
  shows "bcv (completed_bytes f) + bcv (cancelled_bytes f) + bcv (failed_bytes f) \<le> bcv (admitted_bytes f) \<and>
    (flow_terminal f \<longrightarrow> bc_value (in_flight_bytes f) = 0) \<and>
    (fl_state f = FS_COMPLETED \<longrightarrow> completed_bytes f = admitted_bytes f) \<and>
    (\<not> flow_terminal f \<longrightarrow> bc_value (cancelled_bytes f) = 0 \<and> bc_value (failed_bytes f) = 0)"
proof -
  have "engine_exact e"
    using session_good [OF assms(1)] new_fabric_inv by (simp add: good_step_def)
  then show ?thesis using assms(2) by (auto simp: engine_exact_def flow_of_def flow_exact_def)
qed

text \<open>C10: along any run without loads no flow is lost and every flow only evolves: identity,
  owner, domain and submitted bytes never change, the generation and the admitted, completed, cancelled and failed
  bytes never go back (the bytes in flight do), a terminal flow keeps its state and all counters forever, and a stale or
  revalidation-required flow never leaves that group and never moves a byte again.\<close>

theorem session_flow_history:
  assumes "engine_inv e" "session e e'" "flow_of e k = Some f"
  shows "\<exists>g. flow_of e' k = Some g \<and> flow_evolves f g"
  using session_good [OF assms(2)] assms(1,3)
  by (auto simp: good_step_def engine_evolves_def map_grows_def flow_of_def)

text \<open>The coordinator epoch and every registered worker and source boot only grow along a
  run, and no registration is forgotten.\<close>

theorem session_authority_monotone:
  assumes "engine_inv e" "session e e'"
  shows "cf_epoch e \<le> cf_epoch e' \<and>
    (\<forall>w b. um_find (cf_worker_boot e) w = Some b \<longrightarrow> (\<exists>b'. um_find (cf_worker_boot e') w = Some b' \<and> b \<le> b')) \<and>
    (\<forall>s b. um_find (cf_source_boot e) s = Some b \<longrightarrow> (\<exists>b'. um_find (cf_source_boot e') s = Some b' \<and> b \<le> b'))"
  using session_good [OF assms(2)] assms(1)
  by (simp add: good_step_def engine_evolves_def map_grows_def)

text \<open>In a run without loads a domain's flow list names each flow at most once, and only
  admitted flows of that domain.\<close>

theorem session_bound_once:
  assumes "session (new_fabric lims) e" "domain_of e k = Some d"
  shows "distinct (map ref_id (d_flows d)) \<and> (\<forall>r\<in>set (d_flows d). \<exists>f. flow_of e (ref_id r) = Some f \<and>
    ref_id (fl_domain f) = k \<and> fl_state f \<noteq> FS_DECLARED)"
proof -
  have "engine_exact e"
    using session_good [OF assms(1)] new_fabric_inv by (simp add: good_step_def)
  then show ?thesis using assms(2) by (auto simp: engine_exact_def domain_of_def flow_of_def bound_to_def)
qed

section \<open>Fencing\<close>

lemma fence_workerD:
  assumes "fence_worker w b e = (True, e1)"
  shows "um_find (cf_worker_boot e) w = Some b" "um_find (cf_worker_boot e1) w = Some (gen_next b)"
    "cf_flows e1 = um_map (fence_flow (\<lambda>f. fl_owner_worker f = w \<and> fl_owner_boot f = b)) (cf_flows e)"
    "cf_domains e1 = fence_domains w b False (cf_domains e)"
  using assms by (auto simp: fence_worker_def split: if_splits option.splits)

lemma fenced_parked:
  "P f \<Longrightarrow> flow_terminal (fence_flow P f) \<or> parked (fl_state (fence_flow P f))"
  "flow_counters (fence_flow P f) = flow_counters f" "flow_terminal (fence_flow P f) \<longleftrightarrow> flow_terminal f"
  by (auto simp: fence_flow_def flow_terminal_def parked_def flow_state_preds flow_counters_def)

lemma stale_boot_refused:
  assumes "um_find (cf_worker_boot e) w = Some b'" "b < b'"
  shows "register_worker w b e = (False, e)"
    "o_owner_worker opts = w \<Longrightarrow> o_owner_boot opts = b \<Longrightarrow> declare_flow opts now e = (invalid_ref, e)"
    "id_valid w \<Longrightarrow> publish_measurement k m w b e = Some (False, e)"
  using assms
  by (auto simp: register_worker_def less_Generation_def declare_flow_def declare_allowed_def
      publish_measurement_def split: option.split)

lemma fenced_incarnation:
  assumes "engine_inv e" "fence_worker w b e = (True, e1)" "genv b \<noteq> - 1" "session e1 e2"
  shows "(\<forall>k f. flow_of e k = Some f \<and> fl_owner_worker f = w \<and> fl_owner_boot f = b \<and> \<not> flow_terminal f \<longrightarrow>
      (\<exists>g. flow_of e2 k = Some g \<and> parked (fl_state g) \<and> flow_counters g = flow_counters f)) \<and>
    register_worker w b e2 = (False, e2) \<and>
    (\<forall>opts now. o_owner_worker opts = w \<and> o_owner_boot opts = b \<longrightarrow> declare_flow opts now e2 = (invalid_ref, e2)) \<and>
    (\<forall>k m. publish_measurement k m w b e2 = Some (False, e2))"
proof -
  have e1: "engine_inv e1"
    using good_fence_worker [of e w b] assms(1,2) by (simp add: good_step_def)
  have ev: "engine_evolves e1 e2" using session_good [OF assms(4)] e1 by (simp add: good_step_def)
  obtain b' where b': "um_find (cf_worker_boot e2) w = Some b'" "gen_next b \<le> b'"
    using evolves_lookup(2) [OF ev fence_workerD(2) [OF assms(2)]] by blast
  then have newer: "b < b'" using gen_next_greater [OF assms(3)] by (rule_tac less_le_trans) auto
  moreover have "id_valid w" using assms(2) by (auto simp: fence_worker_def split: if_splits)
  moreover note stale_boot_refused [OF b'(1) newer]
  moreover have "\<exists>g. flow_of e2 k = Some g \<and> parked (fl_state g) \<and> flow_counters g = flow_counters f"
    if f: "flow_of e k = Some f" "fl_owner_worker f = w" "fl_owner_boot f = b" "\<not> flow_terminal f" for k f
  proof -
    let ?h = "fence_flow (\<lambda>f. fl_owner_worker f = w \<and> fl_owner_boot f = b) f"
    have "flow_of e1 k = Some ?h" using f(1) fence_workerD(3) [OF assms(2)] by (simp add: flow_of_def)
    then obtain g where "flow_of e2 k = Some g" "flow_evolves ?h g"
      using evolves_lookup(1) [OF ev] by (auto simp: flow_of_def)
    moreover have "parked (fl_state ?h)" "flow_counters ?h = flow_counters f"
      using f fenced_parked [of "\<lambda>f. fl_owner_worker f = w \<and> fl_owner_boot f = b" f] by auto
    ultimately show ?thesis by (auto simp: flow_evolves_def)
  qed
  ultimately show ?thesis by simp
qed

text \<open>C2: once a worker incarnation is fenced it has lost its authority for good: through any
  later run its unfinished flows stay parked with their byte counters frozen, its boot can neither
  register again, nor declare a flow, nor publish owned evidence. (The fence moves the registry past
  the dead boot, which needs a boot id below the maximum.)\<close>

theorem fenced_worker_powerless:
  assumes "engine_inv e" "fence_worker w b e = (True, e1)" "genv b \<noteq> - 1" "session e1 e2"
  shows "(\<forall>k f. flow_of e k = Some f \<and> fl_owner_worker f = w \<and> fl_owner_boot f = b \<and> \<not> flow_terminal f \<longrightarrow>
      (\<exists>g. flow_of e2 k = Some g \<and> parked (fl_state g) \<and> flow_counters g = flow_counters f)) \<and>
    register_worker w b e2 = (False, e2) \<and>
    (\<forall>opts now. o_owner_worker opts = w \<and> o_owner_boot opts = b \<longrightarrow> declare_flow opts now e2 = (invalid_ref, e2)) \<and>
    (\<forall>k m. publish_measurement k m w b e2 = Some (False, e2))"
  using assms by (rule fenced_incarnation)

section \<open>Authority and atomicity of single calls\<close>

lemma set_flow_same: "um_find (cf_flows e) k = Some f \<Longrightarrow> set_flow e k f = e"
  by (simp add: um_assign_same)

lemma on_flow_refused:
  assumes "find_flow (cf_flows e) ref = Some f" "body f = (False, f)"
  shows "on_flow ref body e = (False, e)"
  using assms find_flow_SomeD [OF assms(1)] by (simp add: on_flow_def um_assign_same)

lemma release_slot_False [simp]: "release_slot (False, e) = (False, e)"
  by (simp add: release_slot_def)

text \<open>An operation on a flow whose reference carries another generation than the indexed one,
  or that names another boot than the flow's owner, is refused and changes nothing.\<close>

theorem stale_authority_rejected:
  assumes "\<forall>f. um_find (cf_flows e) (ref_id ref) = Some f \<longrightarrow> ref_gen (fl_ref f) \<noteq> ref_gen ref \<or> fl_owner_boot f \<noteq> b"
  shows "start_flow ref b now e = (False, e) \<and> flow_progress ref b n now e = (False, e) \<and>
    flow_complete ref b now e = (False, e) \<and> flow_cancel ref b n now e = (False, e) \<and>
    flow_fail ref b now e = (False, e) \<and> revalidate_flow ref b e = (False, e)"
proof (cases "find_flow (cf_flows e) ref")
  case None
  then show ?thesis
    by (simp add: start_flow_def flow_progress_def flow_complete_def flow_cancel_def flow_fail_def
        revalidate_flow_def on_flow_def)
next
  case (Some f)
  then have f: "um_find (cf_flows e) (ref_id ref) = Some f" "fl_owner_boot f \<noteq> b"
    using assms find_flow_SomeD [OF Some] by auto
  then have "start_flow ref b now e = (False, e)"
    using Some by (simp add: start_flow_def start_body_def um_assign_same)
  then show ?thesis
    using f(2) on_flow_refused [OF Some]
    by (simp add: flow_progress_def flow_complete_def flow_cancel_def flow_fail_def revalidate_flow_def
        progress_body_def complete_body_def cancel_body_def fail_body_def revalidate_body_def)
qed

text \<open>Whether the id a call would assign is free: not the invalid id 0 and not in the index. Every call but the two that
  create an entity assigns none.\<close>

fun id_free :: "call \<Rightarrow> CongestionFabric \<Rightarrow> bool" where
  "id_free (CreateDomain _ _) e \<longleftrightarrow> cf_next_domain e \<noteq> 0 \<and> um_find (cf_domains e) (Id (cf_next_domain e)) = None"
| "id_free (DeclareFlow _) e \<longleftrightarrow> cf_next_flow e \<noteq> 0 \<and> um_find (cf_flows e) (Id (cf_next_flow e)) = None"
| "id_free _ _ \<longleftrightarrow> True"

lemma create_atomic: "exec now (CreateDomain kind cap) e = Some (False, e') \<Longrightarrow> id_free (CreateDomain kind cap) e \<Longrightarrow> e' = e"
  by (auto simp: create_domain_def ref_result_def ref_valid_def id_valid_def gen_valid_def Let_def split: if_splits)

lemma declare_atomic: "exec now (DeclareFlow opts) e = Some (False, e') \<Longrightarrow> id_free (DeclareFlow opts) e \<Longrightarrow> e' = e"
  by (auto simp: declare_flow_def flow_of_options_def ref_result_def ref_valid_def id_valid_def gen_valid_def Let_def
      split: if_splits)

lemma on_flow_atomic:
  assumes inv: "engine_inv e" and r: "on_flow ref body e = (False, e')"
    and "\<And>f. flow_ok f \<Longrightarrow> \<not> fst (body f) \<Longrightarrow> snd (body f) = f"
  shows "e' = e"
proof (cases "find_flow (cf_flows e) ref")
  case (Some f)
  then have "flow_ok f" using inv find_flow_SomeD [OF Some] by (auto simp: engine_inv_def)
  then show ?thesis
    using r Some assms(3) [of f] find_flow_SomeD [OF Some]
    by (cases "body f") (auto simp: on_flow_def um_assign_same)
qed (use r in \<open>simp add: on_flow_def\<close>)

lemma release_slot_atomic: "release_slot r = (False, e') \<Longrightarrow> r = (False, e')"
  by (auto simp: release_slot_def split: prod.splits if_splits)

lemma start_flow_atomic:
  assumes "engine_inv e" "start_flow ref b now e = (False, e')"
  shows "e' = e"
proof (cases "find_flow (cf_flows e) ref")
  case (Some f)
  then have ok: "flow_ok f" using assms(1) find_flow_SomeD [OF Some] by (auto simp: engine_inv_def)
  show ?thesis
    using assms(2) Some start.no_partial [OF _ ok, of b now] find_flow_SomeD [OF Some]
    by (cases "start_body b now f") (auto simp: start_flow_def um_assign_same split: option.splits if_splits)
qed (use assms in \<open>simp add: start_flow_def\<close>)

lemma exec_atomic:
  assumes "engine_inv e" "exec now c e = Some (False, e')" "id_free c e"
  shows "e' = e"
proof (cases c)
  case (StartFlow ref b)
  then show ?thesis using start_flow_atomic [OF assms(1)] assms(2) by simp
next
  case (FlowProgress ref b n)
  then show ?thesis
    using assms(2) progress.no_partial by (auto simp: flow_progress_def intro: on_flow_atomic [OF assms(1)])
next
  case (FlowComplete ref b)
  then show ?thesis
    using assms(2) complete.no_partial
    by (auto simp: flow_complete_def dest!: release_slot_atomic intro: on_flow_atomic [OF assms(1)])
next
  case (FlowCancel ref b n)
  then show ?thesis
    using assms(2) cancel.no_partial
    by (auto simp: flow_cancel_def dest!: release_slot_atomic intro: on_flow_atomic [OF assms(1)])
next
  case (FlowFail ref b)
  then show ?thesis
    using assms(2) fail.no_partial
    by (auto simp: flow_fail_def dest!: release_slot_atomic intro: on_flow_atomic [OF assms(1)])
next
  case (RevalidateFlow ref b)
  then show ?thesis
    using assms(2) revalidate.no_partial by (auto simp: revalidate_flow_def intro: on_flow_atomic [OF assms(1)])
next
  case (AdmitFlow ref)
  then show ?thesis using assms(2) admit_flow_cases [OF assms(1), of ref] by auto
next
  case (RemoveDomain k)
  then show ?thesis using assms(2) by (auto simp: remove_domain_def um_erase_absent)
next
  case (CreateDomain kind cap)
  then show ?thesis using assms(2,3) create_atomic by metis
next
  case (DeclareFlow opts)
  then show ?thesis using assms(2,3) declare_atomic by metis
qed (use assms(2,3) in \<open>auto simp: advance_epoch_def register_worker_def register_source_def fence_worker_def
    fence_source_def queue_flow_def advance_flow_generation_def publish_measurement_def apply_local_shaping_def
    load_def Let_def split: if_splits option.splits\<close>)

text \<open>C13: a call that reports failure, by returning false or an invalid reference, has changed
  nothing. (Several methods write to the flow before a later check; the invariant makes those checks succeed. A
  create or declare needs the id it would assign to be free: with a counter of 0, which a loaded file may hold, the
  entity is inserted and its reference is invalid.)\<close>

theorem failed_calls_atomic:
  assumes "engine_inv e" "exec now c e = Some (False, e')" "id_free c e"
  shows "e' = e"
  using assms by (rule exec_atomic)

section \<open>The lifecycle table\<close>

text \<open>Steps in which every flow's state stays or follows the table.\<close>

definition table_step :: "CongestionFabric \<Rightarrow> CongestionFabric \<Rightarrow> bool" where
  "table_step e e' \<longleftrightarrow> (\<forall>k f g. um_find (cf_flows e) k = Some f \<longrightarrow> um_find (cf_flows e') k = Some g \<longrightarrow>
     fl_state g = fl_state f \<or> flow_transition_allowed (fl_state f) (fl_state g))"

lemma table_same_flows: "cf_flows e' = cf_flows e \<Longrightarrow> table_step e e'"
  by (simp add: table_step_def)

lemma table_set_flow:
  assumes "um_find (cf_flows e) k = Some f" "cf_flows e' = um_assign (cf_flows e) k g"
    and "fl_state g = fl_state f \<or> flow_transition_allowed (fl_state f) (fl_state g)"
  shows "table_step e e'"
  using assms by (simp add: table_step_def)

lemma table_on_flow:
  assumes "engine_inv e"
    and "\<And>f. flow_ok f \<Longrightarrow> fl_state (snd (body f)) = fl_state f \<or> flow_transition_allowed (fl_state f) (fl_state (snd (body f)))"
  shows "table_step e (snd (on_flow ref body e))"
proof (cases "find_flow (cf_flows e) ref")
  case (Some f)
  then have "flow_ok f" using assms(1) find_flow_SomeD [OF Some] by (auto simp: engine_inv_def)
  then show ?thesis
    using Some assms(2) [of f] find_flow_SomeD [OF Some]
    by (intro table_set_flow [where f = f and k = "ref_id ref" and g = "snd (body f)"])
      (auto simp: on_flow_def split: prod.split)
qed (simp add: on_flow_def table_same_flows)

lemma table_release: "table_step e (snd (release_slot r)) = table_step e (snd r)"
  by (cases r) (simp add: release_slot_def table_step_def)

lemma table_start_flow:
  assumes "engine_inv e"
  shows "table_step e (snd (start_flow ref b now e))"
proof (cases "find_flow (cf_flows e) ref")
  case (Some f)
  then have "flow_ok f" using assms find_flow_SomeD [OF Some] by (auto simp: engine_inv_def)
  then show ?thesis
    using Some start.guarded [of f b now] find_flow_SomeD [OF Some]
    by (intro table_set_flow [where f = f and k = "ref_id ref" and g = "snd (start_body b now f)"])
      (auto simp: start_flow_def split: prod.split option.split)
qed (simp add: start_flow_def table_same_flows)

lemma table_admit_flow: "engine_inv e \<Longrightarrow> table_step e (snd (admit_flow ref e))"
  using admit_flow_cases [of e ref]
  by (auto simp: table_same_flows dest!: find_flow_SomeD intro: table_set_flow)

lemma table_queue_flow: "table_step e (snd (queue_flow ref e))"
  by (auto simp: queue_flow_def table_same_flows split: option.split dest!: find_flow_SomeD intro: table_set_flow)

lemma table_advance_generation: "table_step e (snd (advance_flow_generation ref g e))"
  by (auto simp: advance_flow_generation_def table_same_flows split: option.split intro: table_set_flow)

lemma table_declare: "table_step e (snd (declare_flow opts now e))"
  by (auto simp: declare_flow_def table_step_def Let_def)

lemma table_publish: "publish_measurement k m w b e = Some (r, e') \<Longrightarrow> table_step e e'"
  by (rule table_same_flows) (auto simp: publish_measurement_def Let_def split: if_splits option.splits)

fun parks_flows :: "call \<Rightarrow> FlowState option" where
  "parks_flows (FenceWorker _ _) = Some FS_STALE"
| "parks_flows (FenceSource _ _) = Some FS_STALE"
| "parks_flows RecoverDynamicEvidence = Some FS_REVALIDATION_REQUIRED"
| "parks_flows _ = None"

lemma exec_table:
  assumes "engine_inv e" "exec now c e = Some (r, e')" "\<not> is_load c" "parks_flows c = None"
  shows "table_step e e'"
proof -
  have "table_step e (snd (r, e'))"
  proof (cases c)
    case (FlowProgress ref b n)
    then show ?thesis
      using assms(2) table_on_flow [OF assms(1)] progress.guarded by (metis exec.simps(12) flow_progress_def option.inject)
  next
    case (FlowComplete ref b)
    then show ?thesis
      using assms(2) table_on_flow [OF assms(1)] complete.guarded
      by (metis exec.simps(13) flow_complete_def option.inject table_release)
  next
    case (FlowCancel ref b n)
    then show ?thesis
      using assms(2) table_on_flow [OF assms(1)] cancel.guarded
      by (metis exec.simps(14) flow_cancel_def option.inject table_release)
  next
    case (FlowFail ref b)
    then show ?thesis
      using assms(2) table_on_flow [OF assms(1)] fail.guarded
      by (metis exec.simps(15) flow_fail_def option.inject table_release)
  next
    case (RevalidateFlow ref b)
    then show ?thesis
      using assms(2) table_on_flow [OF assms(1)] revalidate.guarded
      by (metis exec.simps(17) revalidate_flow_def option.inject)
  next
    case (StartFlow ref b)
    then show ?thesis using assms(2) table_start_flow [OF assms(1)] by (metis exec.simps(11) option.inject)
  next
    case (AdmitFlow ref)
    then show ?thesis using assms(2) table_admit_flow [OF assms(1)] by (metis exec.simps(9) option.inject)
  next
    case (QueueFlow ref)
    then show ?thesis using assms(2) table_queue_flow by (metis exec.simps(10) option.inject)
  next
    case (AdvanceFlowGeneration ref g)
    then show ?thesis using assms(2) table_advance_generation by (metis exec.simps(16) option.inject)
  next
    case (DeclareFlow opts)
    then show ?thesis
      using assms(2) table_declare [of e opts now] by (auto simp: ref_result_def split: prod.splits)
  next
    case (PublishMeasurement k m w b)
    then show ?thesis using assms(2) table_publish by simp
  qed (use assms(2-4) in \<open>auto simp: advance_epoch_def register_worker_def register_source_def create_domain_def
      remove_domain_def recompute_domain_def apply_local_shaping_def ref_result_def Let_def
      split: if_splits option.splits prod.splits intro!: table_same_flows\<close>)
  then show ?thesis by simp
qed

text \<open>C14: a flow changes state only along the lifecycle table; the exceptions are fencing, which
  makes a live flow of the fenced owner stale, and recovery, which sends a live flow to
  revalidation.\<close>

theorem lifecycle_guarded:
  assumes "engine_inv e" "exec now c e = Some (r, e')" "\<not> is_load c"
    and "flow_of e k = Some f" "flow_of e' k = Some g" "fl_state g \<noteq> fl_state f"
  shows "flow_transition_allowed (fl_state f) (fl_state g) \<or> live f \<and> parks_flows c = Some (fl_state g)"
proof (cases "parks_flows c")
  case None
  then show ?thesis
    using exec_table [OF assms(1-3)] assms(4-6) by (auto simp: table_step_def flow_of_def)
next
  case (Some s)
  then consider w b where "c = FenceWorker w b" | x b where "c = FenceSource x b" | "c = RecoverDynamicEvidence"
    by (cases c) auto
  then show ?thesis
    by cases (use assms(2,4-6) in \<open>auto simp: flow_of_def fence_worker_def fence_source_def fence_flow_def
      recover_dynamic_evidence_def recover_flow_def live_def split: if_splits option.splits\<close>)
qed

section \<open>Exact effects\<close>

text \<open>C32: \<^verbatim>\<open>flow_progress\<close> succeeds exactly when the caller's boot owns the flow, the flow is queued
  or active and the completed bytes stay within the admitted ones; then it adds the delta to the
  completed bytes and takes it, as far as possible, from the bytes in flight.\<close>

theorem flow_progress_exact:
  assumes "engine_inv e" "find_flow (cf_flows e) ref = Some f" "flow_progress ref b n now e = (r, e')"
  shows "(r \<longleftrightarrow> fl_owner_boot f = b \<and> (fl_state f = FS_QUEUED \<or> fl_state f = FS_ACTIVE) \<and>
      bcv (completed_bytes f) + unat n \<le> bcv (admitted_bytes f)) \<and>
    (r \<longrightarrow> (\<exists>g. flow_of e' (ref_id ref) = Some g \<and> fl_state g = fl_state f \<and>
      bcv (completed_bytes g) = bcv (completed_bytes f) + unat n \<and>
      bcv (in_flight_bytes g) = bcv (in_flight_bytes f) - min (unat n) (bcv (in_flight_bytes f))))"
proof -
  have ok: "flow_ok f" using assms(1) find_flow_SomeD [OF assms(2)] by (auto simp: engine_inv_def)
  have can: "flow_can_progress (fl_state f) \<longleftrightarrow> fl_state f = FS_QUEUED \<or> fl_state f = FS_ACTIVE"
    using ok by (auto simp: flow_can_progress_def flow_ok_def)
  show ?thesis
    using assms(3) progress_bounds(1) [of "completed_bytes f" n "admitted_bytes f"]
    by (auto simp: flow_progress_def on_flow_def assms(2) progress_body_cases [OF ok] can flow_of_def inflight_drop
        split: if_splits)
qed

text \<open>Closing a flow settles its bytes: completion counts every admitted byte as completed,
  failure counts the rest as failed, cancellation counts as many of the rest as the caller asks, and
  in each case nothing stays in flight.\<close>

theorem closing_settles_bytes:
  assumes "engine_inv e" "find_flow (cf_flows e) ref = Some f" "fl_owner_boot f = b"
    and "fl_state f = FS_ACTIVE"
  shows "\<exists>g h i. flow_of (snd (flow_complete ref b now e)) (ref_id ref) = Some g \<and> fl_state g = FS_COMPLETED \<and>
      completed_bytes g = admitted_bytes f \<and> bc_value (in_flight_bytes g) = 0 \<and>
    flow_of (snd (flow_fail ref b now e)) (ref_id ref) = Some h \<and> fl_state h = FS_FAILED \<and>
      bcv (completed_bytes h) + bcv (failed_bytes h) = bcv (admitted_bytes f) \<and> bc_value (in_flight_bytes h) = 0 \<and>
    flow_of (snd (flow_cancel ref b n now e)) (ref_id ref) = Some i \<and> fl_state i = FS_CANCELLED \<and>
      bcv (cancelled_bytes i) = min (unat n) (bcv (admitted_bytes f) - bcv (completed_bytes f)) \<and>
      bc_value (in_flight_bytes i) = 0"
proof -
  have ok: "flow_ok f" using assms(1) find_flow_SomeD [OF assms(2)] by (auto simp: engine_inv_def)
  note b = flow_ok_bounds(1) [OF ok]
  show ?thesis
    using assms(3,4) b
    by (simp add: flow_complete_def flow_fail_def flow_cancel_def release_slot_def on_flow_def assms(2)
        complete_body_cases [OF ok] fail_body_cases [OF ok] cancel_body_cases [OF ok] flow_of_def
        word_min_unat unat_u64_diff)
qed

lemma drop_evidence_clears:
  "\<not> owns_offered w b (drop_evidence w b d)" "\<not> owns_serviced w b (drop_evidence w b d)"
  "owns_offered w b d \<Longrightarrow> d_offered_bps (drop_evidence w b d) = 0 \<and> d_offered_provenance (drop_evidence w b d) = MP_UNKNOWN"
  "owns_serviced w b d \<Longrightarrow> d_serviced_bps (drop_evidence w b d) = 0 \<and> d_serviced_provenance (drop_evidence w b d) = MP_UNKNOWN"
proof -
  have zero: "\<not> id_valid (Id 0)" by (simp add: id_valid_def)
  have owner: "d_offered_owner (drop_evidence w b d) = (if owns_offered w b d then Id 0 else d_offered_owner d)"
    "d_serviced_owner (drop_evidence w b d) = (if owns_serviced w b d then Id 0 else d_serviced_owner d)"
    "d_offered_owner_boot (drop_evidence w b d) = d_offered_owner_boot d"
    "d_serviced_owner_boot (drop_evidence w b d) = d_serviced_owner_boot d"
    by (simp_all add: drop_evidence_def Let_def)
  show "\<not> owns_offered w b (drop_evidence w b d)"
    unfolding owns_offered_def [of w b "drop_evidence w b d"] owner
    by (cases "owns_offered w b d") (simp_all add: zero, simp add: owns_offered_def)
  show "\<not> owns_serviced w b (drop_evidence w b d)"
    unfolding owns_serviced_def [of w b "drop_evidence w b d"] owner
    by (cases "owns_serviced w b d") (simp_all add: zero, simp add: owns_serviced_def)
qed (simp_all add: drop_evidence_def Let_def)

lemma invalidate_keeps:
  "owns_offered w b (invalidate_domain d) = owns_offered w b d" "owns_serviced w b (invalidate_domain d) = owns_serviced w b d"
  "d_offered_bps (invalidate_domain d) = d_offered_bps d" "d_offered_provenance (invalidate_domain d) = d_offered_provenance d"
  "d_serviced_bps (invalidate_domain d) = d_serviced_bps d" "d_serviced_provenance (invalidate_domain d) = d_serviced_provenance d"
  by (simp_all add: invalidate_domain_def owns_offered_def owns_serviced_def Let_def)

text \<open>Fencing a worker clears the domain evidence it owned: no offered or serviced rate of the
  dead incarnation survives, and a domain that lost evidence is not reported authoritatively any
  more unless it was never classified.\<close>

theorem fence_clears_evidence:
  assumes "fence_worker w b e = (True, e1)" "domain_of e k = Some d" "owns_offered w b d \<or> owns_serviced w b d"
  shows "\<exists>d1. domain_of e1 k = Some d1 \<and> \<not> owns_offered w b d1 \<and> \<not> owns_serviced w b d1 \<and>
    (owns_offered w b d \<longrightarrow> d_offered_bps d1 = 0 \<and> d_offered_provenance d1 = MP_UNKNOWN) \<and>
    (owns_serviced w b d \<longrightarrow> d_serviced_bps d1 = 0 \<and> d_serviced_provenance d1 = MP_UNKNOWN) \<and>
    (d_state d \<noteq> CS_UNKNOWN \<longrightarrow> d_state d1 = CS_REVALIDATION_REQUIRED \<and> \<not> as_authoritative (assess_congestion k e1))"
proof -
  have find: "\<exists>any. um_find (fence_domains w b any0 ds) j = map_option (\<lambda>d. snd (fence_domain w b any d)) (um_find ds j)"
    for any0 ds j
  proof (induction w b any0 ds rule: fence_domains.induct)
    case (2 w b any k d ds)
    obtain any' d' where "fence_domain w b any d = (any', d')" by fastforce
    then show ?case using 2 [of any' d'] by (cases "j = k") (auto simp: um_find_Cons intro: exI [of _ any])
  qed simp
  obtain any where d1: "domain_of e1 k = Some (snd (fence_domain w b any d))"
    using find [of False "cf_domains e" k] assms(2) fence_workerD(4) [OF assms(1)] by (auto simp: domain_of_def)
  let ?d1 = "snd (fence_domain w b any d)"
  have own: "\<not> owns_offered w b ?d1" "\<not> owns_serviced w b ?d1"
    "owns_offered w b d \<Longrightarrow> d_offered_bps ?d1 = 0 \<and> d_offered_provenance ?d1 = MP_UNKNOWN"
    "owns_serviced w b d \<Longrightarrow> d_serviced_bps ?d1 = 0 \<and> d_serviced_provenance ?d1 = MP_UNKNOWN"
    using drop_evidence_clears [of w b d] by (simp_all add: fence_domain_def invalidate_keeps Let_def)
  have st: "d_state ?d1 = CS_REVALIDATION_REQUIRED" if "d_state d \<noteq> CS_UNKNOWN"
    using that assms(3) by (auto simp: fence_domain_def invalidate_domain_def drop_evidence_def Let_def)
  then have "\<not> as_authoritative (assess_congestion k e1)" if "d_state d \<noteq> CS_UNKNOWN"
    using that d1 by (simp add: assess_congestion_def domain_of_def assess_domain_def needs_revalidation_def
        classify_def default_assessment_def)
  then show ?thesis using d1 own st by blast
qed

section \<open>Witnesses\<close>

lemma session_snd: "session e e1 \<Longrightarrow> \<not> is_load c \<Longrightarrow> exec now c e1 = Some p \<Longrightarrow> session e (snd p)"
  by (cases p) (auto intro: session.step)

lemma snd_ref_result [simp]: "snd (ref_result r) = snd r"
  by (simp add: ref_result_def split: prod.split)

lemma sample_reachable: "reachable default_limits sample_engine" "session (new_fabric default_limits) sample_engine"
proof -
  let ?n = "new_fabric default_limits"
  let ?w = "snd (register_worker (Id 1) (Generation 1) ?n)"
  let ?s = "snd (register_source (Id 1) (Generation 1) ?w)"
  have "session ?n ?w"
    using session_snd [OF session.refl, of "RegisterWorker (Id 1) (Generation 1)"] by simp
  then have "session ?n ?s"
    using session_snd [of ?n ?w "RegisterSource (Id 1) (Generation 1)"] by simp
  then show s: "session ?n sample_engine"
    using session_snd [of ?n ?s "CreateDomain DK_NIC_TX sample_capacity"] by (simp add: sample_engine_def)
  show "reachable default_limits sample_engine"
    by (rule session_reachable [OF s]) (rule reachable.init)
qed

lemma sample_session: "session sample_engine sample_active" "session (new_fabric default_limits) sample_active"
proof -
  have "session e sample_active" if "session e sample_engine" for e
  proof -
    have d: "session e sample_declared"
      using session_snd [OF that, of "DeclareFlow sample_options" 5] by (simp add: sample_declared_def)
    have a: "session e (snd (admit_flow sample_ref sample_declared))"
      using session_snd [OF d, of "AdmitFlow sample_ref"] by simp
    show ?thesis
      using session_snd [OF a, of "StartFlow sample_ref (Generation 1)" 6] by (simp add: sample_active_def)
  qed
  then show "session sample_engine sample_active" "session (new_fabric default_limits) sample_active"
    using session.refl sample_reachable(2) by blast+
qed

abbreviation sample_flow :: Flow where
  "sample_flow \<equiv> (flow_of_options (Id 1) 5 sample_options)\<lparr>admitted_bytes := ByteCounter 1000,
     in_flight_bytes := ByteCounter 1000, fl_state := FS_ACTIVE, fl_started_ms := 6, fl_last_progress_ms := 6\<rparr>"

lemma sample_flow_of: "flow_of sample_active (Id 1) = Some sample_flow"
  by (simp add: flow_of_def sample_active_eval um_find_def)

lemma sample_find: "find_flow (cf_flows sample_active) sample_ref = Some sample_flow"
  by (simp add: find_flow_def sample_active_eval um_find_def flow_of_options_def)

theorem reachable_flow_accounting_witness: "accounting_valid sample_flow"
  using reachable_flow_accounting [OF session_reachable [OF sample_session(1) sample_reachable(1)] sample_flow_of]
  by simp

theorem session_exact_accounting_witness:
  "bcv (completed_bytes sample_flow) + bcv (cancelled_bytes sample_flow) + bcv (failed_bytes sample_flow) \<le> 1000"
  using session_exact_accounting [OF sample_session(2) sample_flow_of] by simp

theorem session_flow_history_witness:
  "\<exists>g. flow_of (snd (flow_complete sample_ref (Generation 1) 7 sample_active)) (Id 1) = Some g \<and> flow_evolves sample_flow g"
proof -
  have "session sample_active (snd (flow_complete sample_ref (Generation 1) 7 sample_active))"
    using session_snd [OF session.refl, of "FlowComplete sample_ref (Generation 1)" 7] by simp
  then show ?thesis using session_flow_history [OF sample_inv(5) _ sample_flow_of] by blast
qed

theorem session_authority_monotone_witness:
  "cf_epoch sample_engine \<le> cf_epoch sample_active"
  using session_authority_monotone [OF sample_inv(1) sample_session(1)] by blast

theorem session_bound_once_witness:
  "distinct (map ref_id (d_flows (sample_domain\<lparr>d_flows := [sample_ref]\<rparr>)))"
  using session_bound_once [OF sample_session(2), of "Id 1" "sample_domain\<lparr>d_flows := [sample_ref]\<rparr>"]
  by (simp add: domain_of_def sample_active_eval um_find_def)

theorem fenced_worker_powerless_witness:
  "\<exists>e1. fence_worker (Id 1) (Generation 1) sample_active = (True, e1) \<and>
     (\<exists>g. flow_of e1 (Id 1) = Some g \<and> parked (fl_state g) \<and> flow_counters g = flow_counters sample_flow) \<and>
     register_worker (Id 1) (Generation 1) e1 = (False, e1)"
proof -
  obtain e1 where e1: "fence_worker (Id 1) (Generation 1) sample_active = (True, e1)"
    by (simp add: fence_worker_def sample_active_eval sample_declared_eval sample_engine_eval new_fabric_def
        um_find_def id_valid_def)
  have "fl_owner_worker sample_flow = Id 1" "fl_owner_boot sample_flow = Generation 1" "\<not> flow_terminal sample_flow"
    by (simp_all add: flow_of_options_def sample_options_def default_options_def flow_terminal_def flow_is_terminal_def)
  then show ?thesis
    using e1 fenced_worker_powerless [OF sample_inv(5) e1 _ session.refl] sample_flow_of by simp
qed

theorem stale_authority_rejected_witness:
  "flow_progress (EntityRef (Id 1) (Generation 2)) (Generation 1) 10 7 sample_active = (False, sample_active)"
  using stale_authority_rejected [of sample_active "EntityRef (Id 1) (Generation 2)" "Generation 1" 7 10]
  by (simp add: sample_active_eval um_find_def flow_of_options_def)

theorem failed_calls_atomic_witness:
  "snd (flow_progress sample_ref (Generation 2) 10 7 sample_active) = sample_active \<and>
   snd (declare_flow default_options 7 sample_active) = sample_active"
proof -
  have "exec 7 (DeclareFlow default_options) sample_active = Some (False, snd (declare_flow default_options 7 sample_active))"
    "id_free (DeclareFlow default_options) sample_active"
    by (simp_all add: declare_flow_def declare_allowed_def default_options_def sample_active_eval sample_declared_eval
        sample_engine_eval new_fabric_def um_find_def ref_result_def ref_valid_def invalid_ref_def id_valid_def)
  note declared = failed_calls_atomic [OF sample_inv(5) this]
  have "exec 7 (FlowProgress sample_ref (Generation 2) 10) sample_active =
      Some (False, snd (flow_progress sample_ref (Generation 2) 10 7 sample_active))"
    by (simp add: flow_progress_def on_flow_def sample_find progress_body_def flow_of_options_def
        sample_options_def default_options_def)
  then show ?thesis using failed_calls_atomic [OF sample_inv(5), of 7 "FlowProgress sample_ref (Generation 2) 10"] declared by simp
qed

theorem lifecycle_guarded_witness:
  "flow_transition_allowed FS_ACTIVE FS_COMPLETED"
proof -
  let ?g = "sample_flow\<lparr>completed_bytes := ByteCounter 1000, in_flight_bytes := ByteCounter 0,
    fl_state := FS_COMPLETED, fl_last_progress_ms := 7\<rparr>"
  have ok: "flow_ok sample_flow"
    using sample_inv(5) sample_flow_of by (auto simp: engine_inv_def flow_of_def)
  obtain r e' where e': "flow_complete sample_ref (Generation 1) 7 sample_active = (r, e')" by fastforce
  have own: "fl_owner_boot sample_flow = Generation 1" by (simp add: flow_of_options_def sample_options_def)
  have "flow_of e' (Id 1) = Some ?g"
    using e' own
    by (auto simp: flow_complete_def on_flow_def sample_find complete_body_cases [OF ok] release_slot_def flow_of_def
        split: if_splits)
  then show ?thesis
    using lifecycle_guarded [OF sample_inv(5), of 7 "FlowComplete sample_ref (Generation 1)" r e' "Id 1" sample_flow ?g]
      sample_flow_of e' by simp
qed

theorem flow_progress_exact_witness:
  "fst (flow_progress sample_ref (Generation 1) 400 7 sample_active)"
  using flow_progress_exact [OF sample_inv(5) sample_find, of "Generation 1" 400 7]
  by (simp add: flow_of_options_def sample_options_def default_options_def) (metis fst_conv prod.collapse)

theorem closing_settles_bytes_witness:
  "\<exists>g. flow_of (snd (flow_complete sample_ref (Generation 1) 7 sample_active)) (Id 1) = Some g \<and>
     completed_bytes g = ByteCounter 1000"
  using closing_settles_bytes [OF sample_inv(5) sample_find, of "Generation 1"]
  by (auto simp: flow_of_options_def sample_options_def default_options_def)

text \<open>The sample engine after its worker published an offered load of 100 MB/s.\<close>

definition sample_offered :: Measurement where
  "sample_offered = default_measurement\<lparr>m_kind := MK_OFFERED_BYTES_PER_SEC, m_value := 0x4197D78400000000,
     m_provenance := MP_MEASURED\<rparr>"

definition sample_measured :: CongestionFabric where
  "sample_measured = (case publish_measurement (Id 1) sample_offered (Id 1) (Generation 1) sample_active of
     Some (r, e) \<Rightarrow> e | None \<Rightarrow> sample_active)"

lemma sample_measured_eval:
  "publish_measurement (Id 1) sample_offered (Id 1) (Generation 1) sample_active = Some (True, sample_measured)"
  "domain_of sample_measured (Id 1) = Some (sample_domain\<lparr>d_flows := [sample_ref],
     d_measurements := empty_measurements[0 := sample_offered], d_offered_bps := 0x4197D78400000000,
     d_offered_provenance := MP_MEASURED, d_offered_owner := Id 1, d_offered_owner_boot := Generation 1\<rparr>)"
  "cf_worker_boot sample_measured = [(Id 1, Generation 1)]"
proof -
  have publish: "publish_measurement (Id 1) sample_offered (Id 1) (Generation 1) sample_active = Some (True, set_domain
      sample_active (Id 1) (sample_domain\<lparr>d_flows := [sample_ref],
     d_measurements := empty_measurements[0 := sample_offered], d_offered_bps := 0x4197D78400000000,
     d_offered_provenance := MP_MEASURED, d_offered_owner := Id 1, d_offered_owner_boot := Generation 1\<rparr>))"
    by (simp add: publish_measurement_def sample_offered_def default_measurement_def measurement_valid_def
        double_eval d_one_def sample_active_eval sample_declared_eval sample_engine_eval new_fabric_def um_find_def
        id_valid_def clear_revalidation_def sample_domain_def default_domain_def measurements_put_def kind_index_def
        empty_measurements_def record_rate_def)
  then show "publish_measurement (Id 1) sample_offered (Id 1) (Generation 1) sample_active = Some (True, sample_measured)"
    "domain_of sample_measured (Id 1) = Some (sample_domain\<lparr>d_flows := [sample_ref],
       d_measurements := empty_measurements[0 := sample_offered], d_offered_bps := 0x4197D78400000000,
       d_offered_provenance := MP_MEASURED, d_offered_owner := Id 1, d_offered_owner_boot := Generation 1\<rparr>)"
    by (simp_all add: sample_measured_def domain_of_def)
  show "cf_worker_boot sample_measured = [(Id 1, Generation 1)]"
    using publish
    by (simp add: sample_measured_def sample_active_eval sample_declared_eval sample_engine_eval new_fabric_def)
qed

theorem fence_clears_evidence_witness:
  "\<exists>e1 d1. fence_worker (Id 1) (Generation 1) sample_measured = (True, e1) \<and> domain_of e1 (Id 1) = Some d1 \<and>
     d_offered_bps d1 = 0"
proof -
  note wb = sample_measured_eval(3)
  obtain e1 where e1: "fence_worker (Id 1) (Generation 1) sample_measured = (True, e1)"
    by (simp add: fence_worker_def wb um_find_def id_valid_def)
  show ?thesis
    using fence_clears_evidence [OF e1 sample_measured_eval(2)] e1 by (auto simp: owns_offered_def id_valid_def)
qed

end
