(* ===== verification/Slots.thy ===== *)
theory Slots
  imports Runs
begin

text \<open>
  Identifier allocation and the indexed count of active flows. Identifiers come from 64-bit
  counters, so the statements are about runs of fewer than \<open>2 ^ 64 - 2\<close> calls, which a counter
  cannot outlive. The count \<^verbatim>\<open>active_flows_\<close>, kept incrementally by the engine, is shown to be
  the number of non-terminal flows.
\<close>

abbreviation open_flows :: "CongestionFabric \<Rightarrow> nat" where
  "open_flows e \<equiv> um_count (\<lambda>f. \<not> flow_terminal f) (cf_flows e)"

definition ids_ok :: "CongestionFabric \<Rightarrow> bool" where
  "ids_ok e \<longleftrightarrow>
     (\<forall>k\<in>set (map fst (cf_flows e)). idv k < cf_next_flow e) \<and>
     (\<forall>k\<in>set (map fst (cf_domains e)). idv k < cf_next_domain e) \<and>
     0 < cf_next_flow e \<and> 0 < cf_next_domain e \<and>
     unat (cf_active_flows e) = open_flows e \<and> length (map fst (cf_flows e)) < unat (cf_next_flow e)"

text \<open>A step that touches neither counters nor keys and keeps every flow's terminality.\<close>

definition quiet_step :: "CongestionFabric \<Rightarrow> CongestionFabric \<Rightarrow> bool" where
  "quiet_step e e' \<longleftrightarrow> cf_next_flow e' = cf_next_flow e \<and> cf_next_domain e' = cf_next_domain e \<and>
     cf_active_flows e' = cf_active_flows e \<and> map fst (cf_flows e') = map fst (cf_flows e) \<and>
     set (map fst (cf_domains e')) \<subseteq> set (map fst (cf_domains e)) \<and> open_flows e' = open_flows e"

lemma quiet_refl [simp]: "quiet_step e e"
  by (simp add: quiet_step_def)

lemma quiet_trans: "quiet_step e e1 \<Longrightarrow> quiet_step e1 e2 \<Longrightarrow> quiet_step e e2"
  unfolding quiet_step_def by (metis subset_trans)

lemma quiet_ids: "quiet_step e e' \<Longrightarrow> ids_ok e \<Longrightarrow> ids_ok e'"
  unfolding ids_ok_def quiet_step_def by (simp only: subset_iff) blast

lemma quiet_set_flow:
  assumes "um_find (cf_flows e) k = Some f" "flow_terminal g \<longleftrightarrow> flow_terminal f"
  shows "quiet_step e (set_flow e k g)"
  using assms um_assign_keys [of "cf_flows e" k g] um_count_assign [OF assms(1), of "\<lambda>f. \<not> flow_terminal f" g]
  by (simp add: quiet_step_def)

lemma quiet_map_flows:
  assumes "\<And>f. flow_terminal (g f) \<longleftrightarrow> flow_terminal f"
  shows "quiet_step e (e\<lparr>cf_flows := um_map g (cf_flows e)\<rparr>)"
  using um_count_map_cong [of "\<lambda>f. \<not> flow_terminal f" g] assms by (simp add: quiet_step_def)

lemma quiet_domains:
  "set (map fst ds) \<subseteq> set (map fst (cf_domains e)) \<Longrightarrow> quiet_step e (e\<lparr>cf_domains := ds\<rparr>)"
  by (simp add: quiet_step_def)

lemma quiet_set_domain: "um_find (cf_domains e) k = Some d \<Longrightarrow> quiet_step e (set_domain e k d')"
  by (rule quiet_domains) (simp add: um_assign_keys)

lemma quiet_others:
  "quiet_step e e' \<Longrightarrow> quiet_step e (e'\<lparr>cf_epoch := ep\<rparr>)" "quiet_step e e' \<Longrightarrow> quiet_step e (e'\<lparr>cf_worker_boot := wb\<rparr>)"
  "quiet_step e e' \<Longrightarrow> quiet_step e (e'\<lparr>cf_source_boot := sb\<rparr>)" "quiet_step e e' \<Longrightarrow> quiet_step e (e'\<lparr>cf_next_event := n\<rparr>)"
  "quiet_step e e' \<Longrightarrow> quiet_step e (e'\<lparr>cf_recovered := r\<rparr>)"
  by (simp_all add: quiet_step_def)

section \<open>Quiet calls\<close>

lemma quiet_on_flow:
  assumes "\<And>f. flow_terminal (snd (body f)) \<longleftrightarrow> flow_terminal f"
  shows "quiet_step e (snd (on_flow ref body e))"
proof (cases "find_flow (cf_flows e) ref")
  case (Some f)
  then show ?thesis
    using quiet_set_flow [of e "ref_id ref" f "snd (body f)"] find_flow_SomeD [OF Some] assms [of f]
    by (cases "body f") (simp add: on_flow_def)
qed (simp add: on_flow_def)

lemma terminal_simps:
  "\<not> flow_is_terminal FS_ADMITTED" "\<not> flow_is_terminal FS_QUEUED" "\<not> flow_is_terminal FS_ACTIVE"
  "\<not> flow_is_terminal FS_STALE" "\<not> flow_is_terminal FS_REVALIDATION_REQUIRED"
  by (simp_all add: flow_is_terminal_def)

lemma quiet_progress: "flow_terminal (snd (progress_body b n now f)) \<longleftrightarrow> flow_terminal f"
  by (simp add: progress_body_def flow_terminal_def Let_def split: option.split)

lemma quiet_revalidate: "flow_terminal (snd (revalidate_body b f)) \<longleftrightarrow> flow_terminal f"
  using lifecycle.terminal_final [of "fl_state f" FS_REVALIDATION_REQUIRED]
  by (auto simp: revalidate_body_def flow_terminal_def terminal_simps)

lemma quiet_start: "flow_terminal (snd (start_body b now f)) \<longleftrightarrow> flow_terminal f"
  by (auto simp: start_body_def flow_terminal_def Let_def flow_state_preds split: prod.split)

lemma quiet_start_flow: "quiet_step e (snd (start_flow ref b now e))"
proof (cases "find_flow (cf_flows e) ref")
  case (Some f)
  let ?e1 = "set_flow e (ref_id ref) (snd (start_body b now f))"
  have e1: "quiet_step e ?e1"
    using find_flow_SomeD [OF Some] quiet_start by (intro quiet_set_flow) auto
  have "quiet_step ?e1 (set_domain ?e1 k (clear_revalidation d))"
    if "um_find (cf_domains e) k = Some d" for k d
    using that by (intro quiet_set_domain) simp
  then show ?thesis
    using e1 Some by (auto simp: start_flow_def split: prod.split option.split intro: quiet_trans)
qed (simp add: start_flow_def)

lemma quiet_admit_flow:
  assumes "engine_inv e"
  shows "quiet_step e (snd (admit_flow ref e))"
  using admit_flow_cases [OF assms, of ref]
proof (elim disjE exE conjE)
  fix f :: Flow and d :: CongestionDomain
  let ?g = "f\<lparr>admitted_bytes := submitted_bytes f, fl_state := FS_ADMITTED\<rparr>"
  let ?e1 = "set_flow e (ref_id ref) ?g"
  assume f: "find_flow (cf_flows e) ref = Some f" "fl_state f = FS_DECLARED"
    and d: "um_find (cf_domains e) (ref_id (fl_domain f)) = Some d"
    and r: "admit_flow ref e = (True, set_domain ?e1 (ref_id (fl_domain f)) (d\<lparr>d_flows := d_flows d @ [ref]\<rparr>))"
  have "quiet_step e ?e1"
    using f find_flow_SomeD [OF f(1)]
    by (intro quiet_set_flow) (auto simp: flow_terminal_def flow_is_terminal_def)
  moreover have "quiet_step ?e1 (snd (admit_flow ref e))"
    unfolding r snd_conv by (rule quiet_set_domain) (simp add: d)
  ultimately show ?thesis by (rule quiet_trans)
qed simp

lemma quiet_queue_flow: "quiet_step e (snd (queue_flow ref e))"
proof -
  have "flow_terminal (f\<lparr>fl_state := FS_QUEUED\<rparr>) \<longleftrightarrow> flow_terminal f"
    if "flow_transition_allowed (fl_state f) FS_QUEUED" for f
    using that lifecycle.terminal_final [of "fl_state f" FS_QUEUED] by (auto simp: flow_terminal_def terminal_simps)
  then show ?thesis
    by (auto simp: queue_flow_def split: option.split dest!: find_flow_SomeD intro!: quiet_set_flow)
qed

lemma quiet_advance_generation: "quiet_step e (snd (advance_flow_generation ref g e))"
  by (auto simp: advance_flow_generation_def split: option.split intro!: quiet_set_flow)
    (auto simp: flow_terminal_def flow_is_terminal_def)

lemma quiet_fence_worker: "quiet_step e (snd (fence_worker w b e))"
proof -
  let ?g = "fence_flow (\<lambda>f. fl_owner_worker f = w \<and> fl_owner_boot f = b)"
  let ?e1 = "e\<lparr>cf_worker_boot := um_assign (cf_worker_boot e) w (gen_next b)\<rparr>"
  let ?e2 = "?e1\<lparr>cf_flows := um_map ?g (cf_flows ?e1)\<rparr>"
  have "quiet_step e ?e1" by (intro quiet_others) simp
  moreover have "quiet_step ?e1 ?e2" by (intro quiet_map_flows) (simp add: fenced_parked)
  moreover have "quiet_step ?e2 (?e2\<lparr>cf_domains := fence_domains w b False (cf_domains ?e2)\<rparr>)"
    by (intro quiet_domains) simp
  ultimately show ?thesis
    by (simp add: fence_worker_def split: option.split) (blast intro: quiet_trans)
qed

lemma quiet_fence_source: "quiet_step e (snd (fence_source s b e))"
proof -
  let ?g = "fence_flow (\<lambda>f. fl_source f = s \<and> fl_source_boot f = b)"
  let ?e1 = "e\<lparr>cf_source_boot := um_assign (cf_source_boot e) s (gen_next b)\<rparr>"
  have "quiet_step e ?e1" by (intro quiet_others) simp
  moreover have "quiet_step ?e1 (?e1\<lparr>cf_flows := um_map ?g (cf_flows ?e1)\<rparr>)"
    by (intro quiet_map_flows) (simp add: fenced_parked)
  ultimately show ?thesis
    by (simp add: fence_source_def split: option.split) (blast intro: quiet_trans)
qed

lemma quiet_recover: "quiet_step e (recover_dynamic_evidence e)"
proof -
  let ?e1 = "e\<lparr>cf_recovered := True\<rparr>"
  let ?e2 = "?e1\<lparr>cf_domains := um_map recover_domain (cf_domains ?e1)\<rparr>"
  have "quiet_step e ?e1" by (intro quiet_others) simp
  moreover have "quiet_step ?e1 ?e2" by (intro quiet_domains) simp
  moreover have "quiet_step ?e2 (?e2\<lparr>cf_flows := um_map recover_flow (cf_flows ?e2)\<rparr>)"
    by (intro quiet_map_flows) (auto simp: recover_flow_def flow_terminal_def terminal_simps)
  ultimately show ?thesis unfolding recover_dynamic_evidence_def by (auto intro: quiet_trans)
qed

lemma quiet_publish: "publish_measurement k m w b e = Some (r, e') \<Longrightarrow> quiet_step e e'"
  by (auto simp: publish_measurement_def Let_def split: if_splits option.splits intro: quiet_set_domain)

lemma quiet_recompute: "quiet_step e (snd (recompute_domain k now e))"
  by (auto simp: recompute_domain_def Let_def case_prod_unfold split: option.split
      intro!: quiet_others quiet_set_domain)

lemma quiet_shaping: "quiet_step e (snd (apply_local_shaping k a e))"
  by (auto simp: apply_local_shaping_def split: option.split intro: quiet_set_domain)

lemma quiet_remove: "quiet_step e (snd (remove_domain k e))"
  unfolding remove_domain_def snd_conv
  by (rule quiet_domains) (auto simp: um_erase_def AList.delete_keys)

lemma quiet_registry:
  "quiet_step e (snd (advance_epoch n e))" "quiet_step e (snd (register_worker w b e))"
  "quiet_step e (snd (register_source s c e))"
  by (auto simp: advance_epoch_def register_worker_def register_source_def quiet_others split: option.split)

section \<open>Calls that allocate or release\<close>

lemma ids_fresh: "ids_ok e \<Longrightarrow> um_find (cf_flows e) (Id (cf_next_flow e)) = None \<and> cf_next_flow e \<noteq> 0"
  unfolding ids_ok_def um_fresh_iff by (metis Id.sel less_irrefl)

lemma ids_create_domain:
  assumes "ids_ok e" "cf_next_domain e \<noteq> - 1"
  shows "ids_ok (snd (create_domain kind c e)) \<and> cf_next_flow (snd (create_domain kind c e)) = cf_next_flow e \<and>
    unat (cf_next_domain (snd (create_domain kind c e))) \<le> unat (cf_next_domain e) + 1"
proof -
  have inc: "unat (cf_next_domain e + 1) = unat (cf_next_domain e) + 1" using unat_u64_inc [OF assms(2)] .
  then have less: "x < cf_next_domain e \<Longrightarrow> x < cf_next_domain e + 1" "cf_next_domain e < cf_next_domain e + 1"
    "0 < cf_next_domain e + 1" for x
    by (simp_all add: word_less_nat_alt)
  show ?thesis
    using assms(1) inc less
    by (auto simp: create_domain_def ids_ok_def Let_def um_emplace_def split: option.splits)
qed

lemma ids_declare_flow:
  assumes "ids_ok e" "cf_next_flow e \<noteq> - 1"
  shows "ids_ok (snd (declare_flow opts now e)) \<and> cf_next_domain (snd (declare_flow opts now e)) = cf_next_domain e \<and>
    unat (cf_next_flow (snd (declare_flow opts now e))) \<le> unat (cf_next_flow e) + 1"
proof (cases "declare_allowed opts e")
  case True
  let ?k = "Id (cf_next_flow e)" and ?f = "flow_of_options (Id (cf_next_flow e)) now opts"
  have inc: "unat (cf_next_flow e + 1) = unat (cf_next_flow e) + 1" using unat_u64_inc [OF assms(2)] .
  then have less: "x < cf_next_flow e \<Longrightarrow> x < cf_next_flow e + 1" "cf_next_flow e < cf_next_flow e + 1"
    "0 < cf_next_flow e + 1" for x
    by (simp_all add: word_less_nat_alt)
  have fresh: "um_find (cf_flows e) ?k = None" using ids_fresh [OF assms(1)] by simp
  have "unat (cf_active_flows e) < unat (cf_next_flow e)"
    using assms(1) um_count_le [of "\<lambda>f. \<not> flow_terminal f" "cf_flows e"] by (simp add: ids_ok_def)
  then have act: "unat (cf_active_flows e + 1) = unat (cf_active_flows e) + 1"
    using unat_u64_bound [of "cf_next_flow e"] by (intro unat_u64_inc) (auto simp: u64_max)
  have "\<not> flow_terminal ?f" by (simp add: flow_of_options_def flow_terminal_def flow_is_terminal_def)
  then show ?thesis
    using True assms(1) inc less act um_count_emplace [OF fresh, of "\<lambda>f. \<not> flow_terminal f" ?f]
    by (auto simp: declare_flow_def Let_def ids_ok_def um_emplace_fresh [OF fresh])
qed (use assms in \<open>simp add: declare_flow_def\<close>)

lemma ids_closing:
  assumes "ids_ok e"
    and t: "\<And>f. fst (body f) \<Longrightarrow> \<not> flow_terminal f \<and> flow_terminal (snd (body f))"
    and n: "\<And>f. \<not> fst (body f) \<Longrightarrow> flow_terminal (snd (body f)) \<longleftrightarrow> flow_terminal f"
    and e': "e' = snd (release_slot (on_flow ref body e))"
  shows "ids_ok e' \<and> cf_next_flow e' = cf_next_flow e \<and> cf_next_domain e' = cf_next_domain e"
proof (cases "find_flow (cf_flows e) ref")
  case (Some f)
  have idx: "um_find (cf_flows e) (ref_id ref) = Some f" using find_flow_SomeD [OF Some] by simp
  obtain ok g where b: "body f = (ok, g)" by fastforce
  note keys = um_assign_keys [of "cf_flows e" "ref_id ref" g]
  note cnt = um_count_assign [OF idx, of "\<lambda>f. \<not> flow_terminal f" g]
  show ?thesis
  proof (cases ok)
    case True
    have pos: "0 < open_flows e" using um_count_pos [OF idx, of "\<lambda>f. \<not> flow_terminal f"] t [of f] b True by simp
    then have "cf_active_flows e > 0" using assms(1) by (simp add: ids_ok_def word_less_nat_alt)
    moreover have "unat (cf_active_flows e - 1) = open_flows e - 1"
      using assms(1) pos unat_u64_diff [of 1 "cf_active_flows e"] by (simp add: ids_ok_def)
    ultimately show ?thesis
      using assms(1) Some b True t [of f] cnt keys idx
      by (simp add: e' on_flow_def release_slot_def ids_ok_def)
  next
    case False
    have "quiet_step e (set_flow e (ref_id ref) g)" using n [of f] b False by (intro quiet_set_flow [OF idx]) simp
    then show ?thesis
      using quiet_ids [OF _ assms(1)] Some b False
      by (simp add: e' on_flow_def release_slot_def)
  qed
qed (use assms(1) in \<open>simp add: e' on_flow_def release_slot_def\<close>)

lemma closing_bodies:
  "fst (complete_body b now f) \<Longrightarrow> \<not> flow_terminal f \<and> flow_terminal (snd (complete_body b now f))"
  "\<not> fst (complete_body b now f) \<Longrightarrow> flow_terminal (snd (complete_body b now f)) \<longleftrightarrow> flow_terminal f"
  "fst (cancel_body b n now f) \<Longrightarrow> \<not> flow_terminal f \<and> flow_terminal (snd (cancel_body b n now f))"
  "\<not> fst (cancel_body b n now f) \<Longrightarrow> flow_terminal (snd (cancel_body b n now f)) \<longleftrightarrow> flow_terminal f"
  "fst (fail_body b now f) \<Longrightarrow> \<not> flow_terminal f \<and> flow_terminal (snd (fail_body b now f))"
  "\<not> fst (fail_body b now f) \<Longrightarrow> flow_terminal (snd (fail_body b now f)) \<longleftrightarrow> flow_terminal f"
  using lifecycle.terminal_final [of "fl_state f"]
  by (auto simp: complete_body_def cancel_body_def fail_body_def flow_terminal_def Let_def
      split: if_splits prod.splits) (simp_all add: flow_is_terminal_def)

text \<open>The calls that allocate an identifier or release a slot; every other one is quiet.\<close>

fun counted_call :: "call \<Rightarrow> bool" where
  "counted_call (CreateDomain k c) = True"
| "counted_call (DeclareFlow opts) = True"
| "counted_call (FlowComplete r b) = True"
| "counted_call (FlowCancel r b n) = True"
| "counted_call (FlowFail r b) = True"
| "counted_call _ = False"

lemma quiet_bodies: "quiet_step e (snd (flow_progress r b n now e))" "quiet_step e (snd (revalidate_flow r b e))"
  using quiet_on_flow [of "progress_body b n now" e r] quiet_progress quiet_on_flow [of "revalidate_body b" e r] quiet_revalidate
  by (simp_all add: flow_progress_def revalidate_flow_def)

lemmas quiet_calls = quiet_bodies quiet_start_flow quiet_admit_flow quiet_queue_flow quiet_advance_generation quiet_fence_worker
  quiet_fence_source quiet_remove quiet_shaping quiet_registry quiet_recompute

lemma quiet_result: "quiet_step e (snd x) \<Longrightarrow> x = (r, e') \<Longrightarrow> quiet_step e e'"
  by simp

lemmas quiet_results = quiet_calls [THEN quiet_result]

lemma exec_quiet:
  assumes "engine_inv e" "exec now c e = Some (r, e')" "\<not> is_load c" "\<not> counted_call c"
  shows "quiet_step e e'"
  using assms by (cases c) (auto intro: quiet_results quiet_publish quiet_recover quiet_recompute)

lemma exec_ids:
  assumes "engine_inv e" "ids_ok e" "exec now c e = Some (r, e')" "\<not> is_load c"
    and "cf_next_flow e \<noteq> - 1" "cf_next_domain e \<noteq> - 1"
  shows "ids_ok e' \<and> unat (cf_next_flow e') \<le> unat (cf_next_flow e) + 1 \<and>
    unat (cf_next_domain e') \<le> unat (cf_next_domain e) + 1"
proof (cases "counted_call c")
  case False
  note q = exec_quiet [OF assms(1,3,4) False]
  then show ?thesis using quiet_ids [OF q assms(2)] by (simp add: quiet_step_def)
next
  case True
  then show ?thesis
  proof (cases c)
    case (CreateDomain k p)
    then show ?thesis using assms(3) ids_create_domain [OF assms(2,6), of k p] by (auto simp: ref_result_def split: prod.splits)
  next
    case (DeclareFlow opts)
    then show ?thesis using assms(3) ids_declare_flow [OF assms(2,5), of opts now] by (auto simp: ref_result_def split: prod.splits)
  next
    case (FlowComplete ref b)
    then have "e' = snd (release_slot (on_flow ref (complete_body b now) e))" using assms(3) by (simp add: flow_complete_def)
    from ids_closing [OF assms(2) closing_bodies(1,2) this] show ?thesis by simp
  next
    case (FlowCancel ref b n)
    then have "e' = snd (release_slot (on_flow ref (cancel_body b n now) e))" using assms(3) by (simp add: flow_cancel_def)
    from ids_closing [OF assms(2) closing_bodies(3,4) this] show ?thesis by simp
  next
    case (FlowFail ref b)
    then have "e' = snd (release_slot (on_flow ref (fail_body b now) e))" using assms(3) by (simp add: flow_fail_def)
    from ids_closing [OF assms(2) closing_bodies(5,6) this] show ?thesis by simp
  qed simp_all
qed

section \<open>Runs\<close>

fun run :: "(u64 \<times> call) list \<Rightarrow> CongestionFabric \<Rightarrow> CongestionFabric option" where
  "run [] e = Some e"
| "run ((now, c) # cs) e = (case exec now c e of None \<Rightarrow> None | Some (r, e') \<Rightarrow> run cs e')"

lemma run_ids:
  assumes "run cs e = Some e'" "list_all (\<lambda>(now, c). \<not> is_load c) cs" "engine_inv e" "ids_ok e"
    and "unat (cf_next_flow e) + length cs < 2 ^ 64 - 1" "unat (cf_next_domain e) + length cs < 2 ^ 64 - 1"
  shows "engine_inv e' \<and> ids_ok e'"
  using assms
proof (induction cs arbitrary: e)
  case (Cons x cs)
  obtain now c where x: "x = (now, c)" by fastforce
  obtain r e1 where e1: "exec now c e = Some (r, e1)" and rest: "run cs e1 = Some e'"
    using Cons.prems(1) by (auto simp: x split: option.splits)
  have ne: "cf_next_flow e \<noteq> - 1" "cf_next_domain e \<noteq> - 1"
    using Cons.prems(5,6) by (auto simp: u64_max)
  have nl: "\<not> is_load c" using Cons.prems(2) by (simp add: x)
  note ids = exec_ids [OF Cons.prems(3,4) e1 nl ne]
  show ?case
    by (rule Cons.IH [OF rest _ exec_inv [OF e1 Cons.prems(3)]]) (use ids Cons.prems in \<open>auto simp: x\<close>)
qed simp

text \<open>C15: in every run of fewer than \<open>2 ^ 64 - 2\<close> calls from the initial state, none of them a load, the
  live flow count the engine maintains is the number of indexed flows that are not terminal. (A load resets the count
  to zero.)\<close>

theorem live_flow_count_exact:
  assumes "run cs (new_fabric lims) = Some e" "list_all (\<lambda>(now, c). \<not> is_load c) cs"
    and "length cs < 2 ^ 64 - 2"
  shows "unat (live_flow_count e) = um_count (\<lambda>f. \<not> flow_terminal f) (cf_flows e)"
proof -
  have "ids_ok (new_fabric lims)" by (simp add: ids_ok_def new_fabric_def um_count_def)
  moreover have "unat (cf_next_flow (new_fabric lims)) = 1" "unat (cf_next_domain (new_fabric lims)) = 1"
    by (simp_all add: new_fabric_def)
  ultimately have "ids_ok e" using run_ids [OF assms(1,2)] assms(3) new_fabric_inv by simp
  then show ?thesis by (simp add: ids_ok_def live_flow_count_def)
qed

text \<open>Within such a run a successful \<^verbatim>\<open>declare_flow\<close> allocates an id that was never used,
  stores exactly the declared flow under it, adds one to the live count and leaves all other flows
  alone; it succeeds exactly when owner and source are registered with the given boots, the domain
  exists and the active flow limit is not reached.\<close>

theorem declare_flow_fresh:
  assumes "run cs (new_fabric lims) = Some e" "list_all (\<lambda>(now, c). \<not> is_load c) cs"
    and "length cs < 2 ^ 64 - 2" "declare_flow opts now e = (ref, e')"
  shows "(ref_valid ref \<longleftrightarrow> declare_allowed opts e) \<and> (\<not> ref_valid ref \<longrightarrow> e' = e) \<and>
    (ref_valid ref \<longrightarrow> flow_of e (ref_id ref) = None \<and>
      flow_of e' (ref_id ref) = Some (flow_of_options (ref_id ref) now opts) \<and>
      (\<forall>k. k \<noteq> ref_id ref \<longrightarrow> flow_of e' k = flow_of e k) \<and>
      unat (live_flow_count e') = unat (live_flow_count e) + 1)"
proof -
  have n: "unat (cf_next_flow (new_fabric lims)) = 1" "unat (cf_next_domain (new_fabric lims)) = 1"
    by (simp_all add: new_fabric_def)
  have "ids_ok (new_fabric lims)" by (simp add: ids_ok_def new_fabric_def um_count_def)
  then have ids: "ids_ok e" using run_ids [OF assms(1,2)] n assms(3) new_fabric_inv by simp
  note fresh = ids_fresh [OF ids]
  have "unat (cf_active_flows e) < unat (cf_next_flow e)"
    using ids um_count_le [of "\<lambda>f. \<not> flow_terminal f" "cf_flows e"] by (simp add: ids_ok_def)
  then have act: "unat (cf_active_flows e + 1) = unat (cf_active_flows e) + 1"
    using unat_u64_bound [of "cf_next_flow e"] by (intro unat_u64_inc) (auto simp: u64_max)
  show ?thesis
    using assms(4) fresh act
    by (auto simp: declare_flow_def Let_def flow_of_def live_flow_count_def ref_valid_def id_valid_def
        gen_valid_def invalid_ref_def flow_of_options_def split: if_splits option.split)
qed

section \<open>Witnesses\<close>

definition sample_calls :: "(u64 \<times> call) list" where
  "sample_calls = [(1, RegisterWorker (Id 1) (Generation 1)), (2, RegisterSource (Id 1) (Generation 1)),
     (3, CreateDomain DK_NIC_TX sample_capacity)]"

lemma sample_run: "run sample_calls (new_fabric default_limits) = Some sample_engine"
  by (simp add: sample_calls_def sample_engine_def ref_result_def split: prod.split)

lemma sample_calls_fine: "list_all (\<lambda>(now, c). \<not> is_load c) sample_calls" "length sample_calls < 2 ^ 64 - 2"
  by (simp_all add: sample_calls_def)

lemma run_append: "run (xs @ ys) e = (case run xs e of None \<Rightarrow> None | Some e1 \<Rightarrow> run ys e1)"
  by (induction xs arbitrary: e) (auto split: option.split)

theorem live_flow_count_exact_witness:
  "run (sample_calls @ [(5, DeclareFlow sample_options)]) (new_fabric default_limits) = Some sample_declared \<and>
   unat (live_flow_count sample_declared) = 1"
proof -
  have r: "run (sample_calls @ [(5, DeclareFlow sample_options)]) (new_fabric default_limits) = Some sample_declared"
    by (simp add: run_append sample_run sample_declared_def ref_result_def split: prod.split)
  have "unat (live_flow_count sample_declared) = um_count (\<lambda>f. \<not> flow_terminal f) (cf_flows sample_declared)"
    by (rule live_flow_count_exact [OF r]) (simp_all add: sample_calls_def)
  then show ?thesis
    using r by (simp add: sample_declared_eval um_count_def flow_of_options_def flow_terminal_def flow_is_terminal_def)
qed

theorem declare_flow_fresh_witness:
  "declare_allowed sample_options sample_engine \<and> ref_valid (fst (declare_flow sample_options 5 sample_engine)) \<and>
   unat (live_flow_count (snd (declare_flow sample_options 5 sample_engine))) = unat (live_flow_count sample_engine) + 1"
proof -
  have "declare_allowed sample_options sample_engine"
    by (simp add: declare_allowed_def sample_options_def default_options_def sample_engine_eval new_fabric_def
        default_limits_def id_valid_def gen_valid_def um_find_def)
  then show ?thesis
    using declare_flow_fresh [OF sample_run sample_calls_fine, of sample_options 5] by (metis prod.collapse)
qed

end
