(* ===== verification/Net.thy ===== *)
theory Net
  imports Prelude
begin

text \<open>
  The exact-length socket I/O of \<^verbatim>\<open>include/congestion_fabric/net.hpp\<close>. The operating system's
  \<^verbatim>\<open>recv\<close> and \<^verbatim>\<open>send\<close> are arguments of the definitions: \<open>recv n s\<close> gives the bytes of one call
  and the socket after it, \<open>None\<close> for an error and the empty list for a closed connection;
  \<open>send bs s\<close> gives the number of bytes accepted, \<open>None\<close> for an error.
\<close>

function read_exact :: "(nat \<Rightarrow> 's \<Rightarrow> (u8 list \<times> 's) option) \<Rightarrow> nat \<Rightarrow> 's \<Rightarrow> (u8 list \<times> 's) option" where
  "read_exact recv n s =
    (if n = 0 then Some ([], s)
     else case recv n s of
       None \<Rightarrow> None
     | Some (c, s1) \<Rightarrow>
        if c = [] then None
        else case read_exact recv (n - length c) s1 of
          None \<Rightarrow> None
        | Some (rest, s2) \<Rightarrow> Some (c @ rest, s2))"
  by auto
termination
  by (relation "measure (\<lambda>(recv, n, s). n)") auto

declare read_exact.simps [simp del]

text \<open>A \<^verbatim>\<open>send\<close> that accepts nothing makes \<^verbatim>\<open>write_all\<close> spin: not returning is \<open>None\<close>.\<close>

partial_function (option) write_all ::
  "(u8 list \<Rightarrow> 's \<Rightarrow> (nat \<times> 's) option) \<Rightarrow> u8 list \<Rightarrow> 's \<Rightarrow> (bool \<times> 's) option" where
  "write_all send bs s =
    (if bs = [] then Some (True, s)
     else case send bs s of
       None \<Rightarrow> Some (False, s)
     | Some (r, s1) \<Rightarrow> write_all send (drop r bs) s1)"

declare write_all.simps [code]

section \<open>Reassembly of a fragmented stream\<close>

text \<open>What a stream socket promises for reads: while bytes are pending a call returns between one
  and \<open>n\<close> of them, in order; when none is left it reports the end or an error. \<open>pending\<close> is what the
  peer has sent and will still send before the connection ends.\<close>

definition stream_recv :: "(nat \<Rightarrow> 's \<Rightarrow> (u8 list \<times> 's) option) \<Rightarrow> ('s \<Rightarrow> u8 list) \<Rightarrow> bool" where
  "stream_recv recv pending \<longleftrightarrow> (\<forall>n s. 0 < n \<longrightarrow>
     (if pending s = [] then \<forall>c s1. recv n s = Some (c, s1) \<longrightarrow> c = []
      else \<exists>c s1. recv n s = Some (c, s1) \<and> c \<noteq> [] \<and> length c \<le> n \<and> pending s = c @ pending s1))"

lemma read_exact_stream:
  assumes "stream_recv recv pending"
  shows "(n \<le> length (pending s) \<longrightarrow> (\<exists>s1. read_exact recv n s = Some (take n (pending s), s1) \<and>
       pending s1 = drop n (pending s))) \<and>
     (length (pending s) < n \<longrightarrow> read_exact recv n s = None)"
proof (induction n arbitrary: s rule: less_induct)
  case (less n)
  have law: "if pending s = [] then \<forall>c s1. recv n s = Some (c, s1) \<longrightarrow> c = []
      else \<exists>c s1. recv n s = Some (c, s1) \<and> c \<noteq> [] \<and> length c \<le> n \<and> pending s = c @ pending s1" if "0 < n"
    using assms that unfolding stream_recv_def by blast
  consider "n = 0" | "0 < n" "pending s = []" | "0 < n" "pending s \<noteq> []" by blast
  then show ?case
  proof cases
    case 1
    then show ?thesis by (simp add: read_exact.simps [of recv 0])
  next
    case 2
    then show ?thesis
      using law by (cases "recv n s") (auto simp: read_exact.simps [of recv n s])
  next
    case 3
    then obtain c s1 where c: "recv n s = Some (c, s1)" "c \<noteq> []" "length c \<le> n" "pending s = c @ pending s1"
      using law [OF 3(1)] unfolding if_not_P [OF 3(2)] by blast
    then have step: "read_exact recv n s = (case read_exact recv (n - length c) s1 of None \<Rightarrow> None
        | Some (rest, s2) \<Rightarrow> Some (c @ rest, s2))"
      using 3(1) by (subst read_exact.simps) simp
    have "n - length c < n" using c(2) 3(1) by (cases c) auto
    from less.IH [OF this, of s1] show ?thesis
      unfolding step using c(3,4) by (auto simp del: less_imp_diff_less)
  qed
qed

text \<open>What a stream socket promises for writes: a call accepts between one and all of the bytes
  and appends those to the wire.\<close>

definition stream_send :: "(u8 list \<Rightarrow> 's \<Rightarrow> (nat \<times> 's) option) \<Rightarrow> ('s \<Rightarrow> u8 list) \<Rightarrow> bool" where
  "stream_send send wire \<longleftrightarrow> (\<forall>bs s. bs \<noteq> [] \<longrightarrow>
     (\<exists>r s1. send bs s = Some (r, s1) \<and> 0 < r \<and> r \<le> length bs \<and> wire s1 = wire s @ take r bs))"

lemma write_all_stream:
  assumes "stream_send send wire"
  shows "\<exists>s1. write_all send bs s = Some (True, s1) \<and> wire s1 = wire s @ bs"
proof (induction "length bs" arbitrary: bs s rule: less_induct)
  case less
  show ?case
  proof (cases "bs = []")
    case False
    then obtain r s1 where r: "send bs s = Some (r, s1)" "0 < r" "r \<le> length bs" "wire s1 = wire s @ take r bs"
      using assms unfolding stream_send_def by blast
    have "length (drop r bs) < length bs" using r(2) False by simp
    from less [OF this, of s1] show ?thesis
      using False r by (auto simp: write_all.simps [of send bs])
  qed (simp add: write_all.simps [of send "[]"])
qed

end
