(* ===== verification/Protocol.thy ===== *)
theory Protocol
  imports Net Checksum Enums
begin

text \<open>
  The framed wire protocol of \<^verbatim>\<open>include/congestion_fabric/protocol.hpp\<close> and the two copies of
  \<^verbatim>\<open>recv_frame\<close> and \<^verbatim>\<open>send_frame\<close> (\<^verbatim>\<open>src/coordinator.cpp\<close>, \<^verbatim>\<open>tools/cfworker.cpp\<close>). A thrown
  \<^verbatim>\<open>CorruptError\<close> or a \<^verbatim>\<open>false\<close> result is \<open>None\<close>. The socket operations are arguments: a reader
  \<open>rd n s\<close> that returns \<open>n\<close> bytes and the socket after it, or \<open>None\<close>.
\<close>

section \<open>Message types and frames\<close>

datatype MessageType = MT_HELLO | MT_REGISTER | MT_REGISTER_ACK | MT_CREATE_DOMAIN |
  MT_DOMAIN_CREATED | MT_DECLARE_FLOW | MT_FLOW_DECLARED | MT_ADMIT | MT_QUEUE | MT_START |
  MT_PROGRESS | MT_COMPLETE | MT_CANCEL | MT_PUBLISH_MEASUREMENT | MT_QUERY_CONGESTION |
  MT_CONGESTION_UPDATE | MT_QUERY_BOTTLENECK | MT_BOTTLENECK | MT_QUERY_RESIDUAL | MT_RESIDUAL |
  MT_APPLY_SHAPING | MT_BACKPRESSURE | MT_FENCE_WORKER | MT_INVALIDATE_SOURCE |
  MT_ADVANCE_GENERATION | MT_REVALIDATE | MT_SAVE | MT_SHUTDOWN | MT_NACK | MT_OK | MT_ERROR |
  MT_other u8

fun MessageType_to_u8 :: "MessageType \<Rightarrow> u8" where
  "MessageType_to_u8 MT_HELLO = 1"
| "MessageType_to_u8 MT_REGISTER = 2"
| "MessageType_to_u8 MT_REGISTER_ACK = 3"
| "MessageType_to_u8 MT_CREATE_DOMAIN = 4"
| "MessageType_to_u8 MT_DOMAIN_CREATED = 5"
| "MessageType_to_u8 MT_DECLARE_FLOW = 6"
| "MessageType_to_u8 MT_FLOW_DECLARED = 7"
| "MessageType_to_u8 MT_ADMIT = 8"
| "MessageType_to_u8 MT_QUEUE = 9"
| "MessageType_to_u8 MT_START = 10"
| "MessageType_to_u8 MT_PROGRESS = 11"
| "MessageType_to_u8 MT_COMPLETE = 12"
| "MessageType_to_u8 MT_CANCEL = 13"
| "MessageType_to_u8 MT_PUBLISH_MEASUREMENT = 14"
| "MessageType_to_u8 MT_QUERY_CONGESTION = 15"
| "MessageType_to_u8 MT_CONGESTION_UPDATE = 16"
| "MessageType_to_u8 MT_QUERY_BOTTLENECK = 17"
| "MessageType_to_u8 MT_BOTTLENECK = 18"
| "MessageType_to_u8 MT_QUERY_RESIDUAL = 19"
| "MessageType_to_u8 MT_RESIDUAL = 20"
| "MessageType_to_u8 MT_APPLY_SHAPING = 21"
| "MessageType_to_u8 MT_BACKPRESSURE = 22"
| "MessageType_to_u8 MT_FENCE_WORKER = 23"
| "MessageType_to_u8 MT_INVALIDATE_SOURCE = 24"
| "MessageType_to_u8 MT_ADVANCE_GENERATION = 25"
| "MessageType_to_u8 MT_REVALIDATE = 26"
| "MessageType_to_u8 MT_SAVE = 27"
| "MessageType_to_u8 MT_SHUTDOWN = 28"
| "MessageType_to_u8 MT_NACK = 29"
| "MessageType_to_u8 MT_OK = 30"
| "MessageType_to_u8 MT_ERROR = 31"
| "MessageType_to_u8 (MT_other u) = u"

definition MessageType_enum :: "MessageType list" where
  "MessageType_enum = [MT_HELLO, MT_REGISTER, MT_REGISTER_ACK, MT_CREATE_DOMAIN,
    MT_DOMAIN_CREATED, MT_DECLARE_FLOW, MT_FLOW_DECLARED, MT_ADMIT, MT_QUEUE, MT_START,
    MT_PROGRESS, MT_COMPLETE, MT_CANCEL, MT_PUBLISH_MEASUREMENT, MT_QUERY_CONGESTION,
    MT_CONGESTION_UPDATE, MT_QUERY_BOTTLENECK, MT_BOTTLENECK, MT_QUERY_RESIDUAL, MT_RESIDUAL,
    MT_APPLY_SHAPING, MT_BACKPRESSURE, MT_FENCE_WORKER, MT_INVALIDATE_SOURCE,
    MT_ADVANCE_GENERATION, MT_REVALIDATE, MT_SAVE, MT_SHUTDOWN, MT_NACK, MT_OK, MT_ERROR]"

text \<open>\<^verbatim>\<open>static_cast<MessageType>\<close> of a byte.\<close>

definition message_type_known :: "u8 \<Rightarrow> bool" where
  "message_type_known u \<longleftrightarrow> 1 \<le> u \<and> u \<le> 31"

definition MessageType_of_u8 :: "u8 \<Rightarrow> MessageType" where
  "MessageType_of_u8 u = (if message_type_known u then MessageType_enum ! (unat u - 1) else MT_other u)"

definition MessageType_named :: "MessageType \<Rightarrow> bool" where
  "MessageType_named t \<longleftrightarrow> t \<in> set MessageType_enum"

record Frame =
  frame_type :: MessageType
  frame_body :: "u8 list"

definition proto_kMagic :: "u8 list" where
  "proto_kMagic = [0x43, 0x46, 0x50, 0x31]"

definition proto_kVersion :: u8 where
  "proto_kVersion = 1"

definition kMaxFrameBody :: u64 where
  "kMaxFrameBody = 0x100000"

definition kHeaderBytes :: nat where
  "kHeaderBytes = 10"

definition kCrcBytes :: nat where
  "kCrcBytes = 4"

section \<open>Encoding and decoding\<close>

definition body_crc :: "u8 \<Rightarrow> u8 list \<Rightarrow> u32" where
  "body_crc t body = crc32 (wr_u8 t @ body)"

definition encode_frame :: "Frame \<Rightarrow> u8 list" where
  "encode_frame f = proto_kMagic @ wr_u8 proto_kVersion @ wr_u8 (MessageType_to_u8 (frame_type f)) @
     wr_u32 (of_nat (length (frame_body f))) @ frame_body f @
     wr_u32 (body_crc (MessageType_to_u8 (frame_type f)) (frame_body f))"

definition decode_frame :: "u8 list \<Rightarrow> Frame option" where
  "decode_frame bs = do {
     (magic, bs) \<leftarrow> rd_raw 4 bs;
     check (magic = proto_kMagic);
     (ver, bs) \<leftarrow> rd_u8 bs;
     check (ver = proto_kVersion);
     (t, bs) \<leftarrow> rd_u8 bs;
     (body_len, bs) \<leftarrow> rd_u32 bs;
     check (\<not> ucast body_len > kMaxFrameBody);
     check (length bs = unat body_len + kCrcBytes);
     (body, bs) \<leftarrow> rd_raw (unat body_len) bs;
     (stored, bs) \<leftarrow> rd_u32 bs;
     check (stored = body_crc t body);
     Some \<lparr>frame_type = MessageType_of_u8 t, frame_body = body\<rparr> }"

definition validate_crc :: "u8 \<Rightarrow> u8 list \<Rightarrow> u32 \<Rightarrow> bool" where
  "validate_crc t body stored \<longleftrightarrow> body_crc t body = stored"

section \<open>Frames on a socket\<close>

text \<open>\<^verbatim>\<open>recv_frame\<close>; the worker's copy checks the version byte, the coordinator's does not.\<close>

definition recv_frame :: "bool \<Rightarrow> (nat \<Rightarrow> 's \<Rightarrow> (u8 list \<times> 's) option) \<Rightarrow> 's \<Rightarrow> (Frame \<times> 's) option" where
  "recv_frame check_version rd s = do {
     (hdr, s) \<leftarrow> rd kHeaderBytes s;
     check (take 4 hdr = proto_kMagic);
     check (check_version \<longrightarrow> hdr ! 4 = proto_kVersion);
     let t = hdr ! 5;
     (body_len, _) \<leftarrow> rd_u32 (drop 6 hdr);
     check (\<not> ucast body_len > kMaxFrameBody);
     (body, s) \<leftarrow> (if body_len \<noteq> 0 then rd (unat body_len) s else Some ([], s));
     (crc_buf, s) \<leftarrow> rd 4 s;
     (stored, _) \<leftarrow> rd_u32 crc_buf;
     check (validate_crc t body stored);
     Some (\<lparr>frame_type = MessageType_of_u8 t, frame_body = body\<rparr>, s) }"

definition coordinator_recv_frame :: "(nat \<Rightarrow> 's \<Rightarrow> (u8 list \<times> 's) option) \<Rightarrow> 's \<Rightarrow> (Frame \<times> 's) option" where
  "coordinator_recv_frame rd s = recv_frame False rd s"

definition worker_recv_frame :: "(nat \<Rightarrow> 's \<Rightarrow> (u8 list \<times> 's) option) \<Rightarrow> 's \<Rightarrow> (Frame \<times> 's) option" where
  "worker_recv_frame rd s = recv_frame True rd s"

definition send_frame :: "(u8 list \<Rightarrow> 's \<Rightarrow> 'r) \<Rightarrow> MessageType \<Rightarrow> u8 list \<Rightarrow> 's \<Rightarrow> 'r" where
  "send_frame wr t body s = wr (encode_frame \<lparr>frame_type = t, frame_body = body\<rparr>) s"

section \<open>Frames round trip and are canonical\<close>

lemma MessageType_enum_bytes: "map MessageType_to_u8 MessageType_enum = map of_nat [1..<32]"
  by (simp add: MessageType_enum_def upt_rec)

lemma MessageType_to_of: "MessageType_to_u8 (MessageType_of_u8 u) = u"
proof (cases "message_type_known u")
  case True
  then have u: "1 \<le> unat u" "unat u \<le> 31" by (simp_all add: message_type_known_def word_le_nat_alt)
  have len: "length MessageType_enum = 31" by (simp add: MessageType_enum_def)
  then have "MessageType_to_u8 (MessageType_enum ! (unat u - 1)) = map MessageType_to_u8 MessageType_enum ! (unat u - 1)"
    using u by simp
  also have "\<dots> = of_nat (unat u)" using u unfolding MessageType_enum_bytes by (simp del: upt_Suc)
  finally show ?thesis using True by (simp add: MessageType_of_u8_def)
qed (simp add: MessageType_of_u8_def)

lemma MessageType_of_to: "MessageType_named t \<Longrightarrow> MessageType_of_u8 (MessageType_to_u8 t) = t"
  by (auto simp: MessageType_named_def MessageType_enum_def MessageType_of_u8_def message_type_known_def)

text \<open>A frame the protocol can carry: a named type and a body within the bound.\<close>

definition frame_ok :: "Frame \<Rightarrow> bool" where
  "frame_ok f \<longleftrightarrow> MessageType_named (frame_type f) \<and> length (frame_body f) \<le> 2 ^ 20"

text \<open>The bytes of a frame with an arbitrary version byte.\<close>

definition frame_bytes :: "u8 \<Rightarrow> u8 \<Rightarrow> u8 list \<Rightarrow> u8 list" where
  "frame_bytes ver t body = proto_kMagic @ [ver, t] @ wr_u32 (of_nat (length body)) @ body @ wr_u32 (body_crc t body)"

lemma encode_frame_bytes:
  "encode_frame f = frame_bytes proto_kVersion (MessageType_to_u8 (frame_type f)) (frame_body f)"
  by (simp add: encode_frame_def frame_bytes_def wr_u8_def)

lemma frame_lengths [simp]: "length proto_kMagic = 4" "length (wr_u32 x) = 4"
  by (simp_all add: proto_kMagic_def wr_u32_def)

lemma frame_bytes_length: "length (frame_bytes ver t body) = 14 + length body"
  by (simp add: frame_bytes_def)

lemma unat_u32_u64: "unat (ucast (x :: u32) :: u64) = unat x"
proof -
  have "unat x < 2 ^ 32" using unsigned_less [of x] by simp
  then show ?thesis by (simp add: unsigned_ucast_eq take_bit_nat_eq_self)
qed

lemma body_len_bound:
  assumes "length body \<le> 2 ^ 20"
  shows "unat (of_nat (length body) :: u32) = length body" "\<not> ucast (of_nat (length body) :: u32) > kMaxFrameBody"
    "(of_nat (length body) :: u32) \<noteq> 0 \<longleftrightarrow> body \<noteq> []"
proof -
  have lt: "length body < 2 ^ 32" using assms by simp
  then show len: "unat (of_nat (length body) :: u32) = length body" by (simp add: unat_of_nat)
  show "\<not> ucast (of_nat (length body) :: u32) > kMaxFrameBody"
    using assms len by (simp add: kMaxFrameBody_def word_less_nat_alt unat_u32_u64)
  show "(of_nat (length body) :: u32) \<noteq> 0 \<longleftrightarrow> body \<noteq> []"
    using len by (metis length_0_conv unat_0 unat_eq_zero)
qed

lemma rd_u32_whole: "rd_u32 (wr_u32 x) = Some (x, [])"
  using c_u32.round [of x "[]"] by simp

lemma recv_frame_bytes:
  assumes "length body \<le> 2 ^ 20" "v \<longrightarrow> ver = proto_kVersion"
  shows "recv_frame v rd_raw (frame_bytes ver t body @ rest) =
    Some (\<lparr>frame_type = MessageType_of_u8 t, frame_body = body\<rparr>, rest)"
proof -
  let ?hdr = "proto_kMagic @ [ver, t] @ wr_u32 (of_nat (length body))"
  have hdr: "rd_raw kHeaderBytes (frame_bytes ver t body @ rest) =
      Some (?hdr, body @ wr_u32 (body_crc t body) @ rest)"
    using rd_raw_append [of kHeaderBytes ?hdr "body @ wr_u32 (body_crc t body) @ rest"]
    by (simp add: frame_bytes_def kHeaderBytes_def)
  have parts: "take 4 ?hdr = proto_kMagic" "?hdr ! 4 = ver" "?hdr ! 5 = t"
      "drop 6 ?hdr = wr_u32 (of_nat (length body))"
    by (simp_all add: nth_append)
  have body: "rd_raw (length body) (body @ wr_u32 (body_crc t body) @ rest) = Some (body, wr_u32 (body_crc t body) @ rest)"
    by (simp add: rd_raw_append)
  have crc: "rd_raw 4 (wr_u32 (body_crc t body) @ rest) = Some (wr_u32 (body_crc t body), rest)"
    by (simp add: rd_raw_append)
  show ?thesis
    unfolding recv_frame_def hdr
    using assms body_len_bound [OF assms(1)] parts body crc
    by (auto simp: rd_u32_whole validate_crc_def)
qed

lemma recv_frame_inverse:
  assumes "recv_frame v rd_raw bs = Some (f, rest)"
  shows "\<exists>ver t. bs = frame_bytes ver t (frame_body f) @ rest \<and> frame_type f = MessageType_of_u8 t \<and>
    length (frame_body f) \<le> 2 ^ 20 \<and> (v \<longrightarrow> ver = proto_kVersion)"
proof -
  from assms obtain hdr b1 body_len x body b2 crc_buf stored y where
    r: "rd_raw kHeaderBytes bs = Some (hdr, b1)" "take 4 hdr = proto_kMagic" "v \<longrightarrow> hdr ! 4 = proto_kVersion"
      "rd_u32 (drop 6 hdr) = Some (body_len, x)" "\<not> ucast body_len > kMaxFrameBody"
      "(if body_len \<noteq> 0 then rd_raw (unat body_len) b1 else Some ([], b1)) = Some (body, b2)"
      "rd_raw 4 b2 = Some (crc_buf, rest)" "rd_u32 crc_buf = Some (stored, y)"
      "validate_crc (hdr ! 5) body stored"
      "f = \<lparr>frame_type = MessageType_of_u8 (hdr ! 5), frame_body = body\<rparr>"
    by (auto simp: recv_frame_def bind_eq_Some_conv Let_def)
  have h: "bs = hdr @ b1" "length hdr = 10" using rd_raw_inverse [OF r(1)] by (simp_all add: kHeaderBytes_def)
  have bl: "drop 6 hdr = wr_u32 body_len @ x" using rd_u32_inverse [OF r(4)] .
  have "length (drop 6 hdr) = 4 + length x" unfolding bl by simp
  then have x: "x = []" using h(2) by simp
  have "hdr = take 4 hdr @ [hdr ! 4, hdr ! 5] @ drop 6 hdr"
    using h(2) Cons_nth_drop_Suc [of 4 hdr] Cons_nth_drop_Suc [of 5 hdr] append_take_drop_id [of 4 hdr] by simp
  then have hdr: "hdr = proto_kMagic @ [hdr ! 4, hdr ! 5] @ wr_u32 body_len"
    using r(2) bl x by simp
  have body: "b1 = body @ b2" "length body = unat body_len"
    using r(6) rd_raw_inverse [of "unat body_len" b1 body b2] by (auto split: if_splits)
  have "unat (ucast body_len :: u64) \<le> 2 ^ 20"
    using r(5) by (simp add: kMaxFrameBody_def word_less_nat_alt not_less)
  then have len: "length body \<le> 2 ^ 20" using body(2) by (simp add: unat_u32_u64)
  have crc: "b2 = crc_buf @ rest" "length crc_buf = 4" using rd_raw_inverse [OF r(7)] by simp_all
  have "crc_buf = wr_u32 stored @ y" using rd_u32_inverse [OF r(8)] .
  then have "crc_buf = wr_u32 stored" using crc(2) arg_cong [of crc_buf _ length] by fastforce
  then have "bs = frame_bytes (hdr ! 4) (hdr ! 5) body @ rest"
    using h(1) hdr body crc(1) r(9) by (simp add: frame_bytes_def validate_crc_def)
  then show ?thesis using r(3,10) len by auto
qed

lemma decode_frame_bytes:
  assumes "length body \<le> 2 ^ 20"
  shows "decode_frame (frame_bytes proto_kVersion t body) = Some \<lparr>frame_type = MessageType_of_u8 t, frame_body = body\<rparr>"
proof -
  have "rd_raw 4 (frame_bytes proto_kVersion t body) =
      Some (proto_kMagic, [proto_kVersion, t] @ wr_u32 (of_nat (length body)) @ body @ wr_u32 (body_crc t body))"
    unfolding frame_bytes_def by (rule rd_raw_append) simp
  then show ?thesis
    using body_len_bound [OF assms]
    by (simp add: decode_frame_def prim_round kCrcBytes_def rd_raw_append rd_u32_whole)
qed

lemma decode_frame_inverse:
  assumes "decode_frame bs = Some f"
  shows "\<exists>t. bs = frame_bytes proto_kVersion t (frame_body f) \<and> frame_type f = MessageType_of_u8 t \<and>
    length (frame_body f) \<le> 2 ^ 20"
proof -
  from assms obtain b1 b2 t b3 body_len b4 body b5 stored b6 where
    r: "rd_raw 4 bs = Some (proto_kMagic, b1)" "rd_u8 b1 = Some (proto_kVersion, b2)" "rd_u8 b2 = Some (t, b3)"
      "rd_u32 b3 = Some (body_len, b4)" "\<not> ucast body_len > kMaxFrameBody" "length b4 = unat body_len + kCrcBytes"
      "rd_raw (unat body_len) b4 = Some (body, b5)" "rd_u32 b5 = Some (stored, b6)" "stored = body_crc t body"
      "f = \<lparr>frame_type = MessageType_of_u8 t, frame_body = body\<rparr>"
    by (auto simp: decode_frame_def bind_eq_Some_conv)
  have u8: "b1 = proto_kVersion # b2" "b2 = t # b3" using r(2,3) by (auto elim: rd_u8.elims)
  have body: "b4 = body @ b5" "length body = unat body_len" using rd_raw_inverse [OF r(7)] by simp_all
  have b5: "b5 = wr_u32 stored @ b6" using rd_u32_inverse [OF r(8)] .
  then have "b6 = []" using r(6) body by (simp add: kCrcBytes_def)
  moreover have "unat (ucast body_len :: u64) \<le> 2 ^ 20"
    using r(5) by (simp add: kMaxFrameBody_def word_less_nat_alt not_less)
  then have "length body \<le> 2 ^ 20" using body(2) by (simp add: unat_u32_u64)
  ultimately show ?thesis
    using rd_raw_inverse [OF r(1)] u8 rd_u32_inverse [OF r(4)] body b5 r(9,10)
    by (auto simp: frame_bytes_def intro!: exI [of _ t])
qed

text \<open>A byte string decodes to a frame exactly when it is the encoding of that frame and the
  body is within the bound: encoding and decoding are inverse, and every accepted frame has a single
  representation.\<close>

theorem decode_frame_canonical:
  "decode_frame bs = Some f \<longleftrightarrow> bs = encode_frame f \<and> length (frame_body f) \<le> 2 ^ 20 \<and>
     frame_type f = MessageType_of_u8 (MessageType_to_u8 (frame_type f))"
proof
  assume "decode_frame bs = Some f"
  from decode_frame_inverse [OF this] show "bs = encode_frame f \<and> length (frame_body f) \<le> 2 ^ 20 \<and>
     frame_type f = MessageType_of_u8 (MessageType_to_u8 (frame_type f))"
    by (auto simp: encode_frame_bytes MessageType_to_of)
next
  assume "bs = encode_frame f \<and> length (frame_body f) \<le> 2 ^ 20 \<and>
     frame_type f = MessageType_of_u8 (MessageType_to_u8 (frame_type f))"
  then show "decode_frame bs = Some f"
    using decode_frame_bytes [of "frame_body f"] by (simp add: encode_frame_bytes)
qed

text \<open>C27: the worker's socket path accepts exactly the streams that begin with a frame
  \<^verbatim>\<open>decode_frame\<close> accepts, and leaves the rest of the stream; the coordinator's accepts those and,
  with a free choice of the version byte, nothing else.\<close>

theorem socket_paths_agree:
  "(worker_recv_frame rd_raw bs = Some (f, rest) \<longleftrightarrow> (\<exists>fb. bs = fb @ rest \<and> decode_frame fb = Some f)) \<and>
   (coordinator_recv_frame rd_raw bs = Some (f, rest) \<longleftrightarrow>
      (\<exists>fb ver. bs = fb[4 := ver] @ rest \<and> decode_frame fb = Some f))"
proof -
  have upd: "(frame_bytes v t body)[4 := ver] = frame_bytes ver t body" for v t body ver
    by (simp add: frame_bytes_def list_update_append)
  have recv: "recv_frame v rd_raw bs = Some (f, rest) \<longleftrightarrow> (\<exists>ver t. bs = frame_bytes ver t (frame_body f) @ rest \<and>
      length (frame_body f) \<le> 2 ^ 20 \<and> frame_type f = MessageType_of_u8 t \<and> (v \<longrightarrow> ver = proto_kVersion))" for v
    using recv_frame_inverse [of v bs f rest] recv_frame_bytes [of "frame_body f" v] by auto
  have iff: "(\<exists>fb. P fb \<and> decode_frame fb = Some f) \<longleftrightarrow> (\<exists>t. P (frame_bytes proto_kVersion t (frame_body f)) \<and>
      length (frame_body f) \<le> 2 ^ 20 \<and> frame_type f = MessageType_of_u8 t)" for P
  proof
    assume "\<exists>fb. P fb \<and> decode_frame fb = Some f"
    then show "\<exists>t. P (frame_bytes proto_kVersion t (frame_body f)) \<and> length (frame_body f) \<le> 2 ^ 20 \<and>
        frame_type f = MessageType_of_u8 t"
      using decode_frame_inverse by blast
  next
    assume "\<exists>t. P (frame_bytes proto_kVersion t (frame_body f)) \<and> length (frame_body f) \<le> 2 ^ 20 \<and>
        frame_type f = MessageType_of_u8 t"
    then show "\<exists>fb. P fb \<and> decode_frame fb = Some f"
      using decode_frame_bytes [of "frame_body f"] by auto
  qed
  show ?thesis
    unfolding worker_recv_frame_def coordinator_recv_frame_def recv
    using iff [of "\<lambda>fb. bs = fb @ rest"] iff [of "\<lambda>fb. \<exists>ver. bs = fb[4 := ver] @ rest"] by (auto simp: upd)
qed

section \<open>Corruption on the wire\<close>

lemma burst_Cons: "burst f g \<Longrightarrow> burst (x # f) (x # g)"
  unfolding burst_def by (metis append_Cons)

lemma burst_head: "burst (a # xs) (b # xs)"
  unfolding burst_def by (rule exI [of _ "[]"], rule exI [of _ "[a]"], rule exI [of _ "[b]"]) simp

lemma burst_early:
  assumes "burst f g" "f ! 5 \<noteq> g ! 5"
  shows "drop 10 f = drop 10 g"
proof -
  from assms(1) obtain xs as bs ys where w: "f = xs @ as @ ys" "g = xs @ bs @ ys" "length as = length bs" "length as \<le> 4"
    by (auto simp: burst_def)
  have "\<not> 5 < length xs" using assms(2) by (auto simp: w nth_append)
  then show ?thesis using w by simp
qed

lemma frame_bytes_drop: "drop 10 (frame_bytes ver t body) = body @ wr_u32 (body_crc t body)"
  by (simp add: frame_bytes_def)

lemma frame_bytes_burst:
  assumes "burst (frame_bytes v t body) (frame_bytes v u cody)"
  shows "frame_bytes v t body = frame_bytes v u cody"
proof -
  let ?f = "frame_bytes v t body" and ?g = "frame_bytes v u cody"
  have len: "length body = length cody"
    using assms frame_bytes_length [of v t body] frame_bytes_length [of v u cody] by (auto simp: burst_def)
  have nth: "?f ! 5 = t" "?g ! 5 = u" by (simp_all add: frame_bytes_def nth_append)
  let ?m = "t # body @ wr_u32 (body_crc t body)" and ?n = "u # cody @ wr_u32 (body_crc u cody)"
  have "burst ?m ?n"
  proof (cases "t = u")
    case True
    then show ?thesis using burst_Cons [OF burst_drop [OF assms, of 10]] by (simp add: frame_bytes_drop)
  next
    case False
    then have "body @ wr_u32 (body_crc t body) = cody @ wr_u32 (body_crc u cody)"
      using burst_early [OF assms] nth unfolding frame_bytes_drop by metis
    then show ?thesis using burst_head by metis
  qed
  moreover have "fold crc_byte (x # xs @ wr_u32 (body_crc x xs)) (NOT 0) = (crc_bit ^^ 32) (- 1)" for x xs
    using crc_residue [of "x # xs" "body_crc x xs"] by (simp add: body_crc_def wr_u8_def)
  ultimately have "?m = ?n" using burst_crc by metis
  then show ?thesis using len by (simp add: frame_bytes_def)
qed

text \<open>A frame whose bytes are altered within four consecutive bytes is never decoded, wherever
  the corruption lies: magic, version, type, length, body or checksum.\<close>

theorem frame_burst_detected:
  assumes "decode_frame (xs @ as @ ys) \<noteq> None" "length bs = length as" "length as \<le> 4" "bs \<noteq> as"
  shows "decode_frame (xs @ bs @ ys) = None"
proof (rule ccontr)
  assume "decode_frame (xs @ bs @ ys) \<noteq> None"
  with assms(1) obtain t u body cody where
    eq: "xs @ as @ ys = frame_bytes proto_kVersion t body" "xs @ bs @ ys = frame_bytes proto_kVersion u cody"
    using decode_frame_inverse by blast
  have "burst (xs @ as @ ys) (xs @ bs @ ys)" unfolding burst_def using assms(2,3) by metis
  then have "xs @ as @ ys = xs @ bs @ ys" unfolding eq by (rule frame_bytes_burst)
  then show False using assms(2,4) by simp
qed

section \<open>Frames over a stream socket\<close>

definition stream_sim :: "('s \<Rightarrow> u8 list) \<Rightarrow> ('a \<times> 's) option \<Rightarrow> ('a \<times> u8 list) option \<Rightarrow> bool" where
  "stream_sim pending = rel_option (\<lambda>(a, s) (b, p). a = b \<and> pending s = p)"

lemma rel_bind:
  assumes "rel_option R x y" "\<And>a b. R a b \<Longrightarrow> rel_option Q (f a) (g b)"
  shows "rel_option Q (x \<bind> f) (y \<bind> g)"
  using assms by (cases x; cases y) auto

lemma rel_bind_same: "(\<And>a. rel_option Q (f a) (g a)) \<Longrightarrow> rel_option Q (x \<bind> f) (x \<bind> g)"
  by (cases x) auto

lemma read_exact_sim: "stream_recv recv pending \<Longrightarrow> stream_sim pending (read_exact recv n s) (rd_raw n (pending s))"
  using read_exact_stream [of recv pending n s] by (auto simp: stream_sim_def rd_raw_def)

lemma recv_frame_sim:
  assumes "stream_recv recv pending"
  shows "stream_sim pending (recv_frame v (read_exact recv) s) (recv_frame v rd_raw (pending s))"
proof -
  note sim = read_exact_sim [OF assms, unfolded stream_sim_def]
  show ?thesis
    unfolding recv_frame_def stream_sim_def Let_def
    by (auto intro!: rel_bind [OF sim] rel_bind_same)
qed

lemma recv_frame_encoded:
  assumes "frame_ok f"
  shows "recv_frame v rd_raw (encode_frame f @ rest) = Some (f, rest)"
  using assms recv_frame_bytes [of "frame_body f" v proto_kVersion "MessageType_to_u8 (frame_type f)" rest]
  by (simp add: frame_ok_def encode_frame_bytes MessageType_of_to)

text \<open>C25: however the operating system splits the reads and writes, \<^verbatim>\<open>send_frame\<close> returns and puts
  exactly the encoded frame on the wire, and a peer that has these bytes pending receives the same
  frame and is left at the first byte after it.\<close>

theorem frame_transport:
  assumes "stream_send send wire" "stream_recv recv pending" "frame_ok f" "pending r = encode_frame f @ rest"
  shows "(\<exists>s1. send_frame (write_all send) (frame_type f) (frame_body f) s = Some (True, s1) \<and>
      wire s1 = wire s @ encode_frame f) \<and>
    (\<exists>r1. coordinator_recv_frame (read_exact recv) r = Some (f, r1) \<and> pending r1 = rest) \<and>
    (\<exists>r1. worker_recv_frame (read_exact recv) r = Some (f, r1) \<and> pending r1 = rest)"
proof -
  have "\<exists>r1. recv_frame v (read_exact recv) r = Some (f, r1) \<and> pending r1 = rest" for v
    using recv_frame_sim [OF assms(2), of v r] recv_frame_encoded [OF assms(3), of v rest]
    by (cases "recv_frame v (read_exact recv) r") (auto simp: stream_sim_def assms(4))
  moreover have "send_frame (write_all send) (frame_type f) (frame_body f) s = write_all send (encode_frame f) s"
    by (cases f) (simp add: send_frame_def)
  ultimately show ?thesis
    using write_all_stream [OF assms(1), of "encode_frame f" s]
    by (simp add: coordinator_recv_frame_def worker_recv_frame_def)
qed

section \<open>Witnesses\<close>

definition sample_frame :: Frame where
  "sample_frame = \<lparr>frame_type = MT_OK, frame_body = [7]\<rparr>"

lemma sample_frame_ok: "frame_ok sample_frame"
  by (simp add: frame_ok_def sample_frame_def MessageType_named_def MessageType_enum_def)

theorem frame_burst_detected_witness:
  "decode_frame (0x44 # tl (encode_frame sample_frame)) = None"
proof -
  have "decode_frame ([] @ [0x43] @ tl (encode_frame sample_frame)) \<noteq> None"
    using decode_frame_bytes [of "[7]" "MessageType_to_u8 MT_OK"]
    by (simp add: encode_frame_bytes sample_frame_def frame_bytes_def proto_kMagic_def)
  from frame_burst_detected [OF this, of "[0x44]"] show ?thesis by simp
qed

text \<open>A socket that moves one byte per call.\<close>

definition slow_recv :: "nat \<Rightarrow> u8 list \<Rightarrow> (u8 list \<times> u8 list) option" where
  "slow_recv n s = Some (take 1 s, drop 1 s)"

definition slow_send :: "u8 list \<Rightarrow> u8 list \<Rightarrow> (nat \<times> u8 list) option" where
  "slow_send bs s = Some (1, s @ take 1 bs)"

theorem frame_transport_witness:
  "(\<exists>s1. send_frame (write_all slow_send) MT_OK [7] [] = Some (True, s1) \<and> s1 = encode_frame sample_frame) \<and>
   coordinator_recv_frame (read_exact slow_recv) (encode_frame sample_frame @ [9]) = Some (sample_frame, [9])"
proof -
  have "stream_send slow_send (\<lambda>s. s)"
    unfolding stream_send_def slow_send_def by (auto simp: Suc_le_eq)
  moreover have "stream_recv slow_recv (\<lambda>s. s)"
    unfolding stream_recv_def slow_recv_def by auto
  ultimately show ?thesis
    using frame_transport [OF _ _ sample_frame_ok, of slow_send "\<lambda>s. s" slow_recv "\<lambda>s. s" "encode_frame sample_frame @ [9]" "[9]" "[]"]
    by (simp add: sample_frame_def)
qed

end
