(* ===== verification/Coordinator.thy ===== *)
theory Coordinator
  imports Protocol Runs
begin

text \<open>
  The reference coordinator, \<^verbatim>\<open>src/coordinator.cpp\<close>: the message handler, a client session and the
  process that interleaves sessions over one engine. The file system is the argument \<open>put\<close>
  (\<open>put path bytes disk\<close> is the outcome of opening and writing a file), the clock the argument
  \<open>now\<close>. An exception inside the handler is \<open>Thrown\<close>; \<open>Undefined\<close> is the out-of-bounds write of
  \<^verbatim>\<open>MeasurementSet::put\<close> for a kind that is not an enumerator. Frames sent to the client are the
  output; the handler ignores whether sending succeeded.
\<close>

section \<open>Message bodies\<close>

text \<open>The reads of each case of \<^verbatim>\<open>handle\<close>, in order; bytes after the last read are ignored.\<close>

definition read_register :: "u8 list \<Rightarrow> ((WorkerId \<times> WorkerBootId \<times> SourceId \<times> SourceBootId) \<times> u8 list) option" where
  "read_register bs = do {
     (w, bs) \<leftarrow> rd_id bs;
     (b, bs) \<leftarrow> rd_gen bs;
     (s1, bs) \<leftarrow> rd_id bs;
     (s2, bs) \<leftarrow> rd_gen bs;
     Some ((w, b, s1, s2), bs) }"

definition read_create_domain :: "u8 list \<Rightarrow> ((DomainKind \<times> CapacityProfile) \<times> u8 list) option" where
  "read_create_domain bs = do {
     (kind, bs) \<leftarrow> rd_u8 bs;
     (tk, bs) \<leftarrow> rd_u8 bs;
     (tbps, bs) \<leftarrow> rd_u64 bs;
     (ck, bs) \<leftarrow> rd_u8 bs;
     (cbps, bs) \<leftarrow> rd_u64 bs;
     Some ((DomainKind_of_u8 kind, default_capacity\<lparr>
        theoretical := default_rate\<lparr>rate_bps := tbps, rate_kind := BandwidthKind_of_u8 tk, rate_prov := MP_MEASURED\<rparr>,
        configured := default_rate\<lparr>rate_bps := cbps, rate_kind := BandwidthKind_of_u8 ck, rate_prov := MP_REPORTED\<rparr>\<rparr>), bs) }"

definition read_declare_flow :: "u8 list \<Rightarrow> (FlowOptions \<times> u8 list) option" where
  "read_declare_flow bs = do {
     (w, bs) \<leftarrow> rd_id bs;
     (b, bs) \<leftarrow> rd_gen bs;
     (src, bs) \<leftarrow> rd_id bs;
     (sb, bs) \<leftarrow> rd_gen bs;
     (tc, bs) \<leftarrow> rd_u8 bs;
     (dref, bs) \<leftarrow> rd_ref bs;
     (expected, bs) \<leftarrow> rd_u64 bs;
     (submitted, bs) \<leftarrow> rd_u64 bs;
     (priority, bs) \<leftarrow> rd_u64 bs;
     (latency, bs) \<leftarrow> rd_u64 bs;
     (target, bs) \<leftarrow> rd_u64 bs;
     (allowance, bs) \<leftarrow> rd_u64 bs;
     (deadline, bs) \<leftarrow> rd_u64 bs;
     (prov, bs) \<leftarrow> rd_u8 bs;
     Some (default_options\<lparr>o_owner_worker := w, o_owner_boot := b, o_source := src, o_source_boot := sb,
        o_traffic_class := TrafficClass_of_u8 tc, o_domain := dref, o_expected_bytes := expected,
        o_submitted_bytes := submitted, o_priority := priority, o_latency_sensitivity := latency,
        o_throughput_target_bps := target, o_burst_allowance_bytes := allowance, o_deadline_ms := deadline,
        o_provenance := MeasurementProvenance_of_u8 prov\<rparr>, bs) }"

definition read_ref_boot :: "u8 list \<Rightarrow> ((FlowRef \<times> WorkerBootId) \<times> u8 list) option" where
  "read_ref_boot bs = do { (ref, bs) \<leftarrow> rd_ref bs; (b, bs) \<leftarrow> rd_gen bs; Some ((ref, b), bs) }"

definition read_ref_boot_count :: "u8 list \<Rightarrow> ((FlowRef \<times> WorkerBootId \<times> u64) \<times> u8 list) option" where
  "read_ref_boot_count bs = do {
     ((ref, b), bs) \<leftarrow> read_ref_boot bs;
     (n, bs) \<leftarrow> rd_u64 bs;
     Some ((ref, b, n), bs) }"

definition read_publish :: "u8 list \<Rightarrow> ((CongestionDomainId \<times> Measurement) \<times> u8 list) option" where
  "read_publish bs = do {
     (d, bs) \<leftarrow> rd_id bs;
     (kind, bs) \<leftarrow> rd_u8 bs;
     (v, bs) \<leftarrow> rd_u64 bs;
     (prov, bs) \<leftarrow> rd_u8 bs;
     (conf, bs) \<leftarrow> rd_u64 bs;
     Some ((d, default_measurement\<lparr>m_kind := MeasurementKind_of_u8 kind, m_value := v,
        m_provenance := MeasurementProvenance_of_u8 prov, m_confidence := conf\<rparr>), bs) }"

definition read_path :: "u8 list \<Rightarrow> (CongestionDomainId list \<times> u8 list) option" where
  "read_path bs = do { (n, bs) \<leftarrow> bounded_count 1024 bs; rd_many (unat n) rd_id bs }"

definition read_residual :: "u8 list \<Rightarrow> ((CongestionDomainId \<times> double) \<times> u8 list) option" where
  "read_residual bs = do { (d, bs) \<leftarrow> rd_id bs; (offered, bs) \<leftarrow> rd_u64 bs; Some ((d, offered), bs) }"

definition read_shaping :: "u8 list \<Rightarrow> ((CongestionDomainId \<times> BackpressureAction) \<times> u8 list) option" where
  "read_shaping bs = do {
     (d, bs) \<leftarrow> rd_id bs;
     (intent, bs) \<leftarrow> rd_u8 bs;
     (gen, bs) \<leftarrow> rd_gen bs;
     (benefit, bs) \<leftarrow> rd_u64 bs;
     Some ((d, default_action\<lparr>ba_intent := ActionIntent_of_u8 intent, ba_generation := gen,
        ba_expected_benefit_bps := benefit\<rparr>), bs) }"

definition read_worker :: "u8 list \<Rightarrow> ((WorkerId \<times> WorkerBootId) \<times> u8 list) option" where
  "read_worker bs = do { (w, bs) \<leftarrow> rd_id bs; (b, bs) \<leftarrow> rd_gen bs; Some ((w, b), bs) }"

definition read_source :: "u8 list \<Rightarrow> ((SourceId \<times> SourceBootId) \<times> u8 list) option" where
  "read_source bs = do { (s, bs) \<leftarrow> rd_id bs; (b, bs) \<leftarrow> rd_gen bs; Some ((s, b), bs) }"

definition read_generation :: "u8 list \<Rightarrow> ((FlowRef \<times> FlowGeneration) \<times> u8 list) option" where
  "read_generation bs = do { (ref, bs) \<leftarrow> rd_ref bs; (g, bs) \<leftarrow> rd_gen bs; Some ((ref, g), bs) }"

section \<open>The handler\<close>

record 'd Coordinator =
  co_engine :: CongestionFabric
  co_stop :: bool
  co_disk :: 'd

record Context =
  ctx_wid :: WorkerId
  ctx_boot :: WorkerBootId

definition no_context :: Context where
  "no_context = \<lparr>ctx_wid = Id 0, ctx_boot = Generation 0\<rparr>"

datatype 'a outcome = Thrown | Undefined | Done 'a

definition reply :: "MessageType \<Rightarrow> u8 list \<Rightarrow> Frame list" where
  "reply t body = [\<lparr>frame_type = t, frame_body = body\<rparr>]"

definition ok_reply :: "Frame list" where
  "ok_reply = reply MT_OK []"

definition nack_reply :: "Frame list" where
  "nack_reply = reply MT_NACK []"

type_synonym 'd handled = "(Frame list \<times> 'd Coordinator \<times> Context) outcome"

text \<open>Reading the body may throw before anything else happens.\<close>

definition reading :: "('a \<times> u8 list) option \<Rightarrow> ('a \<Rightarrow> 'd handled) \<Rightarrow> 'd handled" where
  "reading r k = (case r of None \<Rightarrow> Thrown | Some (a, _) \<Rightarrow> k a)"

text \<open>An engine call answered with \<^verbatim>\<open>ok\<close> or \<^verbatim>\<open>nack\<close>.\<close>

definition acked :: "bool \<times> CongestionFabric \<Rightarrow> 'd Coordinator \<Rightarrow> Context \<Rightarrow> 'd handled" where
  "acked r co ctx = (case r of (ok, e) \<Rightarrow>
     Done (if ok then ok_reply else nack_reply, co\<lparr>co_engine := e\<rparr>, ctx))"

definition ref_body :: "'t EntityRef \<Rightarrow> u8 list" where
  "ref_body ref = wr_u8 (if id_valid (ref_id ref) then 1 else 0) @ wr_ref ref"

definition handle_register :: "WorkerId \<times> WorkerBootId \<times> SourceId \<times> SourceBootId \<Rightarrow> 'd Coordinator \<Rightarrow> 'd handled" where
  "handle_register p co = (case p of (w, b, s1, s2) \<Rightarrow>
     case register_worker w b (co_engine co) of (a, e1) \<Rightarrow>
     case register_source s1 s2 e1 of (c, e2) \<Rightarrow>
       Done (reply MT_REGISTER_ACK (wr_u8 (if a \<and> c then 1 else 0)), co\<lparr>co_engine := e2\<rparr>,
         \<lparr>ctx_wid = w, ctx_boot = b\<rparr>))"

definition handle_create_domain :: "DomainKind \<times> CapacityProfile \<Rightarrow> 'd Coordinator \<Rightarrow> Context \<Rightarrow> 'd handled" where
  "handle_create_domain p co ctx = (case p of (kind, cap) \<Rightarrow>
     case create_domain kind cap (co_engine co) of (dref, e) \<Rightarrow>
       Done (reply MT_DOMAIN_CREATED (ref_body dref), co\<lparr>co_engine := e\<rparr>, ctx))"

definition handle_declare_flow :: "u64 \<Rightarrow> FlowOptions \<Rightarrow> 'd Coordinator \<Rightarrow> Context \<Rightarrow> 'd handled" where
  "handle_declare_flow now o' co ctx = (case declare_flow o' now (co_engine co) of (fl, e) \<Rightarrow>
     Done (reply MT_FLOW_DECLARED (ref_body fl), co\<lparr>co_engine := e\<rparr>, ctx))"

definition handle_publish :: "CongestionDomainId \<times> Measurement \<Rightarrow> 'd Coordinator \<Rightarrow> Context \<Rightarrow> 'd handled" where
  "handle_publish p co ctx = (case p of (d, m) \<Rightarrow>
     if \<not> id_valid (ctx_wid ctx) then Done (nack_reply, co, ctx)
     else case publish_measurement d m (ctx_wid ctx) (ctx_boot ctx) (co_engine co) of
       None \<Rightarrow> Undefined
     | Some r \<Rightarrow> acked r co ctx)"

definition handle_query_congestion :: "u64 \<Rightarrow> CongestionDomainId \<Rightarrow> 'd Coordinator \<Rightarrow> Context \<Rightarrow> 'd handled" where
  "handle_query_congestion now d co ctx = (case recompute_domain d now (co_engine co) of (a, e) \<Rightarrow>
     let snap = snapshot d e
     in Done (reply MT_CONGESTION_UPDATE
          (wr_u8 (CongestionState_to_u8 (as_state a)) @ wr_u8 (MeasurementProvenance_to_u8 (as_provenance a)) @
           wr_u64 (as_score a) @ wr_u8 (if as_authoritative a then 1 else 0) @
           wr_u8 (if dlt 0 (sn_offered_bps snap) then 1 else 0) @ wr_u64 (sn_offered_bps snap) @
           wr_u64 (sn_serviced_bps snap) @ wr_u64 (sn_effective_bps snap) @ wr_u64 (sn_residual_bps snap)),
        co\<lparr>co_engine := e\<rparr>, ctx))"

definition handle_query_bottleneck :: "CongestionDomainId list \<Rightarrow> 'd Coordinator \<Rightarrow> Context \<Rightarrow> 'd handled" where
  "handle_query_bottleneck path co ctx = (let br = identify_bottleneck path (co_engine co)
     in Done (reply MT_BOTTLENECK (wr_u8 (if id_valid (ref_id (bn_domain br)) then 1 else 0) @
          wr_id (ref_id (bn_domain br)) @ wr_u64 (bn_deficit_bps br) @ wr_str (bn_explanation br)), co, ctx))"

definition handle_query_residual :: "CongestionDomainId \<times> double \<Rightarrow> 'd Coordinator \<Rightarrow> Context \<Rightarrow> 'd handled" where
  "handle_query_residual p co ctx = (case p of (d, offered) \<Rightarrow>
     let res = query_residual_capacity d offered (co_engine co)
     in Done (reply MT_RESIDUAL (wr_u8 (if rc_has_capacity res then 1 else 0) @ wr_u64 (rc_effective_bps res) @
          wr_u64 (rc_residual_bps res)), co, ctx))"

definition handle_save :: "(string \<Rightarrow> u8 list \<Rightarrow> 'd \<Rightarrow> bool \<times> 'd) \<Rightarrow> string \<Rightarrow> 'd Coordinator \<Rightarrow> Context \<Rightarrow> 'd handled" where
  "handle_save put path co ctx = (case put path (save_file (co_engine co)) (co_disk co) of (ok, disk) \<Rightarrow>
     Done (if ok then ok_reply else nack_reply, co\<lparr>co_disk := disk\<rparr>, ctx))"

definition dispatch :: "(string \<Rightarrow> u8 list \<Rightarrow> 'd \<Rightarrow> bool \<times> 'd) \<Rightarrow> u64 \<Rightarrow> Frame \<Rightarrow> 'd Coordinator \<Rightarrow> Context
    \<Rightarrow> 'd handled" where
  "dispatch put now f co ctx = (let bs = frame_body f; e = co_engine co in case frame_type f of
     MT_HELLO \<Rightarrow> reading (rd_str bs) (\<lambda>_. Done (ok_reply, co, ctx))
   | MT_REGISTER \<Rightarrow> reading (read_register bs) (\<lambda>p. handle_register p co)
   | MT_CREATE_DOMAIN \<Rightarrow> reading (read_create_domain bs) (\<lambda>p. handle_create_domain p co ctx)
   | MT_DECLARE_FLOW \<Rightarrow> reading (read_declare_flow bs) (\<lambda>p. handle_declare_flow now p co ctx)
   | MT_ADMIT \<Rightarrow> reading (rd_ref bs) (\<lambda>ref. acked (admit_flow ref e) co ctx)
   | MT_QUEUE \<Rightarrow> reading (rd_ref bs) (\<lambda>ref. acked (queue_flow ref e) co ctx)
   | MT_START \<Rightarrow> reading (read_ref_boot bs) (\<lambda>(ref, b). acked (start_flow ref b now e) co ctx)
   | MT_PROGRESS \<Rightarrow> reading (read_ref_boot_count bs) (\<lambda>(ref, b, n). acked (flow_progress ref b n now e) co ctx)
   | MT_COMPLETE \<Rightarrow> reading (read_ref_boot bs) (\<lambda>(ref, b). acked (flow_complete ref b now e) co ctx)
   | MT_CANCEL \<Rightarrow> reading (read_ref_boot_count bs) (\<lambda>(ref, b, n). acked (flow_cancel ref b n now e) co ctx)
   | MT_PUBLISH_MEASUREMENT \<Rightarrow> reading (read_publish bs) (\<lambda>p. handle_publish p co ctx)
   | MT_QUERY_CONGESTION \<Rightarrow> reading (rd_id bs) (\<lambda>d. handle_query_congestion now d co ctx)
   | MT_QUERY_BOTTLENECK \<Rightarrow> reading (read_path bs) (\<lambda>path. handle_query_bottleneck path co ctx)
   | MT_QUERY_RESIDUAL \<Rightarrow> reading (read_residual bs) (\<lambda>p. handle_query_residual p co ctx)
   | MT_APPLY_SHAPING \<Rightarrow> reading (read_shaping bs) (\<lambda>(d, action). acked (apply_local_shaping d action e) co ctx)
   | MT_FENCE_WORKER \<Rightarrow> reading (read_worker bs) (\<lambda>(w, b). acked (fence_worker w b e) co ctx)
   | MT_INVALIDATE_SOURCE \<Rightarrow> reading (read_source bs) (\<lambda>(s, b). acked (fence_source s b e) co ctx)
   | MT_ADVANCE_GENERATION \<Rightarrow> reading (read_generation bs) (\<lambda>(ref, g). acked (advance_flow_generation ref g e) co ctx)
   | MT_REVALIDATE \<Rightarrow> reading (read_ref_boot bs) (\<lambda>(ref, b). acked (revalidate_flow ref b e) co ctx)
   | MT_SAVE \<Rightarrow> reading (rd_str bs) (\<lambda>path. handle_save put path co ctx)
   | MT_SHUTDOWN \<Rightarrow> Done (ok_reply, co\<lparr>co_stop := True\<rparr>, ctx)
   | _ \<Rightarrow> Done (nack_reply, co, ctx))"

definition handle :: "(string \<Rightarrow> u8 list \<Rightarrow> 'd \<Rightarrow> bool \<times> 'd) \<Rightarrow> u64 \<Rightarrow> Frame \<Rightarrow> 'd Coordinator \<Rightarrow> Context
    \<Rightarrow> (Frame list \<times> 'd Coordinator \<times> Context) option" where
  "handle put now f co ctx = (case dispatch put now f co ctx of
     Thrown \<Rightarrow> Some (nack_reply, co, ctx)
   | Undefined \<Rightarrow> None
   | Done r \<Rightarrow> Some r)"

section \<open>A client session\<close>

text \<open>The loop of \<^verbatim>\<open>session\<close> on the bytes the client delivers before the connection ends; \<open>now n\<close> is
  the clock when \<open>n\<close> bytes are left.\<close>

function serve :: "(string \<Rightarrow> u8 list \<Rightarrow> 'd \<Rightarrow> bool \<times> 'd) \<Rightarrow> (nat \<Rightarrow> u64) \<Rightarrow> u8 list \<Rightarrow> 'd Coordinator \<Rightarrow> Context
    \<Rightarrow> (Frame list \<times> 'd Coordinator \<times> Context) option" where
  "serve put now bs co ctx =
    (if co_stop co then Some ([], co, ctx)
     else case coordinator_recv_frame rd_raw bs of
       None \<Rightarrow> Some ([], co, ctx)
     | Some (f, rest) \<Rightarrow> (case handle put (now (length bs)) f co ctx of
         None \<Rightarrow> None
       | Some (out, co1, ctx1) \<Rightarrow> (case serve put now rest co1 ctx1 of
           None \<Rightarrow> None
         | Some (outs, co2, ctx2) \<Rightarrow> Some (out @ outs, co2, ctx2))))"
  by auto
termination
proof (relation "measure (\<lambda>(put, now, bs, co, ctx). length bs)")
  fix bs :: "u8 list" and f rest
  show "((put, now, rest, co1, ctx1), (put, now, bs, co, ctx)) \<in> measure (\<lambda>(put, now, bs, co, ctx). length bs)"
    if "coordinator_recv_frame rd_raw bs = Some x" "(f, rest) = x" for x put now co ctx co1 ctx1
    using that recv_frame_inverse [of False bs f rest] frame_bytes_length
    by (auto simp: coordinator_recv_frame_def)
qed simp

declare serve.simps [simp del]

definition end_session :: "Context \<Rightarrow> 'd Coordinator \<Rightarrow> 'd Coordinator" where
  "end_session ctx co = (if id_valid (ctx_wid ctx)
     then co\<lparr>co_engine := snd (fence_worker (ctx_wid ctx) (ctx_boot ctx) (co_engine co))\<rparr> else co)"

definition coordinator_session :: "(string \<Rightarrow> u8 list \<Rightarrow> 'd \<Rightarrow> bool \<times> 'd) \<Rightarrow> (nat \<Rightarrow> u64) \<Rightarrow> u8 list \<Rightarrow> 'd Coordinator
    \<Rightarrow> (Frame list \<times> 'd Coordinator) option" where
  "coordinator_session put now bs co = (case serve put now bs co no_context of
     None \<Rightarrow> None
   | Some (out, co1, ctx) \<Rightarrow> Some (out, end_session ctx co1))"

section \<open>The process\<close>

text \<open>\<^verbatim>\<open>main\<close> loads the state file, accepts connections, starts a thread per connection, and after a shutdown
  request joins the threads and saves. Sessions are named by their sockets; each is at a point of
  \<^verbatim>\<open>session\<close>: not yet in the socket registry, at the head of the loop, inside \<^verbatim>\<open>recv_frame\<close>, about to handle a
  frame, in the two closing calls of a shutdown request, out of the loop, and before \<^verbatim>\<open>unreg_sock\<close>.\<close>

datatype phase = Starting | Looping | Receiving | Received Frame | ClosingListener | ClosingOthers | Leaving | Ending

datatype main_phase = MainLoop | Accepting | Joining | Exited

record 'd System =
  sy_co :: "'d Coordinator"
  sy_main :: main_phase
  sy_listening :: bool
  sy_sessions :: "(nat, phase \<times> Context) umap"
  sy_socks :: "nat list"
  sy_closed :: "nat list"

definition start_coordinator :: "u8 list option \<Rightarrow> 'd \<Rightarrow> 'd System" where
  "start_coordinator state disk = \<lparr>sy_co = \<lparr>co_engine = snd (load state (new_fabric default_limits)),
     co_stop = False, co_disk = disk\<rparr>, sy_main = MainLoop, sy_listening = True, sy_sessions = [], sy_socks = [],
     sy_closed = []\<rparr>"

definition reg_sock :: "nat \<Rightarrow> 'd System \<Rightarrow> 'd System" where
  "reg_sock n sy = sy\<lparr>sy_socks := sy_socks sy @ [n]\<rparr>"

definition unreg_sock :: "nat \<Rightarrow> 'd System \<Rightarrow> 'd System" where
  "unreg_sock n sy = sy\<lparr>sy_socks := removeAll n (sy_socks sy)\<rparr>"

definition close_other_socks :: "nat \<Rightarrow> 'd System \<Rightarrow> 'd System" where
  "close_other_socks n sy = sy\<lparr>sy_closed := sy_closed sy @ filter (\<lambda>x. x \<noteq> n) (sy_socks sy)\<rparr>"

text \<open>\<^verbatim>\<open>main\<close> after its loop: the listener is closed before the threads are joined.\<close>

definition leave_accept_loop :: "'d System \<Rightarrow> 'd System" where
  "leave_accept_loop sy = sy\<lparr>sy_main := Joining, sy_listening := False\<rparr>"

text \<open>The end of \<^verbatim>\<open>main\<close>, after the threads have ended.\<close>

definition stop_coordinator :: "(string \<Rightarrow> u8 list \<Rightarrow> 'd \<Rightarrow> bool \<times> 'd) \<Rightarrow> string \<Rightarrow> 'd Coordinator \<Rightarrow> 'd Coordinator" where
  "stop_coordinator put state co =
    (if state = [] then co else co\<lparr>co_disk := snd (put state (save_file (co_engine co)) (co_disk co))\<rparr>)"

definition goto :: "nat \<Rightarrow> phase \<Rightarrow> Context \<Rightarrow> 'd System \<Rightarrow> 'd System" where
  "goto n ph ctx sy = sy\<lparr>sy_sessions := um_assign (sy_sessions sy) n (ph, ctx)\<rparr>"

text \<open>One step of \<^verbatim>\<open>main\<close> or of a session. Checking \<^verbatim>\<open>g_stop\<close>, receiving, handling and each closing call are steps of their
  own, so a frame received before a shutdown request may be handled after it. The engine's lock makes each engine
  call atomic; a handled frame, of at most two calls, is one step here.\<close>

inductive system_step :: "(string \<Rightarrow> u8 list \<Rightarrow> 'd \<Rightarrow> bool \<times> 'd) \<Rightarrow> string \<Rightarrow> 'd System \<Rightarrow> 'd System \<Rightarrow> bool" for put state where
  main_check: "sy_main sy = MainLoop \<Longrightarrow>
     system_step put state sy (if co_stop (sy_co sy) then leave_accept_loop sy else sy\<lparr>sy_main := Accepting\<rparr>)"
| accept: "sy_main sy = Accepting \<Longrightarrow> sy_listening sy \<Longrightarrow> um_find (sy_sessions sy) n = None \<Longrightarrow>
     system_step put state sy (goto n Starting no_context (sy\<lparr>sy_main := MainLoop, sy_closed := removeAll n (sy_closed sy)\<rparr>))"
| accept_failed: "sy_main sy = Accepting \<Longrightarrow>
     system_step put state sy (if co_stop (sy_co sy) then leave_accept_loop sy else sy\<lparr>sy_main := MainLoop\<rparr>)"
| begin_session: "um_find (sy_sessions sy) n = Some (Starting, ctx) \<Longrightarrow>
     system_step put state sy (goto n Looping ctx (reg_sock n sy))"
| loop_check: "um_find (sy_sessions sy) n = Some (Looping, ctx) \<Longrightarrow>
     system_step put state sy (goto n (if co_stop (sy_co sy) then Leaving else Receiving) ctx sy)"
| receive: "um_find (sy_sessions sy) n = Some (Receiving, ctx) \<Longrightarrow> n \<notin> set (sy_closed sy) \<Longrightarrow>
     system_step put state sy (goto n (Received f) ctx sy)"
| disconnect: "um_find (sy_sessions sy) n = Some (Receiving, ctx) \<Longrightarrow>
     system_step put state sy (goto n Leaving ctx sy)"
| message: "um_find (sy_sessions sy) n = Some (Received f, ctx) \<Longrightarrow>
     handle put now f (sy_co sy) ctx = Some (out, co1, ctx1) \<Longrightarrow>
     system_step put state sy (goto n (if frame_type f = MT_SHUTDOWN then ClosingListener else Looping) ctx1 (sy\<lparr>sy_co := co1\<rparr>))"
| close_listener: "um_find (sy_sessions sy) n = Some (ClosingListener, ctx) \<Longrightarrow>
     system_step put state sy (goto n ClosingOthers ctx (sy\<lparr>sy_listening := False\<rparr>))"
| close_others: "um_find (sy_sessions sy) n = Some (ClosingOthers, ctx) \<Longrightarrow>
     system_step put state sy (goto n Looping ctx (close_other_socks n sy))"
| leave: "um_find (sy_sessions sy) n = Some (Leaving, ctx) \<Longrightarrow>
     system_step put state sy (goto n Ending ctx (sy\<lparr>sy_co := end_session ctx (sy_co sy)\<rparr>))"
| finish: "um_find (sy_sessions sy) n = Some (Ending, ctx) \<Longrightarrow>
     system_step put state sy ((unreg_sock n sy)\<lparr>sy_sessions := um_erase (sy_sessions sy) n\<rparr>)"
| join: "sy_main sy = Joining \<Longrightarrow> sy_sessions sy = [] \<Longrightarrow>
     system_step put state sy (sy\<lparr>sy_main := Exited, sy_co := stop_coordinator put state (sy_co sy)\<rparr>)"

end
