(* ===== verification/CoordinatorProps.thy ===== *)
theory CoordinatorProps
  imports Coordinator
begin

text \<open>
  What the coordinator guarantees: each frame is answered once and acts on the engine only through
  its public methods, a connection is served frame by frame, a NACK means that nothing happened, the process keeps the engine invariant
  whatever state file it starts from and however sessions interleave, a disconnect revokes the
  worker's authority for good, and authority survives a restart.
\<close>

section \<open>Handlers are runs of the engine\<close>

lemma session_append: "session e1 e2 \<Longrightarrow> session e e1 \<Longrightarrow> session e e2"
  by (induction rule: session.induct) (auto intro: session.step)

lemmas session_trans [trans] = session_append [rotated]

lemma session_call: "exec now c e = Some p \<Longrightarrow> \<not> is_load c \<Longrightarrow> session e (snd p)"
  using session_snd [OF session.refl] by blast

lemma session_ops:
  "session e (snd (register_worker w b e))" "session e (snd (register_source s sb e))"
  "session e (snd (fence_worker w b e))" "session e (snd (fence_source s sb e))"
  "session e (snd (create_domain kind cap e))" "session e (snd (declare_flow opts now e))"
  "session e (snd (admit_flow ref e))" "session e (snd (queue_flow ref e))"
  "session e (snd (start_flow ref b now e))" "session e (snd (flow_progress ref b n now e))"
  "session e (snd (flow_complete ref b now e))" "session e (snd (flow_cancel ref b n now e))"
  "session e (snd (advance_flow_generation ref g e))" "session e (snd (revalidate_flow ref b e))"
  "session e (snd (recompute_domain k now e))" "session e (snd (apply_local_shaping k act e))"
  using session_call [of now "RegisterWorker w b" e] session_call [of now "RegisterSource s sb" e]
    session_call [of now "FenceWorker w b" e] session_call [of now "FenceSource s sb" e]
    session_call [of now "CreateDomain kind cap" e] session_call [of now "DeclareFlow opts" e]
    session_call [of now "AdmitFlow ref" e] session_call [of now "QueueFlow ref" e]
    session_call [of now "StartFlow ref b" e] session_call [of now "FlowProgress ref b n" e]
    session_call [of now "FlowComplete ref b" e] session_call [of now "FlowCancel ref b n" e]
    session_call [of now "AdvanceFlowGeneration ref g" e] session_call [of now "RevalidateFlow ref b" e]
    session_call [of now "RecomputeDomain k" e] session_call [of now "ApplyLocalShaping k act" e]
  by simp_all

lemma session_publish: "publish_measurement k m w b e = Some r \<Longrightarrow> session e (snd r)"
  using session_call [of now "PublishMeasurement k m w b" e r] by simp

text \<open>What every answer of the handler satisfies, given that a refused call changes nothing.\<close>

definition good_answer :: "'d Coordinator \<Rightarrow> Context \<Rightarrow> 'd handled \<Rightarrow> bool" where
  "good_answer co ctx r \<longleftrightarrow> (\<forall>out co1 ctx1. r = Done (out, co1, ctx1) \<longrightarrow>
     length out = 1 \<and> session (co_engine co) (co_engine co1) \<and> (co_stop co \<longrightarrow> co_stop co1) \<and>
     (engine_inv (co_engine co) \<longrightarrow> out = nack_reply \<longrightarrow> co1 = co\<lparr>co_disk := co_disk co1\<rparr> \<and> ctx1 = ctx))"

lemma reply_eq [simp]: "reply t b = reply u c \<longleftrightarrow> t = u \<and> b = c" "length (reply t b) = 1"
  by (auto simp: reply_def)

lemma good_reading [intro]: "(\<And>a. good_answer co ctx (k a)) \<Longrightarrow> good_answer co ctx (reading r k)"
  by (auto simp: reading_def good_answer_def split: option.splits)

lemma good_acked:
  assumes "exec now c (co_engine co) = Some r" "\<not> is_load c" "id_free c (co_engine co)"
  shows "good_answer co ctx (acked r co ctx)"
  using session_call [OF assms(1,2)] exec_atomic [of "co_engine co" now c "snd r"] assms(1,3)
  by (cases r) (auto simp: good_answer_def acked_def ok_reply_def nack_reply_def)

lemma good_quiet: "length out = 1 \<Longrightarrow> good_answer co ctx (Done (out, co, ctx))"
  by (simp add: good_answer_def session.refl)

lemma good_handlers:
  "good_answer co ctx (handle_register p co)"
  "good_answer co ctx (handle_create_domain q co ctx)"
  "good_answer co ctx (handle_declare_flow now opts co ctx)"
  "good_answer co ctx (handle_query_congestion now k co ctx)"
  "good_answer co ctx (handle_query_bottleneck path co ctx)"
  "good_answer co ctx (handle_query_residual r co ctx)"
  "good_answer co ctx (handle_save put file_path co ctx)"
proof -
  obtain w b s sb where p: "p = (w, b, s, sb)" by (cases p) auto
  have "session e (snd (register_source s sb (snd (register_worker w b e))))" for e
    using session_trans [OF session_ops(1) session_ops(2)] .
  then show "good_answer co ctx (handle_register p co)"
    by (auto simp: p good_answer_def handle_register_def nack_reply_def split: prod.splits; metis snd_conv)
  show "good_answer co ctx (handle_create_domain q co ctx)"
    using session_ops(5) [of "co_engine co" "fst q" "snd q"]
    by (auto simp: good_answer_def handle_create_domain_def nack_reply_def split: prod.splits)
  show "good_answer co ctx (handle_declare_flow now opts co ctx)"
    using session_ops(6) [of "co_engine co" opts now]
    by (auto simp: good_answer_def handle_declare_flow_def nack_reply_def split: prod.splits)
  show "good_answer co ctx (handle_query_congestion now k co ctx)"
    using session_ops(15) [of "co_engine co" k now]
    by (auto simp: good_answer_def handle_query_congestion_def nack_reply_def Let_def split: prod.splits)
  show "good_answer co ctx (handle_query_bottleneck path co ctx)"
    by (simp add: handle_query_bottleneck_def Let_def good_quiet)
  show "good_answer co ctx (handle_query_residual r co ctx)"
    by (simp add: handle_query_residual_def Let_def good_quiet split: prod.split)
  show "good_answer co ctx (handle_save put file_path co ctx)"
    by (auto simp: good_answer_def handle_save_def ok_reply_def nack_reply_def session.refl split: prod.splits)
qed

lemma good_publishing: "good_answer co ctx (handle_publish p co ctx)"
proof -
  obtain k m where p: "p = (k, m)" by (cases p)
  have nack: "good_answer co ctx (Done (nack_reply, co, ctx))" by (simp add: good_quiet nack_reply_def)
  have "good_answer co ctx (acked r co ctx)"
    if "publish_measurement k m (ctx_wid ctx) (ctx_boot ctx) (co_engine co) = Some r" for r
    using good_acked [of now "PublishMeasurement k m (ctx_wid ctx) (ctx_boot ctx)" co r ctx] that by simp
  moreover have "good_answer co ctx Undefined" by (simp add: good_answer_def)
  ultimately show ?thesis
    using nack
    by (cases "publish_measurement k m (ctx_wid ctx) (ctx_boot ctx) (co_engine co)") (simp_all add: p handle_publish_def)
qed

lemma good_flow_ops:
  "good_answer co ctx (acked (admit_flow ref (co_engine co)) co ctx)"
  "good_answer co ctx (acked (queue_flow ref (co_engine co)) co ctx)"
  "good_answer co ctx (acked (start_flow ref b now (co_engine co)) co ctx)"
  "good_answer co ctx (acked (flow_progress ref b n now (co_engine co)) co ctx)"
  "good_answer co ctx (acked (flow_complete ref b now (co_engine co)) co ctx)"
  "good_answer co ctx (acked (flow_cancel ref b n now (co_engine co)) co ctx)"
  "good_answer co ctx (acked (apply_local_shaping k act (co_engine co)) co ctx)"
  "good_answer co ctx (acked (fence_worker w b (co_engine co)) co ctx)"
  "good_answer co ctx (acked (fence_source s sb (co_engine co)) co ctx)"
  "good_answer co ctx (acked (advance_flow_generation ref g (co_engine co)) co ctx)"
  "good_answer co ctx (acked (revalidate_flow ref b (co_engine co)) co ctx)"
  using good_acked [of now "AdmitFlow ref" co] good_acked [of now "QueueFlow ref" co]
    good_acked [of now "StartFlow ref b" co] good_acked [of now "FlowProgress ref b n" co]
    good_acked [of now "FlowComplete ref b" co] good_acked [of now "FlowCancel ref b n" co]
    good_acked [of now "ApplyLocalShaping k act" co] good_acked [of now "FenceWorker w b" co]
    good_acked [of now "FenceSource s sb" co] good_acked [of now "AdvanceFlowGeneration ref g" co]
    good_acked [of now "RevalidateFlow ref b" co]
  by simp_all

lemma good_dispatch: "good_answer co ctx (dispatch put now f co ctx)"
proof -
  have stop: "good_answer co ctx (Done (ok_reply, co\<lparr>co_stop := True\<rparr>, ctx))"
    by (simp add: good_answer_def ok_reply_def nack_reply_def session.refl)
  have quiet: "good_answer co ctx (Done (ok_reply, co, ctx))" "good_answer co ctx (Done (nack_reply, co, ctx))"
    by (simp_all add: good_quiet ok_reply_def nack_reply_def)
  show ?thesis
    unfolding dispatch_def Let_def
    by (cases "frame_type f")
      (simp_all add: good_reading stop quiet good_handlers good_publishing good_flow_ops split_beta)
qed

lemma handle_good:
  assumes "handle put now f co ctx = Some (out, co1, ctx1)"
  shows "length out = 1" "session (co_engine co) (co_engine co1)" "co_stop co \<Longrightarrow> co_stop co1"
    "engine_inv (co_engine co) \<Longrightarrow> out = nack_reply \<Longrightarrow> co1 = co\<lparr>co_disk := co_disk co1\<rparr> \<and> ctx1 = ctx"
  using assms good_dispatch [of co ctx put now f]
  by (auto simp: handle_def good_answer_def session.refl nack_reply_def split: outcome.splits)

lemma never_undefined:
  "acked res co ctx \<noteq> Undefined" "handle_register p co \<noteq> Undefined" "handle_create_domain q co ctx \<noteq> Undefined"
  "handle_declare_flow now opts co ctx \<noteq> Undefined" "handle_query_congestion now k co ctx \<noteq> Undefined"
  "handle_query_bottleneck path co ctx \<noteq> Undefined" "handle_query_residual r co ctx \<noteq> Undefined"
  "handle_save put file_path co ctx \<noteq> Undefined"
  by (simp_all add: acked_def handle_register_def handle_create_domain_def handle_declare_flow_def
      handle_query_congestion_def handle_query_bottleneck_def handle_query_residual_def handle_save_def Let_def
      split: prod.split)

lemma reading_undefined: "reading r k = Undefined \<longleftrightarrow> (\<exists>a rest. r = Some (a, rest) \<and> k a = Undefined)"
  by (auto simp: reading_def split: option.split)

lemma dispatch_undefined:
  assumes "dispatch put now f co ctx = Undefined"
  shows "frame_type f = MT_PUBLISH_MEASUREMENT \<and>
    (\<exists>p rest. read_publish (frame_body f) = Some (p, rest) \<and> handle_publish p co ctx = Undefined)"
  using assms unfolding dispatch_def Let_def
  by (cases "frame_type f") (simp_all add: reading_undefined never_undefined split_beta)

lemma publish_undefined:
  assumes "publish_measurement k m w b e = None" "engine_inv e"
  shows "\<not> MeasurementKind_named (m_kind m)"
proof
  assume named: "MeasurementKind_named (m_kind m)"
  obtain d where d: "um_find (cf_domains e) k = Some d" "measurements_put m (d_measurements (clear_revalidation d)) = None"
    using assms(1) by (auto simp: publish_measurement_def Let_def split: option.splits if_splits)
  then have "length (d_measurements d) = 20" using assms(2) by (auto simp: engine_inv_def domain_ok_def)
  then have "length (d_measurements (clear_revalidation d)) = 20" by (simp add: clear_revalidation_def)
  from measurements_put_named [OF this named] d(2) show False by simp
qed

text \<open>C6: every frame is answered by exactly one frame and acts on the engine only through its
  methods, so that whatever holds of all runs of the engine holds of the coordinator; the handler is
  defined on every frame except a measurement whose kind byte is not an enumerator.\<close>

theorem handle_refines_engine:
  assumes "engine_inv (co_engine co)"
  shows "(\<forall>out co1 ctx1. handle put now f co ctx = Some (out, co1, ctx1) \<longrightarrow>
      length out = 1 \<and> session (co_engine co) (co_engine co1)) \<and>
   (handle put now f co ctx = None \<longrightarrow> frame_type f = MT_PUBLISH_MEASUREMENT \<and>
      (\<exists>d m rest. read_publish (frame_body f) = Some ((d, m), rest) \<and> \<not> MeasurementKind_named (m_kind m)))"
proof (intro conjI allI impI)
  fix out co1 ctx1 assume "handle put now f co ctx = Some (out, co1, ctx1)"
  then show "length out = 1" "session (co_engine co) (co_engine co1)" by (rule handle_good)+
next
  assume "handle put now f co ctx = None"
  then have u: "dispatch put now f co ctx = Undefined" by (simp add: handle_def split: outcome.splits)
  show "frame_type f = MT_PUBLISH_MEASUREMENT" using dispatch_undefined [OF u] by blast
  obtain d m rest where r: "read_publish (frame_body f) = Some ((d, m), rest)" "handle_publish (d, m) co ctx = Undefined"
    using dispatch_undefined [OF u] by auto
  then have "publish_measurement d m (ctx_wid ctx) (ctx_boot ctx) (co_engine co) = None"
    by (auto simp: handle_publish_def never_undefined split: if_splits option.splits)
  then show "\<exists>d m rest. read_publish (frame_body f) = Some ((d, m), rest) \<and> \<not> MeasurementKind_named (m_kind m)"
    using r(1) publish_undefined assms by blast
qed

lemma disk_unchanged:
  "acked res co ctx = Done (out, co1, ctx1) \<Longrightarrow> co_disk co1 = co_disk co" "handle_register p co = Done (out, co1, ctx1) \<Longrightarrow> co_disk co1 = co_disk co"
  "handle_create_domain q co ctx = Done (out, co1, ctx1) \<Longrightarrow> co_disk co1 = co_disk co"
  "handle_declare_flow now opts co ctx = Done (out, co1, ctx1) \<Longrightarrow> co_disk co1 = co_disk co"
  "handle_query_congestion now k co ctx = Done (out, co1, ctx1) \<Longrightarrow> co_disk co1 = co_disk co"
  "handle_query_bottleneck path co ctx = Done (out, co1, ctx1) \<Longrightarrow> co_disk co1 = co_disk co"
  "handle_query_residual r co ctx = Done (out, co1, ctx1) \<Longrightarrow> co_disk co1 = co_disk co"
  "handle_publish pub co ctx = Done (out, co1, ctx1) \<Longrightarrow> co_disk co1 = co_disk co"
  by (auto simp: acked_def handle_register_def handle_create_domain_def handle_declare_flow_def handle_query_congestion_def
      handle_query_bottleneck_def handle_query_residual_def handle_publish_def Let_def split: prod.splits if_splits option.splits)

lemma reading_Done: "reading r k = Done x \<longleftrightarrow> (\<exists>a rest. r = Some (a, rest) \<and> k a = Done x)"
  by (auto simp: reading_def split: option.split)

lemma disk_by_save:
  assumes "handle put now f co ctx = Some (out, co1, ctx1)"
  shows "co_disk co1 = co_disk co \<or> frame_type f = MT_SAVE \<and>
    (\<exists>path rest. rd_str (frame_body f) = Some (path, rest) \<and> co_disk co1 = snd (put path (save_file (co_engine co)) (co_disk co)))"
proof (cases "dispatch put now f co ctx")
  case (Done r)
  then have "dispatch put now f co ctx = Done (out, co1, ctx1)" using assms by (simp add: handle_def)
  then show ?thesis
    unfolding dispatch_def Let_def
    by (cases "frame_type f") (auto simp: reading_Done handle_save_def split_beta dest: disk_unchanged)
qed (use assms in \<open>simp_all add: handle_def\<close>)

text \<open>C12: a NACK means that nothing happened: the engine, the stop flag and the session's identity are what they
  were before the frame, and so are the files, except that a refused \<^verbatim>\<open>SAVE\<close> may leave behind what its failed
  write did to the file it names.\<close>

theorem nack_is_noop:
  assumes "engine_inv (co_engine co)" "handle put now f co ctx = Some (nack_reply, co1, ctx1)"
  shows "ctx1 = ctx \<and> (co1 = co \<or> frame_type f = MT_SAVE \<and> (\<exists>path rest. rd_str (frame_body f) = Some (path, rest) \<and>
    co1 = co\<lparr>co_disk := snd (put path (save_file (co_engine co)) (co_disk co))\<rparr>))"
  using handle_good(4) [OF assms(2) assms(1)] disk_by_save [OF assms(2)] by auto

section \<open>The process\<close>

lemma end_session_run: "session (co_engine co) (co_engine (end_session ctx co))"
  by (simp add: end_session_def session_ops session.refl)

lemmas system_defs = goto_def reg_sock_def unreg_sock_def close_other_socks_def leave_accept_loop_def

lemma goto_simps [simp]:
  "sy_co (goto n ph ctx sy) = sy_co sy" "sy_main (goto n ph ctx sy) = sy_main sy"
  "sy_listening (goto n ph ctx sy) = sy_listening sy" "sy_socks (goto n ph ctx sy) = sy_socks sy"
  "sy_closed (goto n ph ctx sy) = sy_closed sy"
  "sy_sessions (goto n ph ctx sy) = um_assign (sy_sessions sy) n (ph, ctx)"
  by (simp_all add: goto_def)

lemma stop_coordinator_engine [simp]: "co_engine (stop_coordinator put state co) = co_engine co"
    "co_stop (stop_coordinator put state co) = co_stop co"
  by (simp_all add: stop_coordinator_def)

lemma system_step_run: "system_step put state sy sy1 \<Longrightarrow> session (co_engine (sy_co sy)) (co_engine (sy_co sy1))"
  by (induction rule: system_step.induct)
    (auto simp: system_defs intro: handle_good session.refl end_session_run)

lemma system_run: "(system_step put state)\<^sup>*\<^sup>* sy sy1 \<Longrightarrow> session (co_engine (sy_co sy)) (co_engine (sy_co sy1))"
  by (induction rule: rtranclp_induct) (auto intro: session.refl session_trans system_step_run)

lemma start_reachable: "reachable default_limits (co_engine (sy_co (start_coordinator start disk)))"
  using reachable.step [OF reachable.init, of 0 "Load start"]
  by (cases "load start (new_fabric default_limits)") (simp add: start_coordinator_def)

text \<open>C11: whatever the bytes of its state file, whatever frames clients send and however their
  sessions interleave, the engine of the coordinator process is in a reachable state that satisfies
  the invariant.\<close>

theorem coordinator_invariant:
  assumes "(system_step put state)\<^sup>*\<^sup>* (start_coordinator start disk) sy"
  shows "reachable default_limits (co_engine (sy_co sy)) \<and> engine_inv (co_engine (sy_co sy))"
  using session_reachable [OF system_run [OF assms] start_reachable] reachable_inv by blast

text \<open>C4: when the connection of a registered worker ends, its incarnation loses its authority for
  good: in every later state of the process its unfinished flows are parked with frozen byte
  counters, and its boot can neither register, declare flows nor publish evidence. (The boot is below
  \<open>2 ^ 64 - 1\<close>, which the fence cannot move past.)\<close>

theorem disconnect_revokes:
  assumes "engine_inv (co_engine (sy_co sy))" "um_find (sy_sessions sy) n = Some (Leaving, \<lparr>ctx_wid = w, ctx_boot = b\<rparr>)"
    and "um_find (cf_worker_boot (co_engine (sy_co sy))) w = Some b" "id_valid w" "genv b \<noteq> - 1"
    and "sy1 = goto n Ending \<lparr>ctx_wid = w, ctx_boot = b\<rparr> (sy\<lparr>sy_co := end_session \<lparr>ctx_wid = w, ctx_boot = b\<rparr> (sy_co sy)\<rparr>)"
    and "(system_step put state)\<^sup>*\<^sup>* sy1 sy2"
  shows "system_step put state sy sy1 \<and>
    (\<forall>k f. flow_of (co_engine (sy_co sy)) k = Some f \<and> fl_owner_worker f = w \<and> fl_owner_boot f = b \<and> \<not> flow_terminal f \<longrightarrow>
      (\<exists>g. flow_of (co_engine (sy_co sy2)) k = Some g \<and> parked (fl_state g) \<and> flow_counters g = flow_counters f)) \<and>
    register_worker w b (co_engine (sy_co sy2)) = (False, co_engine (sy_co sy2)) \<and>
    (\<forall>opts now. o_owner_worker opts = w \<and> o_owner_boot opts = b \<longrightarrow>
       declare_flow opts now (co_engine (sy_co sy2)) = (invalid_ref, co_engine (sy_co sy2))) \<and>
    (\<forall>k m. publish_measurement k m w b (co_engine (sy_co sy2)) = Some (False, co_engine (sy_co sy2)))"
proof -
  let ?e = "co_engine (sy_co sy)"
  obtain e1 where e1: "fence_worker w b ?e = (True, e1)"
    using assms(3,4) by (simp add: fence_worker_def)
  have "session e1 (co_engine (sy_co sy2))"
    using system_run [OF assms(7)] assms(4,6) e1 by (simp add: end_session_def)
  from fenced_incarnation [OF assms(1) e1 assms(5) this] show ?thesis
    using system_step.leave [OF assms(2), of put state] assms(6) by simp
qed

section \<open>Sessions\<close>

text \<open>One pass of the loop on a frame: from the head of the loop back to it.\<close>

lemma loop_pass:
  assumes "um_find (sy_sessions sy) n = Some (Looping, ctx)" "\<not> co_stop (sy_co sy)" "n \<notin> set (sy_closed sy)"
    and "handle put now f (sy_co sy) ctx = Some (out, co1, ctx1)"
  shows "\<exists>sy1. (system_step put state)\<^sup>*\<^sup>* sy sy1 \<and> sy_co sy1 = co1 \<and> n \<notin> set (sy_closed sy1) \<and>
    sy_sessions sy1 = um_assign (sy_sessions sy) n (Looping, ctx1)"
proof -
  let ?r = "goto n Receiving ctx sy" let ?m = "goto n (Received f) ctx ?r"
  have "system_step put state sy ?r" using system_step.loop_check [OF assms(1)] assms(2) by simp
  moreover have "system_step put state ?r ?m" by (rule system_step.receive) (use assms(3) in simp_all)
  ultimately have m: "(system_step put state)\<^sup>*\<^sup>* sy ?m" by simp
  let ?l = "goto n (if frame_type f = MT_SHUTDOWN then ClosingListener else Looping) ctx1 (?m\<lparr>sy_co := co1\<rparr>)"
  have l: "system_step put state ?m ?l" by (rule system_step.message) (use assms(4) in simp_all)
  show ?thesis
  proof (cases "frame_type f = MT_SHUTDOWN")
    case True
    let ?o = "goto n ClosingOthers ctx1 (?l\<lparr>sy_listening := False\<rparr>)"
    have "system_step put state ?l ?o" by (rule system_step.close_listener) (simp add: True)
    moreover have "system_step put state ?o (goto n Looping ctx1 (close_other_socks n ?o))"
      by (rule system_step.close_others) simp
    ultimately have "(system_step put state)\<^sup>*\<^sup>* sy (goto n Looping ctx1 (close_other_socks n ?o))"
      using m l by (meson rtranclp.rtrancl_into_rtrancl)
    then show ?thesis
      using assms(3) by (intro exI [of _ "goto n Looping ctx1 (close_other_socks n ?o)"])
        (simp add: close_other_socks_def um_assign_twice)
  next
    case False
    with m l assms(3) show ?thesis
      by (intro exI [of _ ?l]) (auto simp: um_assign_twice intro: rtranclp.rtrancl_into_rtrancl)
  qed
qed

lemma serve_run:
  assumes "serve put now bs co ctx = Some (out, co1, ctx1)" "sy_co sy = co"
    and "um_find (sy_sessions sy) n = Some (Looping, ctx)" "n \<notin> set (sy_closed sy)"
  shows "\<exists>sy1. (system_step put state)\<^sup>*\<^sup>* sy sy1 \<and> sy_co sy1 = co1 \<and>
    sy_sessions sy1 = um_assign (sy_sessions sy) n (Leaving, ctx1)"
  using assms
proof (induction put now bs co ctx arbitrary: out sy rule: serve.induct)
  case (1 put now bs co ctx)
  show ?case
  proof (cases "co_stop co \<or> coordinator_recv_frame rd_raw bs = None")
    case True
    then have co1: "co1 = co" "ctx1 = ctx" using "1.prems"(1) by (auto simp: serve.simps [of put now bs] split: if_splits)
    show ?thesis
    proof (cases "co_stop co")
      case True
      then have "system_step put state sy (goto n Leaving ctx sy)"
        using system_step.loop_check [OF "1.prems"(3)] "1.prems"(2) by simp
      then show ?thesis using co1 "1.prems"(2) by (intro exI [of _ "goto n Leaving ctx sy"]) simp
    next
      case False
      let ?r = "goto n Receiving ctx sy"
      have "system_step put state sy ?r"
        using system_step.loop_check [OF "1.prems"(3)] "1.prems"(2) False by simp
      moreover have "system_step put state ?r (goto n Leaving ctx ?r)" by (rule system_step.disconnect) simp
      ultimately have "(system_step put state)\<^sup>*\<^sup>* sy (goto n Leaving ctx ?r)" by simp
      then show ?thesis using co1 "1.prems"(2) by (intro exI [of _ "goto n Leaving ctx ?r"]) (simp add: um_assign_twice)
    qed
  next
    case False
    then obtain f rest out1 co2 ctx2 outs where h: "coordinator_recv_frame rd_raw bs = Some (f, rest)"
        "handle put (now (length bs)) f co ctx = Some (out1, co2, ctx2)" "serve put now rest co2 ctx2 = Some (outs, co1, ctx1)"
      using "1.prems"(1) by (auto simp: serve.simps [of put now bs] split: option.splits prod.splits)
    obtain sy1 where sy1: "(system_step put state)\<^sup>*\<^sup>* sy sy1" "sy_co sy1 = co2" "n \<notin> set (sy_closed sy1)"
        "sy_sessions sy1 = um_assign (sy_sessions sy) n (Looping, ctx2)"
      using loop_pass [OF "1.prems"(3) _ "1.prems"(4)] h(2) "1.prems"(2) False by blast
    moreover obtain sy2 where "(system_step put state)\<^sup>*\<^sup>* sy1 sy2" "sy_co sy2 = co1"
        "sy_sessions sy2 = um_assign (sy_sessions sy1) n (Leaving, ctx1)"
      using "1.IH" [OF _ h(1) HOL.refl h(2) HOL.refl HOL.refl h(3) sy1(2) _ sy1(3)] sy1(4) False by auto
    ultimately show ?thesis by (metis rtranclp_trans um_assign_twice)
  qed
qed

text \<open>The session loop refines the interleaving model: serving one client from connect to
  disconnect is a run of the process, next to any other sessions.\<close>

theorem session_refines_system:
  assumes "coordinator_session put now bs (sy_co sy) = Some (out, co1)" "sy_main sy = Accepting" "sy_listening sy"
    and "um_find (sy_sessions sy) n = None"
  shows "\<exists>sy1. (system_step put state)\<^sup>*\<^sup>* sy sy1 \<and> sy_co sy1 = co1 \<and> sy_sessions sy1 = sy_sessions sy"
proof -
  obtain co2 ctx where s: "serve put now bs (sy_co sy) no_context = Some (out, co2, ctx)" "co1 = end_session ctx co2"
    using assms(1) by (auto simp: coordinator_session_def split: option.splits)
  let ?a = "goto n Starting no_context (sy\<lparr>sy_main := MainLoop, sy_closed := removeAll n (sy_closed sy)\<rparr>)"
  let ?b = "goto n Looping no_context (reg_sock n ?a)"
  have "system_step put state sy ?a" by (rule system_step.accept [OF assms(2-4)])
  moreover have "system_step put state ?a ?b" by (rule system_step.begin_session) simp
  moreover obtain sy2 where sy2: "(system_step put state)\<^sup>*\<^sup>* ?b sy2" "sy_co sy2 = co2"
      "sy_sessions sy2 = um_assign (sy_sessions sy) n (Leaving, ctx)"
    using serve_run [OF s(1), of ?b n state] by (auto simp: reg_sock_def um_assign_twice)
  moreover have "system_step put state sy2 (goto n Ending ctx (sy2\<lparr>sy_co := co1\<rparr>))" (is "system_step put state sy2 ?c")
    using system_step.leave [of sy2 n ctx put state] sy2(2,3) s(2) by simp
  moreover have "system_step put state ?c ((unreg_sock n ?c)\<lparr>sy_sessions := um_erase (sy_sessions ?c) n\<rparr>)" (is "system_step put state ?c ?d")
    by (rule system_step.finish) simp
  ultimately have "(system_step put state)\<^sup>*\<^sup>* sy ?d"
    by (meson converse_rtranclp_into_rtranclp rtranclp.rtrancl_into_rtrancl)
  then show ?thesis
    using sy2(3) assms(4) by (intro exI [of _ ?d]) (simp add: unreg_sock_def um_assign_twice um_erase_assign)
qed

text \<open>A frame on which the handler is defined and that does not ask for shutdown.\<close>

definition plain_frame :: "Frame \<Rightarrow> bool" where
  "plain_frame f \<longleftrightarrow> frame_ok f \<and> frame_type f \<noteq> MT_SHUTDOWN \<and> (frame_type f = MT_PUBLISH_MEASUREMENT \<longrightarrow>
     (\<forall>d m rest. read_publish (frame_body f) = Some ((d, m), rest) \<longrightarrow> MeasurementKind_named (m_kind m)))"

lemma stop_reading: "(\<And>a out co1 ctx1. k a = Done (out, co1, ctx1) \<Longrightarrow> co_stop co1 = co_stop co) \<Longrightarrow>
    reading r k = Done (out, co1, ctx1) \<Longrightarrow> co_stop co1 = co_stop co"
  by (auto simp: reading_def split: option.splits)

lemma stop_handlers:
  "acked res co ctx = Done (out, co1, ctx1) \<Longrightarrow> co_stop co1 = co_stop co"
  "handle_register p co = Done (out, co1, ctx1) \<Longrightarrow> co_stop co1 = co_stop co"
  "handle_create_domain q co ctx = Done (out, co1, ctx1) \<Longrightarrow> co_stop co1 = co_stop co"
  "handle_declare_flow now opts co ctx = Done (out, co1, ctx1) \<Longrightarrow> co_stop co1 = co_stop co"
  "handle_publish pm co ctx = Done (out, co1, ctx1) \<Longrightarrow> co_stop co1 = co_stop co"
  "handle_query_congestion now k co ctx = Done (out, co1, ctx1) \<Longrightarrow> co_stop co1 = co_stop co"
  "handle_query_bottleneck path co ctx = Done (out, co1, ctx1) \<Longrightarrow> co_stop co1 = co_stop co"
  "handle_query_residual r co ctx = Done (out, co1, ctx1) \<Longrightarrow> co_stop co1 = co_stop co"
  "handle_save put file_path co ctx = Done (out, co1, ctx1) \<Longrightarrow> co_stop co1 = co_stop co"
  by (auto simp: acked_def handle_register_def handle_create_domain_def handle_declare_flow_def handle_publish_def
      handle_query_congestion_def handle_query_bottleneck_def handle_query_residual_def handle_save_def Let_def
      split: prod.splits option.splits if_splits)

lemma dispatch_stop:
  assumes "frame_type f \<noteq> MT_SHUTDOWN" "dispatch put now f co ctx = Done (out, co1, ctx1)"
  shows "co_stop co1 = co_stop co"
  using assms unfolding dispatch_def Let_def
  by (cases "frame_type f") (auto dest!: stop_reading [rotated] stop_handlers simp: split_beta)

lemma handle_plain:
  assumes "plain_frame f" "engine_inv (co_engine co)" "\<not> co_stop co"
  obtains out co1 ctx1 where "handle put now f co ctx = Some (out, co1, ctx1)" "length out = 1"
    "engine_inv (co_engine co1)" "\<not> co_stop co1"
proof (cases "handle put now f co ctx")
  case None
  then have "dispatch put now f co ctx = Undefined" by (simp add: handle_def split: outcome.splits)
  from dispatch_undefined [OF this] obtain d m rest where
    "frame_type f = MT_PUBLISH_MEASUREMENT" "read_publish (frame_body f) = Some ((d, m), rest)"
    "handle_publish (d, m) co ctx = Undefined" by auto
  moreover from this have "publish_measurement d m (ctx_wid ctx) (ctx_boot ctx) (co_engine co) = None"
    by (auto simp: handle_publish_def never_undefined split: if_splits option.splits)
  ultimately show ?thesis using publish_undefined [OF _ assms(2)] assms(1) by (auto simp: plain_frame_def)
next
  case (Some r)
  obtain out co1 ctx1 where r: "r = (out, co1, ctx1)" by (cases r) auto
  note good = handle_good [OF Some [unfolded r]]
  have "\<not> co_stop co1"
    using Some r assms(1,3) dispatch_stop [of f put now co ctx out co1 ctx1]
    by (auto simp: handle_def plain_frame_def split: outcome.splits)
  moreover have "engine_inv (co_engine co1)"
    using session_good [OF good(2)] assms(2) by (simp add: good_step_def)
  ultimately show ?thesis using that [of out co1 ctx1] Some r good(1) by simp
qed

text \<open>An exchange of requests and replies: each frame is handled in the state the one before it left.\<close>

inductive dialogue :: "(string \<Rightarrow> u8 list \<Rightarrow> 'd \<Rightarrow> bool \<times> 'd) \<Rightarrow> 'd Coordinator \<Rightarrow> Context \<Rightarrow> (Frame \<times> Frame) list
    \<Rightarrow> 'd Coordinator \<Rightarrow> Context \<Rightarrow> bool" for put where
  silence: "dialogue put co ctx [] co ctx"
| exchange: "handle put now f co ctx = Some ([r], co1, ctx1) \<Longrightarrow> dialogue put co1 ctx1 ps co2 ctx2 \<Longrightarrow>
     dialogue put co ctx ((f, r) # ps) co2 ctx2"

lemma serve_tail:
  assumes "\<not> co_stop co" "frame_ok \<lparr>frame_type = MT_SHUTDOWN, frame_body = b\<rparr>"
  shows "serve put now (encode_frame \<lparr>frame_type = MT_SHUTDOWN, frame_body = b\<rparr> @ rest) co ctx = Some (ok_reply, co\<lparr>co_stop := True\<rparr>, ctx)"
    "coordinator_recv_frame rd_raw (encode_frame \<lparr>frame_type = MT_SHUTDOWN, frame_body = b\<rparr> @ rest) \<noteq> None"
proof -
  let ?f = "\<lparr>frame_type = MT_SHUTDOWN, frame_body = b\<rparr>"
  have r: "coordinator_recv_frame rd_raw (encode_frame ?f @ rest) = Some (?f, rest)"
    using recv_frame_encoded [OF assms(2)] by (simp add: coordinator_recv_frame_def)
  then show "serve put now (encode_frame ?f @ rest) co ctx = Some (ok_reply, co\<lparr>co_stop := True\<rparr>, ctx)"
    using assms(1) by (simp add: serve.simps [of put now "encode_frame ?f @ rest"] serve.simps [of put now rest] handle_def dispatch_def)
  show "coordinator_recv_frame rd_raw (encode_frame ?f @ rest) \<noteq> None" using r by simp
qed

lemma serve_dialogue:
  assumes "list_all plain_frame fs" "engine_inv (co_engine co)" "\<not> co_stop co"
  shows "\<exists>ps co1 ctx1. dialogue put co ctx ps co1 ctx1 \<and> map fst ps = fs \<and> \<not> co_stop co1 \<and>
    serve put now (concat (map encode_frame fs) @ rest) co ctx =
      (case serve put now rest co1 ctx1 of None \<Rightarrow> None | Some (out, co2, ctx2) \<Rightarrow> Some (map snd ps @ out, co2, ctx2))"
  using assms
proof (induction fs arbitrary: co ctx)
  case Nil
  then show ?case
    by (intro exI [of _ "[]"] exI [of _ co] exI [of _ ctx]) (simp add: dialogue.silence split: option.split)
next
  case (Cons f fs)
  let ?bs = "encode_frame f @ concat (map encode_frame fs) @ rest"
  obtain out co1 ctx1 where h: "handle put (now (length ?bs)) f co ctx = Some (out, co1, ctx1)" "length out = 1"
      "engine_inv (co_engine co1)" "\<not> co_stop co1"
    using handle_plain [of f co] Cons.prems by (metis list.pred_inject(2))
  then obtain r where r: "out = [r]" by (auto simp: length_Suc_conv)
  obtain ps co2 ctx2 where ps: "dialogue put co1 ctx1 ps co2 ctx2" "map fst ps = fs" "\<not> co_stop co2"
    "serve put now (concat (map encode_frame fs) @ rest) co1 ctx1 =
      (case serve put now rest co2 ctx2 of None \<Rightarrow> None | Some (out, co3, ctx3) \<Rightarrow> Some (map snd ps @ out, co3, ctx3))"
    using Cons.IH [OF _ h(3,4), of ctx1] Cons.prems(1) by auto
  have "coordinator_recv_frame rd_raw ?bs = Some (f, concat (map encode_frame fs) @ rest)"
    using recv_frame_encoded Cons.prems(1) by (simp add: coordinator_recv_frame_def plain_frame_def)
  then have "serve put now ?bs co ctx = (case serve put now rest co2 ctx2 of None \<Rightarrow> None
      | Some (out, co3, ctx3) \<Rightarrow> Some (map snd ((f, r) # ps) @ out, co3, ctx3))"
    using h(1) r ps(4) Cons.prems(3) by (simp add: serve.simps [of put now ?bs] split: option.split)
  moreover have "dialogue put co ctx ((f, r) # ps) co2 ctx2" using dialogue.exchange h(1) r ps(1) by blast
  ultimately show ?case using ps(2,3) by (intro exI [of _ "(f, r) # ps"] exI [of _ co2] exI [of _ ctx2]) simp
qed

lemma dialogue_run: "dialogue put co ctx ps co1 ctx1 \<Longrightarrow> session (co_engine co) (co_engine co1)"
  by (induction rule: dialogue.induct) (auto intro: session.refl session_trans handle_good)

text \<open>C24: a connection that delivers a sequence of well-formed frames (of known types other than shutdown, measurements of a
  known kind), pipelined without waiting for the answers, is served
  frame by frame: each frame is handled exactly once, in order, in the state its predecessor left, and answered by one frame, in
  the same order. When what follows is not a frame (nothing, a truncated or corrupt frame), the session ends and
  fences the worker that registered in it; when it is a shutdown request, that one is confirmed too, the stop flag is set, and
  nothing after it is handled.\<close>

theorem session_answers_frames:
  assumes "list_all plain_frame fs" "engine_inv (co_engine co)" "\<not> co_stop co"
    and "\<not> stopped \<and> coordinator_recv_frame rd_raw rest = None \<or>
      stopped \<and> (\<exists>b junk. rest = encode_frame \<lparr>frame_type = MT_SHUTDOWN, frame_body = b\<rparr> @ junk \<and> length b \<le> 2 ^ 20)"
  shows "\<exists>ps co1 ctx1. dialogue put co no_context ps co1 ctx1 \<and> map fst ps = fs \<and> session (co_engine co) (co_engine co1) \<and>
    coordinator_session put now (concat (map encode_frame fs) @ rest) co =
      Some (map snd ps @ (if stopped then ok_reply else []), end_session ctx1 (co1\<lparr>co_stop := stopped\<rparr>))"
proof -
  obtain ps co1 ctx1 where ps: "dialogue put co no_context ps co1 ctx1" "map fst ps = fs" "\<not> co_stop co1"
    "serve put now (concat (map encode_frame fs) @ rest) co no_context =
      (case serve put now rest co1 ctx1 of None \<Rightarrow> None | Some (out, co2, ctx2) \<Rightarrow> Some (map snd ps @ out, co2, ctx2))"
    using serve_dialogue [OF assms(1-3)] by blast
  have "serve put now rest co1 ctx1 = Some (if stopped then ok_reply else [], co1\<lparr>co_stop := stopped\<rparr>, ctx1)"
    using assms(4)
  proof (elim disjE conjE exE)
    assume "\<not> stopped" "coordinator_recv_frame rd_raw rest = None"
    then show ?thesis using ps(3) by (simp add: serve.simps [of put now rest])
  next
    fix b junk assume "stopped" "rest = encode_frame \<lparr>frame_type = MT_SHUTDOWN, frame_body = b\<rparr> @ junk" "length b \<le> 2 ^ 20"
    then show ?thesis using serve_tail(1) [OF ps(3), of b] by (simp add: frame_ok_def MessageType_named_def MessageType_enum_def)
  qed
  then have "coordinator_session put now (concat (map encode_frame fs) @ rest) co =
      Some (map snd ps @ (if stopped then ok_reply else []), end_session ctx1 (co1\<lparr>co_stop := stopped\<rparr>))"
    using ps(4) by (simp add: coordinator_session_def)
  then show ?thesis using ps(1,2) dialogue_run by blast
qed

section \<open>Registration and restart\<close>

text \<open>C28: a second connection that registers a live worker's own boot is refused, yet when it ends
  the live worker is fenced: the session keeps the identity of the refused registration.\<close>

theorem refused_registration_fences:
  assumes "um_find (cf_worker_boot (co_engine co)) w = Some b" "id_valid w" "gen_valid b"
    and "frame_type f = MT_REGISTER" "read_register (frame_body f) = Some ((w, b, s, sb), rest)"
  shows "\<exists>co1 ctx1. handle put now f co ctx = Some (reply MT_REGISTER_ACK [0], co1, ctx1) \<and>
    um_find (cf_worker_boot (co_engine co1)) w = Some b \<and>
    um_find (cf_worker_boot (co_engine (end_session ctx1 co1))) w = Some (gen_next b)"
proof -
  obtain c e2 where src: "register_source s sb (co_engine co) = (c, e2)" by fastforce
  then have boot: "cf_worker_boot e2 = cf_worker_boot (co_engine co)"
    by (auto simp: register_source_def split: if_splits option.splits)
  have "register_worker w b (co_engine co) = (False, co_engine co)"
    using assms(1) by (simp add: register_worker_def)
  then have "handle put now f co ctx = Some (reply MT_REGISTER_ACK [0], co\<lparr>co_engine := e2\<rparr>, \<lparr>ctx_wid = w, ctx_boot = b\<rparr>)"
    using assms(4,5) src by (simp add: handle_def dispatch_def reading_def handle_register_def wr_u8_def)
  moreover have "um_find (cf_worker_boot (co_engine (end_session \<lparr>ctx_wid = w, ctx_boot = b\<rparr> (co\<lparr>co_engine := e2\<rparr>)))) w = Some (gen_next b)"
    using assms(1,2) boot by (simp add: end_session_def fence_worker_def)
  ultimately show ?thesis using assms(1) boot by auto
qed

lemma restart_evolves:
  assumes "storable e" "(system_step put state)\<^sup>*\<^sup>* (start_coordinator (Some (save_file e)) disk) sy"
  shows "engine_evolves (commit_load (durable_of e) (new_fabric default_limits)) (co_engine (sy_co sy))"
proof -
  have "co_engine (sy_co (start_coordinator (Some (save_file e)) disk)) = commit_load (durable_of e) (new_fabric default_limits)"
    using parse_save [OF assms(1)] by (simp add: start_coordinator_def load_def)
  then show ?thesis
    using session_good [OF system_run [OF assms(2)]] reachable_inv [OF start_reachable [of "Some (save_file e)" disk]]
    by (simp add: good_step_def)
qed

lemma restart_boots:
  assumes "storable e" "(system_step put state)\<^sup>*\<^sup>* (start_coordinator (Some (save_file e)) disk) sy"
    and "um_find (cf_worker_boot e) w = Some b'" "b < b'" "id_valid w"
  shows "register_worker w b (co_engine (sy_co sy)) = (False, co_engine (sy_co sy))"
    "publish_measurement k m w b (co_engine (sy_co sy)) = Some (False, co_engine (sy_co sy))"
proof -
  have "um_find (cf_worker_boot (commit_load (durable_of e) (new_fabric default_limits))) w = Some b'"
    using assms(3) by (simp add: commit_load_def durable_of_def)
  then obtain b2 where b2: "um_find (cf_worker_boot (co_engine (sy_co sy))) w = Some b2" "b' \<le> b2"
    using evolves_lookup(2) [OF restart_evolves [OF assms(1,2)]] by blast
  then have "b < b2" using assms(4) by (rule_tac less_le_trans)
  from stale_boot_refused [OF b2(1) this] assms(5)
  show "register_worker w b (co_engine (sy_co sy)) = (False, co_engine (sy_co sy))"
    "publish_measurement k m w b (co_engine (sy_co sy)) = Some (False, co_engine (sy_co sy))" by simp_all
qed

lemma restart_flows:
  assumes "storable e" "(system_step put state)\<^sup>*\<^sup>* (start_coordinator (Some (save_file e)) disk) sy" "flow_of e i = Some f"
  shows "\<exists>g. flow_of (co_engine (sy_co sy)) i = Some g \<and> flow_counters g = flow_counters f \<and>
    (if flow_terminal f then fl_state g = fl_state f else parked (fl_state g))"
proof -
  have "flow_of (commit_load (durable_of e) (new_fabric default_limits)) i = Some (recover_flow f)"
    using assms(3) by (simp add: flow_of_def commit_load_def durable_of_def)
  then obtain g where "flow_of (co_engine (sy_co sy)) i = Some g" "flow_evolves (recover_flow f) g"
    using evolves_lookup(1) [OF restart_evolves [OF assms(1,2)]] by (auto simp: flow_of_def)
  moreover have "flow_counters (recover_flow f) = flow_counters f"
    "flow_terminal f \<Longrightarrow> recover_flow f = f" "\<not> flow_terminal f \<Longrightarrow> parked (fl_state (recover_flow f))"
    by (auto simp: recover_flow_def flow_counters_def parked_def flow_terminal_def flow_state_preds)
  ultimately show ?thesis by (auto simp: flow_evolves_def flow_terminal_def)
qed

text \<open>C7: authority survives a restart of the coordinator from the saved file of a \<open>storable\<close> state: a boot that was
  superseded before the restart stays without authority in every later state of the new process, and
  no flow from before the restart ever moves a byte again: closed flows keep their state, all others
  stay parked.\<close>

theorem restart_keeps_authority:
  assumes "storable e" "(system_step put state)\<^sup>*\<^sup>* (start_coordinator (Some (save_file e)) disk) sy"
    and "um_find (cf_worker_boot e) w = Some b'" "b < b'" "id_valid w"
  shows "register_worker w b (co_engine (sy_co sy)) = (False, co_engine (sy_co sy)) \<and>
    publish_measurement k m w b (co_engine (sy_co sy)) = Some (False, co_engine (sy_co sy)) \<and>
    (\<forall>i f. flow_of e i = Some f \<longrightarrow> (\<exists>g. flow_of (co_engine (sy_co sy)) i = Some g \<and> flow_counters g = flow_counters f \<and>
       (if flow_terminal f then fl_state g = fl_state f else parked (fl_state g))))"
  using restart_boots [OF assms] restart_flows [OF assms(1,2)] by blast

section \<open>Witnesses\<close>

definition sample_co :: "unit Coordinator" where
  "sample_co = \<lparr>co_engine = sample_active, co_stop = False, co_disk = ()\<rparr>"

definition idle_system :: "'d Coordinator \<Rightarrow> 'd System" where
  "idle_system co = \<lparr>sy_co = co, sy_main = Accepting, sy_listening = True, sy_sessions = [], sy_socks = [], sy_closed = []\<rparr>"

definition sample_put :: "string \<Rightarrow> u8 list \<Rightarrow> unit \<Rightarrow> bool \<times> unit" where
  "sample_put path bs disk = (True, disk)"

text \<open>Progress reported for the sample flow by a boot that does not own it, and a registration of
  the boot that is already live.\<close>

definition foreign_progress :: Frame where
  "foreign_progress = \<lparr>frame_type = MT_PROGRESS, frame_body = wr_u64 1 @ wr_u64 1 @ wr_u64 2 @ wr_u64 10\<rparr>"

definition second_register :: Frame where
  "second_register = \<lparr>frame_type = MT_REGISTER, frame_body = wr_u64 1 @ wr_u64 1 @ wr_u64 1 @ wr_u64 1\<rparr>"

lemma sample_co_inv: "engine_inv (co_engine sample_co)" "\<not> co_stop sample_co" "co_engine sample_co = sample_active"
  by (simp_all add: sample_co_def sample_inv)

lemma sample_co_boot: "um_find (cf_worker_boot (co_engine sample_co)) (Id 1) = Some (Generation 1)"
  by (simp add: sample_co_def sample_active_eval sample_declared_eval sample_engine_eval new_fabric_def um_find_def)

lemma handle_sample_frame: "handle put now sample_frame co ctx = Some (nack_reply, co, ctx)"
  by (simp add: handle_def dispatch_def sample_frame_def)

theorem handle_refines_engine_witness:
  "\<exists>out co1 ctx1. handle sample_put 7 sample_frame sample_co no_context = Some (out, co1, ctx1) \<and>
     length out = 1 \<and> session sample_active (co_engine co1)"
  using handle_refines_engine [OF sample_co_inv(1), of sample_put 7 sample_frame no_context]
  by (auto simp: handle_sample_frame sample_co_def)

theorem nack_is_noop_witness:
  "\<exists>co1 ctx1. handle sample_put 7 foreign_progress sample_co no_context = Some (nack_reply, co1, ctx1) \<and>
     co1 = sample_co \<and> ctx1 = no_context"
proof -
  have body: "read_ref_boot_count (wr_u64 1 @ wr_u64 1 @ wr_u64 2 @ wr_u64 10) = Some ((sample_ref, Generation 2, 10), [])"
    using c_u64.round [of 10 "[]"]
    by (simp add: read_ref_boot_count_def read_ref_boot_def rd_ref_def rd_id_def rd_gen_def prim_round)
  have "flow_progress sample_ref (Generation 2) 10 7 sample_active = (False, sample_active)"
    using on_flow_refused [OF sample_find]
    by (simp add: flow_progress_def progress_body_def flow_of_options_def sample_options_def)
  then have h: "handle sample_put 7 foreign_progress sample_co no_context = Some (nack_reply, sample_co, no_context)"
    by (simp add: handle_def dispatch_def foreign_progress_def reading_def body acked_def sample_co_def)
  have "frame_type foreign_progress \<noteq> MT_SAVE" by (simp add: foreign_progress_def)
  with nack_is_noop [OF sample_co_inv(1) h] h show ?thesis by blast
qed

theorem coordinator_invariant_witness:
  "\<exists>co1 ctx1. handle sample_put 7 second_register (sy_co (start_coordinator (Some [1, 2, 3]) ())) no_context =
       Some (reply MT_REGISTER_ACK [1], co1, ctx1) \<and> engine_inv (co_engine co1)"
proof -
  let ?s0 = "start_coordinator (Some [1, 2, 3]) ()"
  let ?s1 = "goto 0 Looping no_context (reg_sock 0 (goto 0 Starting no_context ?s0))"
  have "parse_file [1, 2, 3] = None" by (simp add: parse_file_def open_envelope_def rd_raw_def)
  then have s0: "co_engine (sy_co ?s0) = new_fabric default_limits" "\<not> co_stop (sy_co ?s0)" "sy_sessions ?s0 = []"
    by (simp_all add: start_coordinator_def load_def)
  obtain co1 ctx1 where h: "handle sample_put 7 second_register (sy_co ?s0) no_context = Some (reply MT_REGISTER_ACK [1], co1, ctx1)"
    using c_u64.round [of 1 "[]"] s0(1)
    by (simp add: handle_def dispatch_def second_register_def read_register_def rd_id_def rd_gen_def prim_round reading_def
        handle_register_def register_worker_def register_source_def id_valid_def gen_valid_def new_fabric_def wr_u8_def)
  have "(system_step sample_put [])\<^sup>*\<^sup>* ?s0 ?s1"
    using system_step.main_check [of ?s0 sample_put "[]"] system_step.accept [of "?s0\<lparr>sy_main := Accepting\<rparr>" 0 sample_put "[]"]
      system_step.begin_session [of "goto 0 Starting no_context ?s0" 0 no_context sample_put "[]"] s0
    by (auto simp: start_coordinator_def intro: converse_rtranclp_into_rtranclp)
  moreover obtain sy where "(system_step sample_put [])\<^sup>*\<^sup>* ?s1 sy" "sy_co sy = co1"
    using loop_pass [of ?s1 0 no_context sample_put 7 second_register _ co1 ctx1] h s0 by (auto simp: start_coordinator_def reg_sock_def)
  ultimately have "(system_step sample_put [])\<^sup>*\<^sup>* ?s0 sy" by simp
  from coordinator_invariant [OF this] h \<open>sy_co sy = co1\<close> show ?thesis by auto
qed

lemma sample_flow_owner:
  "fl_owner_worker sample_flow = Id 1" "fl_owner_boot sample_flow = Generation 1" "\<not> flow_terminal sample_flow"
  by (simp_all add: flow_of_options_def sample_options_def default_options_def flow_terminal_def flow_is_terminal_def)

theorem disconnect_revokes_witness:
  "\<exists>e2. register_worker (Id 1) (Generation 1) e2 = (False, e2) \<and>
     (\<exists>g. flow_of e2 (Id 1) = Some g \<and> parked (fl_state g) \<and> flow_counters g = flow_counters sample_flow)"
proof -
  let ?ctx = "\<lparr>ctx_wid = Id 1, ctx_boot = Generation 1\<rparr>"
  let ?sy = "(idle_system sample_co)\<lparr>sy_sessions := [(0, (Leaving, ?ctx))]\<rparr>"
  have "engine_inv (co_engine (sy_co ?sy))" "um_find (sy_sessions ?sy) 0 = Some (Leaving, ?ctx)"
    "um_find (cf_worker_boot (co_engine (sy_co ?sy))) (Id 1) = Some (Generation 1)" "id_valid (Id 1)" "genv (Generation 1) \<noteq> - 1"
    using sample_co_inv sample_co_boot by (simp_all add: um_find_def id_valid_def idle_system_def)
  note r = disconnect_revokes [where put = sample_put and state = "[]", OF this HOL.refl rtranclp.rtrancl_refl, THEN conjunct2]
  show ?thesis
    using r [THEN conjunct1, rule_format, of "Id 1" sample_flow] r [THEN conjunct2, THEN conjunct1]
      sample_flow_owner sample_flow_of by (auto simp: sample_co_inv(3) idle_system_def)
qed

theorem session_refines_system_witness:
  "\<exists>sy1. (system_step sample_put [])\<^sup>*\<^sup>* (idle_system sample_co) sy1 \<and> sy_co sy1 = sample_co \<and> sy_sessions sy1 = []"
proof -
  have "coordinator_recv_frame rd_raw (encode_frame sample_frame) = Some (sample_frame, [])"
    "coordinator_recv_frame rd_raw [] = None"
    using recv_frame_encoded [OF sample_frame_ok, of False "[]"]
    by (simp_all add: coordinator_recv_frame_def recv_frame_def rd_raw_def kHeaderBytes_def)
  then have "coordinator_session sample_put (\<lambda>_. 7) (encode_frame sample_frame) sample_co = Some (nack_reply, sample_co)"
    by (simp add: coordinator_session_def serve.simps [of _ _ "encode_frame sample_frame"] serve.simps [of _ _ "[]"]
        handle_sample_frame sample_co_inv end_session_def no_context_def id_valid_def)
  then show ?thesis
    using session_refines_system [of sample_put "\<lambda>_. 7" "encode_frame sample_frame" "idle_system sample_co" nack_reply sample_co 0 "[]"]
    by (simp add: idle_system_def)
qed

theorem session_answers_frames_witness:
  "\<exists>out co1. coordinator_session sample_put (\<lambda>_. 7) (concat (map encode_frame [sample_frame, sample_frame]) @
     encode_frame \<lparr>frame_type = MT_SHUTDOWN, frame_body = []\<rparr> @ encode_frame sample_frame) sample_co = Some (out @ ok_reply, co1) \<and> length out = 2"
proof -
  have "list_all plain_frame [sample_frame, sample_frame]" using sample_frame_ok by (simp add: plain_frame_def) (simp add: sample_frame_def)
  moreover have "\<exists>b junk. encode_frame \<lparr>frame_type = MT_SHUTDOWN, frame_body = []\<rparr> @ encode_frame sample_frame =
      encode_frame \<lparr>frame_type = MT_SHUTDOWN, frame_body = b\<rparr> @ junk \<and> length b \<le> 2 ^ 20"
    by (intro exI [of _ "[]"] exI [of _ "encode_frame sample_frame"]) simp
  ultimately obtain ps co1 ctx1 where ps: "map fst ps = [sample_frame, sample_frame]"
    "coordinator_session sample_put (\<lambda>_. 7) (concat (map encode_frame [sample_frame, sample_frame]) @
       encode_frame \<lparr>frame_type = MT_SHUTDOWN, frame_body = []\<rparr> @ encode_frame sample_frame) sample_co =
       Some (map snd ps @ (if True then ok_reply else []), end_session ctx1 (co1\<lparr>co_stop := True\<rparr>))"
    using session_answers_frames [of "[sample_frame, sample_frame]" sample_co True _ sample_put "\<lambda>_. 7"] sample_co_inv by metis
  moreover from ps(1) have "length (map snd ps) = 2" by auto
  ultimately show ?thesis by (metis if_True)
qed

theorem refused_registration_fences_witness:
  "\<exists>co1 ctx1. handle sample_put 7 second_register sample_co no_context = Some (reply MT_REGISTER_ACK [0], co1, ctx1) \<and>
     um_find (cf_worker_boot (co_engine (end_session ctx1 co1))) (Id 1) = Some (Generation 2)"
proof -
  have "read_register (frame_body second_register) = Some ((Id 1, Generation 1, Id 1, Generation 1), [])"
    using c_u64.round [of 1 "[]"]
    by (simp add: second_register_def read_register_def rd_id_def rd_gen_def prim_round)
  from refused_registration_fences [OF sample_co_boot _ _ _ this, of sample_put 7 no_context] show ?thesis
    by (auto simp: id_valid_def gen_valid_def second_register_def gen_next_def)
qed

text \<open>The sample worker after it registered a second boot.\<close>

definition rebooted :: CongestionFabric where
  "rebooted = sample_active\<lparr>cf_worker_boot := [(Id 1, Generation 2)]\<rparr>"

lemma rebooted_storable: "storable rebooted"
proof -
  have boots: "cf_worker_boot sample_active = [(Id 1, Generation 1)]" by (simp add: sample_state)
  have "length (save_file rebooted) = length (save_file sample_active)"
    by (simp add: rebooted_def save_file_def envelope_length [symmetric] save_payload_def wr_boots_def wr_id_def wr_gen_def wr_lengths boots)
  then show ?thesis
    using sample_active_storable by (simp add: storable_def) (simp add: rebooted_def boots um_wf_def gen_valid_def)
qed

theorem restart_keeps_authority_witness:
  "\<exists>e2. register_worker (Id 1) (Generation 1) e2 = (False, e2) \<and>
     (\<exists>g. flow_of e2 (Id 1) = Some g \<and> flow_counters g = flow_counters sample_flow \<and> parked (fl_state g))"
proof -
  have b: "um_find (cf_worker_boot rebooted) (Id 1) = Some (Generation 2)" "flow_of rebooted (Id 1) = Some sample_flow"
    using sample_flow_of by (simp_all add: rebooted_def um_find_def flow_of_def)
  have "Generation 1 < (Generation 2 :: WorkerBootId)" "id_valid (Id 1 :: WorkerId)"
    by (simp_all add: less_Generation_def id_valid_def)
  note r = restart_keeps_authority [where put = sample_put and state = "[]" and disk = "()",
      OF rebooted_storable rtranclp.rtrancl_refl b(1) this]
  show ?thesis
    using r [THEN conjunct1] r [THEN conjunct2, THEN conjunct2, rule_format, OF b(2)] sample_flow_owner(3)
    by auto
qed

end
