(* ===== verification/Opening.thy ===== *)
theory Opening
  imports Sample
begin

text \<open>
  The steps every client of the engine makes to put a flow on a domain: declare, admit and start it, then publish
  rates. The conditions under which they succeed and the state they leave, for the workers, the examples
  and the inspection demo.
\<close>

definition flow_ref :: "u64 \<Rightarrow> u64 \<Rightarrow> FlowRef" where
  "flow_ref fid fg = EntityRef (Id fid) (Generation fg)"

lemma step_inv: "good_step e e' \<Longrightarrow> engine_inv e \<Longrightarrow> engine_inv e'"
  by (simp add: good_step_def)

lemma fl_ref_of_options [simp]: "fl_ref (flow_of_options k now opts) = EntityRef k (Generation 1)"
  by (simp add: flow_of_options_def)

lemma publish_accepted:
  assumes "um_find (cf_domains e) k = Some d" "measurement_valid m" "id_valid w \<longrightarrow> um_find (cf_worker_boot e) w = Some b"
    and "MeasurementKind_named (m_kind m)" "length (d_measurements d) = 20"
  obtains ms where "publish_measurement k m w b e =
      Some (True, set_domain e k (record_rate m w b ((clear_revalidation d)\<lparr>d_measurements := ms\<rparr>)))" "length ms = 20"
proof -
  have len: "length (d_measurements (clear_revalidation d)) = 20" using assms(5) by (simp add: clear_revalidation_def)
  obtain ms where ms: "measurements_put m (d_measurements (clear_revalidation d)) = Some ms"
    using measurements_put_named [OF len assms(4)] by blast
  then show ?thesis
    using that [of ms] assms(1-3) len measurements_put_length [OF ms] by (auto simp: publish_measurement_def Let_def)
qed


text \<open>There is room for one more flow: its id is unused and not zero.\<close>

definition next_flow_free :: "CongestionFabric \<Rightarrow> bool" where
  "next_flow_free e \<longleftrightarrow> cf_next_flow e \<noteq> 0 \<and> um_find (cf_flows e) (Id (cf_next_flow e)) = None"

text \<open>Declaring, admitting and starting a flow that the engine has room for succeeds.\<close>

definition opened_with :: "FlowOptions \<Rightarrow> u64 \<Rightarrow> u64 \<Rightarrow> u64 \<Rightarrow> Flow" where
  "opened_with opts t0 t1 k = (flow_of_options (Id k) t0 opts)\<lparr>admitted_bytes := ByteCounter (o_submitted_bytes opts),
     in_flight_bytes := ByteCounter (o_submitted_bytes opts), fl_state := FS_ACTIVE, fl_started_ms := t1, fl_last_progress_ms := t1\<rparr>"

lemma engine_opens_flow:
  assumes "declare_allowed opts e" "next_flow_free e" "domain_of e (ref_id (o_domain opts)) = Some d" "k = cf_next_flow e"
  shows "\<exists>e1 e2 e3. declare_flow opts t0 e = (flow_ref k 1, e1) \<and> admit_flow (flow_ref k 1) e1 = (True, e2) \<and>
    start_flow (flow_ref k 1) (o_owner_boot opts) t1 e2 = (True, e3) \<and>
    cf_flows e3 = cf_flows e @ [(Id k, opened_with opts t0 t1 k)] \<and>
    cf_domains e3 = um_assign (cf_domains e) (ref_id (o_domain opts)) (clear_revalidation (d\<lparr>d_flows := d_flows d @ [flow_ref k 1]\<rparr>)) \<and>
    cf_worker_boot e3 = cf_worker_boot e \<and> cf_source_boot e3 = cf_source_boot e \<and> cf_limits e3 = cf_limits e \<and>
    cf_next_flow e3 = k + 1 \<and> cf_active_flows e3 = cf_active_flows e + 1 \<and> cf_next_event e3 = cf_next_event e \<and> cf_epoch e3 = cf_epoch e"
proof -
  let ?ref = "flow_ref k 1" and ?d = "ref_id (o_domain opts)"
  let ?f = "flow_of_options (Id k) t0 opts"
  let ?g = "?f\<lparr>admitted_bytes := ByteCounter (o_submitted_bytes opts), fl_state := FS_ADMITTED\<rparr>"
  have free: "um_find (cf_flows e) (Id k) = None" using assms(2,4) by (simp add: next_flow_free_def)
  then have upd: "um_assign (cf_flows e @ [(Id k, v)]) (Id k) v' = cf_flows e @ [(Id k, v')]" for v v'
    by (rule um_assign_last)
  have d: "um_find (cf_domains e) ?d = Some d" using assms(3) by (simp add: domain_of_def)
  have find: "find_flow (cf_flows e @ [(Id k, v)]) ?ref = Some v" if "fl_ref v = EntityRef (Id k) (Generation 1)" for v
    using free that by (simp add: find_flow_def flow_ref_def um_find_append um_find_Cons)
  define e1 where "e1 = snd (declare_flow opts t0 e)"
  have e1: "declare_flow opts t0 e = (?ref, e1)" "cf_flows e1 = cf_flows e @ [(Id k, ?f)]"
      "cf_domains e1 = cf_domains e" "cf_worker_boot e1 = cf_worker_boot e" "cf_source_boot e1 = cf_source_boot e"
      "cf_limits e1 = cf_limits e" "cf_next_flow e1 = k + 1" "cf_active_flows e1 = cf_active_flows e + 1"
      "cf_next_event e1 = cf_next_event e" "cf_epoch e1 = cf_epoch e"
    using assms(1,4) free
    by (simp_all add: e1_def declare_flow_def Let_def um_emplace_fresh um_find_append um_find_Cons flow_ref_def)
  let ?e2 = "set_domain (e1\<lparr>cf_flows := cf_flows e @ [(Id k, ?g)]\<rparr>) ?d (d\<lparr>d_flows := d_flows d @ [?ref]\<rparr>)"
  have fields: "fl_state ?f = FS_DECLARED" "fl_domain ?f = o_domain opts" "fl_owner_boot ?f = o_owner_boot opts"
      "submitted_bytes ?f = ByteCounter (o_submitted_bytes opts)" "admitted_bytes ?f = ByteCounter 0" "in_flight_bytes ?f = ByteCounter 0"
    by (simp_all add: flow_of_options_def)
  have e2: "admit_flow ?ref e1 = (True, ?e2)"
    using find [of ?f] d by (simp add: admit_flow_def e1 fields admit_body_def bc_add_def checked_add_def upd flow_ref_def)
  let ?e3 = "set_domain (?e2\<lparr>cf_flows := cf_flows e @ [(Id k, opened_with opts t0 t1 k)]\<rparr>) ?d
      (clear_revalidation (d\<lparr>d_flows := d_flows d @ [?ref]\<rparr>))"
  have "start_body (o_owner_boot opts) t1 ?g = (True, opened_with opts t0 t1 k)"
    by (simp add: start_body_def fields flow_state_preds bc_add_def checked_add_def opened_with_def)
  then have "start_flow ?ref (o_owner_boot opts) t1 ?e2 = (True, ?e3)"
    using find [of ?g] by (simp add: start_flow_def fields upd flow_ref_def)
  moreover have "cf_domains ?e3 = um_assign (cf_domains e) ?d (clear_revalidation (d\<lparr>d_flows := d_flows d @ [?ref]\<rparr>))"
    by (simp add: e1 um_assign_twice)
  ultimately show ?thesis using e1 e2 by (intro exI [of _ e1] exI [of _ ?e2] exI [of _ ?e3]) simp
qed

end
