(* ===== verification/Worker.thy ===== *)
theory Worker
  imports CoordinatorProps Opening
begin

text \<open>
  The reference worker \<^verbatim>\<open>tools/cfworker.cpp\<close> as a client of the coordinator: its request stubs and
  the \<^verbatim>\<open>drive\<close> and \<^verbatim>\<open>replay\<close> scenarios; the other scenarios and \<^verbatim>\<open>main\<close> are in \<open>Scenarios\<close>. A stub sends a frame and receives the answer; that exchange
  is the argument \<open>call\<close>, whose result is the received frame or \<open>None\<close> when \<^verbatim>\<open>recv_frame\<close> fails. The
  first component of a result is \<open>None\<close> where the process terminates on an uncaught exception or
  reads an uninitialised frame. The command line (\<^verbatim>\<open>arg_scan\<close>) is the record of arguments; the
  printed lines are left out.
\<close>

section \<open>Stubs\<close>

record WorkerArgs =
  g_worker :: u64
  g_boot :: u64
  g_source :: u64
  g_sboot :: u64
  g_domain :: u64
  g_dgen :: u64
  g_bytes :: u64
  g_class :: u64
  g_delta :: u64
  g_offered :: double
  g_serviced :: double
  g_capacity :: double
  g_idfile :: string
  g_path :: string

type_synonym 's exchange = "MessageType \<Rightarrow> u8 list \<Rightarrow> 's \<Rightarrow> Frame option \<times> 's"

text \<open>The answer has the expected type, and its body is read; \<open>no\<close> otherwise.\<close>

definition expect :: "MessageType \<Rightarrow> 'a \<Rightarrow> (u8 list \<Rightarrow> ('a \<times> u8 list) option) \<Rightarrow> Frame option \<times> 's \<Rightarrow> 'a option \<times> 's" where
  "expect t no rd r = (case r of (fr, s) \<Rightarrow> (case fr of
     None \<Rightarrow> (Some no, s)
   | Some f \<Rightarrow> if frame_type f \<noteq> t then (Some no, s) else (map_option fst (rd (frame_body f)), s)))"

definition is_ok :: "Frame option \<times> 's \<Rightarrow> bool option \<times> 's" where
  "is_ok r = (case r of (fr, s) \<Rightarrow> (Some (case fr of None \<Rightarrow> False | Some f \<Rightarrow> frame_type f = MT_OK), s))"

definition register_body :: "WorkerArgs \<Rightarrow> u8 list" where
  "register_body g = wr_u64 (g_worker g) @ wr_u64 (g_boot g) @ wr_u64 (g_source g) @ wr_u64 (g_sboot g)"

definition do_register :: "'s exchange \<Rightarrow> WorkerArgs \<Rightarrow> 's \<Rightarrow> bool option \<times> 's" where
  "do_register call g s = expect MT_REGISTER_ACK False
     (\<lambda>bs. do { (v, bs) \<leftarrow> rd_u8 bs; Some (v \<noteq> 0, bs) }) (call MT_REGISTER (register_body g) s)"

text \<open>A reference in an answer: the success byte, the id and the generation.\<close>

definition rd_created :: "u8 list \<Rightarrow> ((u64 \<times> u64) option \<times> u8 list) option" where
  "rd_created bs = do {
     (ok, bs) \<leftarrow> rd_u8 bs;
     (i, bs) \<leftarrow> rd_u64 bs;
     (gen, bs) \<leftarrow> rd_u64 bs;
     Some (if ok \<noteq> 0 then Some (i, gen) else None, bs) }"

text \<open>The stubs of both workers: \<^verbatim>\<open>cu_worker.cu\<close> sends another domain kind and another provenance.\<close>

definition create_as :: "DomainKind \<Rightarrow> 's exchange \<Rightarrow> WorkerArgs \<Rightarrow> 's \<Rightarrow> (u64 \<times> u64) option option \<times> 's" where
  "create_as kind call g s = expect MT_DOMAIN_CREATED None rd_created (call MT_CREATE_DOMAIN
     (wr_u8 (DomainKind_to_u8 kind) @ wr_u8 (BandwidthKind_to_u8 BK_THEORETICAL) @ wr_u64 (g_capacity g) @
      wr_u8 (BandwidthKind_to_u8 BK_CONFIGURED) @ wr_u64 (g_capacity g)) s)"

definition do_create :: "'s exchange \<Rightarrow> WorkerArgs \<Rightarrow> 's \<Rightarrow> (u64 \<times> u64) option option \<times> 's" where
  "do_create = create_as DK_NETWORK_PATH"

definition declare_as :: "MeasurementProvenance \<Rightarrow> 's exchange \<Rightarrow> WorkerArgs \<Rightarrow> u64 \<Rightarrow> u64 \<Rightarrow> 's
    \<Rightarrow> (u64 \<times> u64) option option \<times> 's" where
  "declare_as pv call g did dgen s = expect MT_FLOW_DECLARED None rd_created (call MT_DECLARE_FLOW
     (wr_u64 (g_worker g) @ wr_u64 (g_boot g) @ wr_u64 (g_source g) @ wr_u64 (g_sboot g) @ wr_u8 (ucast (g_class g)) @
      wr_u64 did @ wr_u64 dgen @ wr_u64 (g_bytes g) @ wr_u64 (g_bytes g) @
      wr_u64 0 @ wr_u64 0 @ wr_u64 0 @ wr_u64 0 @ wr_u64 0 @
      wr_u8 (MeasurementProvenance_to_u8 pv)) s)"

definition do_declare :: "'s exchange \<Rightarrow> WorkerArgs \<Rightarrow> u64 \<Rightarrow> u64 \<Rightarrow> 's \<Rightarrow> (u64 \<times> u64) option option \<times> 's" where
  "do_declare = declare_as MP_REPORTED"

definition send_flow_op :: "'s exchange \<Rightarrow> MessageType \<Rightarrow> u64 \<Rightarrow> u64 \<Rightarrow> 's \<Rightarrow> bool option \<times> 's" where
  "send_flow_op call t fid fg s = is_ok (call t (wr_u64 fid @ wr_u64 fg) s)"

definition do_start :: "'s exchange \<Rightarrow> WorkerArgs \<Rightarrow> u64 \<Rightarrow> u64 \<Rightarrow> 's \<Rightarrow> bool option \<times> 's" where
  "do_start call g fid fg s = is_ok (call MT_START (wr_u64 fid @ wr_u64 fg @ wr_u64 (g_boot g)) s)"

definition measure_body :: "MeasurementProvenance \<Rightarrow> u64 \<Rightarrow> MeasurementKind \<Rightarrow> double \<Rightarrow> u8 list" where
  "measure_body pv did kind v = wr_u64 did @ wr_u8 (MeasurementKind_to_u8 kind) @ wr_u64 v @
     wr_u8 (MeasurementProvenance_to_u8 pv) @ wr_u64 d_one"

definition measure_as :: "MeasurementProvenance \<Rightarrow> 's exchange \<Rightarrow> WorkerArgs \<Rightarrow> u64 \<Rightarrow> 's \<Rightarrow> 's" where
  "measure_as pv call g did s =
    (let s1 = snd (call MT_PUBLISH_MEASUREMENT (measure_body pv did MK_OFFERED_BYTES_PER_SEC (g_offered g)) s)
     in snd (call MT_PUBLISH_MEASUREMENT (measure_body pv did MK_COMPLETED_BYTES_PER_SEC (g_serviced g)) s1))"

definition do_measure :: "'s exchange \<Rightarrow> WorkerArgs \<Rightarrow> u64 \<Rightarrow> 's \<Rightarrow> 's" where
  "do_measure = measure_as MP_REPORTED"

text \<open>The values \<^verbatim>\<open>do_query\<close> prints: state, provenance, score, the two flags and the four rates.\<close>

record QueryLine =
  ql_state :: u8
  ql_prov :: u8
  ql_score :: double
  ql_auth :: u8
  ql_hasload :: u8
  ql_rates :: "double list"

definition rd_query :: "u8 list \<Rightarrow> (QueryLine option \<times> u8 list) option" where
  "rd_query bs = do {
     (st, bs) \<leftarrow> rd_u8 bs;
     (prov, bs) \<leftarrow> rd_u8 bs;
     (sc, bs) \<leftarrow> rd_u64 bs;
     (auth, bs) \<leftarrow> rd_u8 bs;
     (hasload, bs) \<leftarrow> rd_u8 bs;
     (offered, bs) \<leftarrow> rd_u64 bs;
     (serviced, bs) \<leftarrow> rd_u64 bs;
     (eff, bs) \<leftarrow> rd_u64 bs;
     (resid, bs) \<leftarrow> rd_u64 bs;
     Some (Some \<lparr>ql_state = st, ql_prov = prov, ql_score = sc, ql_auth = auth, ql_hasload = hasload,
        ql_rates = [offered, serviced, eff, resid]\<rparr>, bs) }"

definition do_query :: "'s exchange \<Rightarrow> u64 \<Rightarrow> 's \<Rightarrow> QueryLine option option \<times> 's" where
  "do_query call did s = expect MT_CONGESTION_UPDATE None rd_query (call MT_QUERY_CONGESTION (wr_u64 did) s)"

section \<open>Scenarios\<close>

definition step_or :: "'a option \<times> 's \<Rightarrow> ('a \<Rightarrow> 's \<Rightarrow> 'b option \<times> 's) \<Rightarrow> 'b option \<times> 's" where
  "step_or r k = (case r of (None, s) \<Rightarrow> (None, s) | (Some a, s) \<Rightarrow> k a s)"

text \<open>Declare, admit and start a flow and publish rates, as \<^verbatim>\<open>drive\<close>, \<^verbatim>\<open>compete\<close> and \<^verbatim>\<open>resurrect\<close> do; the
  result is the flow id, or \<open>None\<close> for a failed step.\<close>

definition open_flow :: "'s exchange \<Rightarrow> WorkerArgs \<Rightarrow> u64 \<Rightarrow> u64 \<Rightarrow> 's \<Rightarrow> u64 option option \<times> 's" where
  "open_flow call g did dgen s =
    step_or (do_declare call g did dgen s) (\<lambda>fl s. (case fl of None \<Rightarrow> (Some None, s) | Some (fid, fg) \<Rightarrow>
    step_or (send_flow_op call MT_ADMIT fid fg s) (\<lambda>ok s. if \<not> ok then (Some None, s) else
    step_or (do_start call g fid fg s) (\<lambda>ok s. if \<not> ok then (Some None, s) else
      (Some (Some fid), do_measure call g did s)))))"

text \<open>\<^verbatim>\<open>drive\<close>: register, create a domain and open a flow there. The result is the domain, if one was
  created, and the flow id of \<^verbatim>\<open>DRIVE_OK\<close>, \<open>Some None\<close> for \<^verbatim>\<open>DRIVE_FAIL\<close>.\<close>

definition drive :: "'s exchange \<Rightarrow> WorkerArgs \<Rightarrow> 's \<Rightarrow> ((u64 \<times> u64) option \<times> u64 option option) \<times> 's" where
  "drive call g s = (case do_register call g s of
     (None, s) \<Rightarrow> ((None, None), s)
   | (Some ok, s) \<Rightarrow>
      if \<not> ok then ((None, Some None), s)
      else (case do_create call g s of
        (None, s) \<Rightarrow> ((None, None), s)
      | (Some dm, s) \<Rightarrow> (case dm of
          None \<Rightarrow> ((None, Some None), s)
        | Some (did, dgen) \<Rightarrow> (case open_flow call g did dgen s of (r, s) \<Rightarrow> ((Some (did, dgen), r), s)))))"

text \<open>\<^verbatim>\<open>replay\<close>: an already fenced boot registers, publishes, reports progress and completes; the
  result is whether all four were rejected.\<close>

definition is_nack :: "Frame option \<times> 's \<Rightarrow> bool \<times> 's" where
  "is_nack r = (case r of (fr, s) \<Rightarrow> (case fr of None \<Rightarrow> False | Some f \<Rightarrow> frame_type f = MT_NACK, s))"

definition register_rejected :: "Frame option \<times> 's \<Rightarrow> bool option \<times> 's" where
  "register_rejected r = (case r of (fr, s) \<Rightarrow> (case fr of
     None \<Rightarrow> (None, s)
   | Some f \<Rightarrow> if frame_type f = MT_REGISTER_ACK then (map_option (\<lambda>(ack, _). ack = 0) (rd_u8 (frame_body f)), s)
               else (Some True, s)))"

definition replay :: "'s exchange \<Rightarrow> WorkerArgs \<Rightarrow> 's \<Rightarrow> bool option \<times> 's" where
  "replay call g s =
    step_or (register_rejected (call MT_REGISTER (register_body g) s)) (\<lambda>a s.
      case is_nack (call MT_PUBLISH_MEASUREMENT (measure_body MP_REPORTED (g_domain g) MK_OFFERED_BYTES_PER_SEC (g_offered g)) s) of (b, s) \<Rightarrow>
      case is_nack (call MT_PROGRESS (wr_u64 (g_domain g) @ wr_u64 (g_dgen g) @ wr_u64 (g_boot g) @ wr_u64 (g_delta g)) s) of (c, s) \<Rightarrow>
      case is_nack (call MT_COMPLETE (wr_u64 (g_domain g) @ wr_u64 (g_dgen g) @ wr_u64 (g_boot g)) s) of (d, s) \<Rightarrow>
        (Some (a \<and> b \<and> c \<and> d), s))"

section \<open>The coordinator as the other end\<close>

definition coordinator_link :: "(string \<Rightarrow> u8 list \<Rightarrow> 'd \<Rightarrow> bool \<times> 'd) \<Rightarrow> u64 \<Rightarrow> ('d Coordinator \<times> Context) exchange" where
  "coordinator_link put now t body st = (case st of (co, ctx) \<Rightarrow>
     (case handle put now \<lparr>frame_type = t, frame_body = body\<rparr> co ctx of
        None \<Rightarrow> (None, (co, ctx))
      | Some (out, co1, ctx1) \<Rightarrow> (case out of [] \<Rightarrow> None | f # _ \<Rightarrow> Some f, (co1, ctx1))))"

text \<open>What closing the socket, or the exit of the client, does at the other end: \<^verbatim>\<open>recv_frame\<close> fails, the session ends, and
  a later connection starts with no identity.\<close>

definition coordinator_hangup :: "'d Coordinator \<times> Context \<Rightarrow> 'd Coordinator \<times> Context" where
  "coordinator_hangup st = (case st of (co, ctx) \<Rightarrow> (end_session ctx co, no_context))"

lemmas body_readers = read_register_def read_create_domain_def read_declare_flow_def read_ref_boot_def
  read_ref_boot_count_def read_publish_def rd_ref_def rd_id_def rd_gen_def

lemma last_u64: "rd_u64 (wr_u64 x) = Some (x, [])" "rd_u8 (wr_u8 y) = Some (y, [])"
  using c_u64.round [of x "[]"] c_u8.round [of y "[]"] by simp_all

lemma enum_bytes:
  "DomainKind_of_u8 (DomainKind_to_u8 DK_NETWORK_PATH) = DK_NETWORK_PATH"
  "BandwidthKind_of_u8 (BandwidthKind_to_u8 BK_THEORETICAL) = BK_THEORETICAL"
  "BandwidthKind_of_u8 (BandwidthKind_to_u8 BK_CONFIGURED) = BK_CONFIGURED"
  "MeasurementProvenance_of_u8 (MeasurementProvenance_to_u8 MP_REPORTED) = MP_REPORTED"
  "MeasurementKind_of_u8 (MeasurementKind_to_u8 MK_OFFERED_BYTES_PER_SEC) = MK_OFFERED_BYTES_PER_SEC"
  "MeasurementKind_of_u8 (MeasurementKind_to_u8 MK_COMPLETED_BYTES_PER_SEC) = MK_COMPLETED_BYTES_PER_SEC"
  by (rule DK.of_to BK.of_to MP.of_to MK.of_to;
      simp add: DomainKind_named_def DomainKind_enum_def BandwidthKind_named_def BandwidthKind_enum_def
        MeasurementProvenance_named_def MeasurementProvenance_enum_def MeasurementKind_named_def MeasurementKind_enum_def)+

lemmas enum_bytes_eval [simp] = enum_bytes [simplified]

lemma named_kinds: "MeasurementKind_named MK_OFFERED_BYTES_PER_SEC" "MeasurementKind_named MK_COMPLETED_BYTES_PER_SEC"
  by (simp_all add: MeasurementKind_named_def MeasurementKind_enum_def)

lemma named_kind: "DomainKind_named DK_NETWORK_PATH" "DomainKind_named DK_GPU_HOST_TRANSFER"
  by (simp_all add: DomainKind_named_def DomainKind_enum_def)

lemma named_provenances: "MeasurementProvenance_named MP_REPORTED" "MeasurementProvenance_named MP_MEASURED"
  by (simp_all add: MeasurementProvenance_named_def MeasurementProvenance_enum_def)

section \<open>Remote calls are engine calls\<close>

text \<open>The capacity and the options a worker's requests stand for.\<close>

definition worker_capacity :: "WorkerArgs \<Rightarrow> CapacityProfile" where
  "worker_capacity g = default_capacity\<lparr>
     theoretical := default_rate\<lparr>rate_bps := g_capacity g, rate_kind := BK_THEORETICAL, rate_prov := MP_MEASURED\<rparr>,
     configured := default_rate\<lparr>rate_bps := g_capacity g, rate_kind := BK_CONFIGURED, rate_prov := MP_REPORTED\<rparr>\<rparr>"

definition worker_options :: "MeasurementProvenance \<Rightarrow> WorkerArgs \<Rightarrow> u64 \<Rightarrow> u64 \<Rightarrow> FlowOptions" where
  "worker_options pv g did dgen = default_options\<lparr>o_owner_worker := Id (g_worker g), o_owner_boot := Generation (g_boot g),
     o_source := Id (g_source g), o_source_boot := Generation (g_sboot g),
     o_traffic_class := TrafficClass_of_u8 (ucast (g_class g)), o_domain := EntityRef (Id did) (Generation dgen),
     o_expected_bytes := g_bytes g, o_submitted_bytes := g_bytes g, o_priority := 0, o_latency_sensitivity := 0,
     o_throughput_target_bps := 0, o_burst_allowance_bytes := 0, o_deadline_ms := 0, o_provenance := pv\<rparr>"

definition worker_measurement :: "MeasurementProvenance \<Rightarrow> MeasurementKind \<Rightarrow> double \<Rightarrow> Measurement" where
  "worker_measurement pv kind v = default_measurement\<lparr>m_kind := kind, m_value := v, m_provenance := pv,
     m_confidence := d_one\<rparr>"

lemma link_register:
  "coordinator_link put now MT_REGISTER (register_body g) (co, ctx) =
    (let r = register_worker (Id (g_worker g)) (Generation (g_boot g)) (co_engine co);
         q = register_source (Id (g_source g)) (Generation (g_sboot g)) (snd r)
     in (Some \<lparr>frame_type = MT_REGISTER_ACK, frame_body = wr_u8 (if fst r \<and> fst q then 1 else 0)\<rparr>,
         (co\<lparr>co_engine := snd q\<rparr>, \<lparr>ctx_wid = Id (g_worker g), ctx_boot = Generation (g_boot g)\<rparr>)))"
  by (simp add: coordinator_link_def handle_def dispatch_def register_body_def body_readers prim_round last_u64
      reading_def handle_register_def reply_def Let_def split_beta)

lemma link_flow_op:
  "coordinator_link put now MT_ADMIT (wr_u64 fid @ wr_u64 fg) (co, ctx) =
    (let r = admit_flow (flow_ref fid fg) (co_engine co)
     in (Some \<lparr>frame_type = (if fst r then MT_OK else MT_NACK), frame_body = []\<rparr>, (co\<lparr>co_engine := snd r\<rparr>, ctx)))"
  "coordinator_link put now MT_START (wr_u64 fid @ wr_u64 fg @ wr_u64 b) (co, ctx) =
    (let r = start_flow (flow_ref fid fg) (Generation b) now (co_engine co)
     in (Some \<lparr>frame_type = (if fst r then MT_OK else MT_NACK), frame_body = []\<rparr>, (co\<lparr>co_engine := snd r\<rparr>, ctx)))"
  "coordinator_link put now MT_PROGRESS (wr_u64 fid @ wr_u64 fg @ wr_u64 b @ wr_u64 n) (co, ctx) =
    (let r = flow_progress (flow_ref fid fg) (Generation b) n now (co_engine co)
     in (Some \<lparr>frame_type = (if fst r then MT_OK else MT_NACK), frame_body = []\<rparr>, (co\<lparr>co_engine := snd r\<rparr>, ctx)))"
  "coordinator_link put now MT_COMPLETE (wr_u64 fid @ wr_u64 fg @ wr_u64 b) (co, ctx) =
    (let r = flow_complete (flow_ref fid fg) (Generation b) now (co_engine co)
     in (Some \<lparr>frame_type = (if fst r then MT_OK else MT_NACK), frame_body = []\<rparr>, (co\<lparr>co_engine := snd r\<rparr>, ctx)))"
  by (simp_all add: coordinator_link_def handle_def dispatch_def body_readers prim_round last_u64 reading_def
      acked_def reply_def ok_reply_def nack_reply_def Let_def split_beta flow_ref_def)

lemma link_publish:
  assumes "id_valid (ctx_wid ctx)" "MeasurementKind_named kind" "MeasurementProvenance_named pv"
    and "publish_measurement (Id did) (worker_measurement pv kind v) (ctx_wid ctx) (ctx_boot ctx) (co_engine co) = Some r"
  shows "coordinator_link put now MT_PUBLISH_MEASUREMENT (measure_body pv did kind v) (co, ctx) =
    (Some \<lparr>frame_type = (if fst r then MT_OK else MT_NACK), frame_body = []\<rparr>, (co\<lparr>co_engine := snd r\<rparr>, ctx))"
  using assms MK.of_to [OF assms(2)] MP.of_to [OF assms(3)]
  by (simp add: coordinator_link_def handle_def dispatch_def measure_body_def body_readers prim_round last_u64
      reading_def handle_publish_def worker_measurement_def acked_def reply_def ok_reply_def nack_reply_def split_beta)

lemma register_stub:
  "do_register (coordinator_link put now) g (co, ctx) =
     (let r = register_worker (Id (g_worker g)) (Generation (g_boot g)) (co_engine co);
          q = register_source (Id (g_source g)) (Generation (g_sboot g)) (snd r)
      in (Some (fst r \<and> fst q), (co\<lparr>co_engine := snd q\<rparr>, \<lparr>ctx_wid = Id (g_worker g), ctx_boot = Generation (g_boot g)\<rparr>)))"
  by (simp add: do_register_def link_register expect_def last_u64 Let_def)

lemmas reference_reply = reply_def Let_def split_beta expect_def ref_body_def wr_ref_def wr_id_def wr_gen_def rd_created_def

lemma create_stub:
  assumes "DomainKind_named kind"
  shows "create_as kind (coordinator_link put now) g (co, ctx) =
     (let r = create_domain kind (worker_capacity g) (co_engine co)
      in (Some (if id_valid (ref_id (fst r)) then Some (idv (ref_id (fst r)), genv (ref_gen (fst r))) else None),
          (co\<lparr>co_engine := snd r\<rparr>, ctx)))"
  using DK.of_to [OF assms]
  by (simp add: create_as_def coordinator_link_def handle_def dispatch_def body_readers prim_round last_u64
      reading_def handle_create_domain_def worker_capacity_def reference_reply)

lemma declare_stub:
  assumes "MeasurementProvenance_named pv"
  shows "declare_as pv (coordinator_link put now) g did dgen (co, ctx) =
     (let r = declare_flow (worker_options pv g did dgen) now (co_engine co)
      in (Some (if id_valid (ref_id (fst r)) then Some (idv (ref_id (fst r)), genv (ref_gen (fst r))) else None),
          (co\<lparr>co_engine := snd r\<rparr>, ctx)))"
  using MP.of_to [OF assms]
  by (simp add: declare_as_def coordinator_link_def handle_def dispatch_def body_readers prim_round last_u64
      reading_def handle_declare_flow_def worker_options_def reference_reply)

lemma flow_stubs:
  "send_flow_op (coordinator_link put now) MT_ADMIT fid fg (co, ctx) =
     (let r = admit_flow (flow_ref fid fg) (co_engine co) in (Some (fst r), (co\<lparr>co_engine := snd r\<rparr>, ctx)))"
  "do_start (coordinator_link put now) g fid fg (co, ctx) =
     (let r = start_flow (flow_ref fid fg) (Generation (g_boot g)) now (co_engine co)
      in (Some (fst r), (co\<lparr>co_engine := snd r\<rparr>, ctx)))"
  by (simp_all add: send_flow_op_def do_start_def is_ok_def link_flow_op Let_def)

section \<open>Replay of a fenced incarnation\<close>

lemma parked_refused:
  assumes "flow_of e k = Some f" "parked (fl_state f)"
  shows "flow_progress (EntityRef k gen) b n now e = (False, e)" "flow_complete (EntityRef k gen) b now e = (False, e)"
proof -
  have bodies: "progress_body b n now f = (False, f)" "complete_body b now f = (False, f)"
    using assms(2) by (auto simp: progress_body_def complete_body_def parked_def flow_state_preds)
  have "on_flow (EntityRef k gen) body e = (False, e)" if "body f = (False, f)" for body
  proof (cases "find_flow (cf_flows e) (EntityRef k gen)")
    case (Some h)
    then have "h = f" using find_flow_SomeD [OF Some] assms(1) by (simp add: flow_of_def)
    then show ?thesis using on_flow_refused [OF Some] that by simp
  qed (simp add: on_flow_def)
  then show "flow_progress (EntityRef k gen) b n now e = (False, e)" "flow_complete (EntityRef k gen) b now e = (False, e)"
    using bodies by (simp_all add: flow_progress_def flow_complete_def)
qed

lemma fenced_again:
  assumes "engine_inv e" "fence_worker w b e = (True, e1)" "genv b \<noteq> - 1" "session e1 e2"
  shows "fence_worker w b e2 = (False, e2)"
proof -
  have "engine_inv e1" using good_fence_worker [of e w b] assms(1,2) by (simp add: good_step_def)
  then have "engine_evolves e1 e2" using session_good [OF assms(4)] by (simp add: good_step_def)
  then obtain b' where b': "um_find (cf_worker_boot e2) w = Some b'" "gen_next b \<le> b'"
    using evolves_lookup(2) [OF _ fence_workerD(2) [OF assms(2)]] by blast
  then have "b < b'" using gen_next_greater [OF assms(3)] by (rule_tac less_le_trans) auto
  then show ?thesis using b' by (auto simp: fence_worker_def)
qed

text \<open>C16: the replay scenario reports that everything was rejected: a fenced incarnation that comes
  back later and registers, publishes, reports progress and completion for one of its unfinished
  flows is refused each time. The coordinator is left as it was but for its registry of sources, where the source boot
  the replay names may be entered or advanced; closing the connection afterwards changes nothing.\<close>

theorem replay_rejected:
  assumes "engine_inv e" "fence_worker (Id (g_worker g)) (Generation (g_boot g)) e = (True, e1)" "g_boot g \<noteq> - 1"
    and "session e1 (co_engine co)" "flow_of e (Id (g_domain g)) = Some f" "\<not> flow_terminal f"
    and "fl_owner_worker f = Id (g_worker g)" "fl_owner_boot f = Generation (g_boot g)"
  shows "\<exists>co1 ctx1. replay (coordinator_link put now) g (co, ctx) = (Some True, (co1, ctx1)) \<and>
    co1 = co\<lparr>co_engine := (co_engine co)\<lparr>cf_source_boot := cf_source_boot (co_engine co1)\<rparr>\<rparr> \<and>
    (\<forall>s. s \<noteq> Id (g_source g) \<longrightarrow> um_find (cf_source_boot (co_engine co1)) s = um_find (cf_source_boot (co_engine co)) s) \<and>
    (\<forall>s b. um_find (cf_source_boot (co_engine co)) s = Some b \<longrightarrow> (\<exists>b'. um_find (cf_source_boot (co_engine co1)) s = Some b' \<and> b \<le> b')) \<and>
    end_session ctx1 co1 = co1"
proof -
  let ?w = "Id (g_worker g) :: WorkerId" and ?b = "Generation (g_boot g) :: WorkerBootId" and ?e = "co_engine co"
  let ?r = "register_source (Id (g_source g)) (Generation (g_sboot g)) ?e"
  let ?co = "co\<lparr>co_engine := snd ?r\<rparr>" and ?ctx = "\<lparr>ctx_wid = Id (g_worker g), ctx_boot = Generation (g_boot g)\<rparr> :: Context"
  have b: "genv ?b \<noteq> - 1" using assms(3) by simp
  have run: "session e1 (snd ?r)" using session_trans [OF assms(4) session_ops(2)] .
  note before = fenced_incarnation [OF assms(1,2) b assms(4)] and after = fenced_incarnation [OF assms(1,2) b run]
  have w: "id_valid ?w" using assms(2) by (auto simp: fence_worker_def split: if_splits)
  obtain h where h: "flow_of (snd ?r) (Id (g_domain g)) = Some h" "parked (fl_state h)"
    using after assms(5-8) by blast
  have reg: "coordinator_link put now MT_REGISTER (register_body g) (co, ctx) =
      (Some \<lparr>frame_type = MT_REGISTER_ACK, frame_body = wr_u8 0\<rparr>, (?co, ?ctx))"
    using before by (simp add: link_register Let_def)
  have pub: "coordinator_link put now MT_PUBLISH_MEASUREMENT (measure_body MP_REPORTED (g_domain g) MK_OFFERED_BYTES_PER_SEC (g_offered g)) (?co, ?ctx) =
      (Some \<lparr>frame_type = MT_NACK, frame_body = []\<rparr>, (?co, ?ctx))"
    using link_publish [of ?ctx MK_OFFERED_BYTES_PER_SEC MP_REPORTED "g_domain g" "g_offered g" ?co "(False, snd ?r)"] named_kinds named_provenances after w by simp
  have "replay (coordinator_link put now) g (co, ctx) = (Some True, (?co, ?ctx))"
    using parked_refused [OF h]
    by (simp add: replay_def reg pub register_rejected_def last_u64 step_or_def is_nack_def link_flow_op flow_ref_def Let_def)
  moreover have "snd ?r = ?e\<lparr>cf_source_boot := cf_source_boot (snd ?r)\<rparr>"
    "s \<noteq> Id (g_source g) \<Longrightarrow> um_find (cf_source_boot (snd ?r)) s = um_find (cf_source_boot ?e) s" for s
    by (simp_all add: register_source_def split: option.split)
  moreover have "engine_evolves ?e (snd ?r)"
    using session_good [OF session_ops(2)] session_good [OF assms(4)] good_fence_worker [of e ?w ?b] assms(1,2)
    by (simp add: good_step_def)
  note evolves_lookup(3) [OF this]
  moreover have "end_session ?ctx ?co = ?co" using after w by (simp add: end_session_def fenced_again [OF assms(1,2) b run])
  ultimately show ?thesis by (intro exI [of _ ?co] exI [of _ ?ctx]) simp
qed

section \<open>The drive scenario\<close>

text \<open>Arguments the engine accepts.\<close>

definition args_ok :: "WorkerArgs \<Rightarrow> bool" where
  "args_ok g \<longleftrightarrow> g_worker g \<noteq> 0 \<and> g_boot g \<noteq> 0 \<and> g_source g \<noteq> 0 \<and> g_sboot g \<noteq> 0 \<and>
     fin_nonneg (g_capacity g) \<and> isfinite (g_offered g) \<and> isfinite (g_serviced g)"

lemma worker_measurement_valid: "isfinite v \<Longrightarrow> measurement_valid (worker_measurement pv kind v)"
  by (simp add: worker_measurement_def measurement_valid_def default_measurement_def dle_def dkey_d_one)

lemma worker_capacity_valid: "fin_nonneg (g_capacity g) \<Longrightarrow> capacity_valid (worker_capacity g)"
  by (simp add: worker_capacity_def capacity_valid_def rate_check_def is_finite_nonneg_iff default_capacity_def
      default_rate_def reservation_is_consistent_def fin_nonneg_def split: option.split)

text \<open>Both publications of a registered worker are accepted and become the domain's evidence.\<close>

lemma measure_published:
  assumes "args_ok g" "MeasurementProvenance_named pv" "engine_inv (co_engine co)" "domain_of (co_engine co) (Id did) = Some d"
    and "um_find (cf_worker_boot (co_engine co)) (Id (g_worker g)) = Some (Generation (g_boot g))"
    and "ctx = \<lparr>ctx_wid = Id (g_worker g), ctx_boot = Generation (g_boot g)\<rparr>"
  shows "\<exists>co1 d1. measure_as pv (coordinator_link put now) g did (co, ctx) = (co1, ctx) \<and>
    cf_flows (co_engine co1) = cf_flows (co_engine co) \<and> cf_worker_boot (co_engine co1) = cf_worker_boot (co_engine co) \<and>
    domain_of (co_engine co1) (Id did) = Some d1 \<and>
    d_offered_bps d1 = g_offered g \<and> d_serviced_bps d1 = g_serviced g \<and> d_flows d1 = d_flows d"
proof -
  let ?e = "co_engine co" and ?w = "Id (g_worker g) :: WorkerId" and ?b = "Generation (g_boot g) :: WorkerBootId"
  let ?m1 = "worker_measurement pv MK_OFFERED_BYTES_PER_SEC (g_offered g)"
  let ?m2 = "worker_measurement pv MK_COMPLETED_BYTES_PER_SEC (g_serviced g)"
  have valid: "measurement_valid ?m1" "measurement_valid ?m2" "id_valid ?w"
    using assms(1) by (simp_all add: args_ok_def id_valid_def worker_measurement_valid)
  have kinds: "m_kind ?m1 = MK_OFFERED_BYTES_PER_SEC" "m_kind ?m2 = MK_COMPLETED_BYTES_PER_SEC"
    by (simp_all add: worker_measurement_def)
  have d: "um_find (cf_domains ?e) (Id did) = Some d" using assms(4) by (simp add: domain_of_def)
  then have len: "length (d_measurements d) = 20" using assms(3) by (simp add: engine_inv_def domain_ok_def)
  obtain ms where p1: "publish_measurement (Id did) ?m1 ?w ?b ?e = Some (True, set_domain ?e (Id did)
      (record_rate ?m1 ?w ?b ((clear_revalidation d)\<lparr>d_measurements := ms\<rparr>)))" "length ms = 20"
    using publish_accepted [OF d valid(1) _ _ len] assms(5) kinds named_kinds by metis
  let ?d1 = "record_rate ?m1 ?w ?b ((clear_revalidation d)\<lparr>d_measurements := ms\<rparr>)"
  let ?e1 = "set_domain ?e (Id did) ?d1"
  have d1: "length (d_measurements ?d1) = 20" "d_offered_bps ?d1 = g_offered g" "d_flows ?d1 = d_flows d"
    using p1(2) by (simp_all add: record_rate_def kinds worker_measurement_def clear_revalidation_def)
  obtain ms2 where p2: "publish_measurement (Id did) ?m2 ?w ?b ?e1 = Some (True, set_domain ?e1 (Id did)
      (record_rate ?m2 ?w ?b ((clear_revalidation ?d1)\<lparr>d_measurements := ms2\<rparr>)))"
    using publish_accepted [of ?e1 "Id did" ?d1 ?m2 ?w ?b, OF _ valid(2) _ _ d1(1)] assms(5) kinds named_kinds by auto
  let ?d2 = "record_rate ?m2 ?w ?b ((clear_revalidation ?d1)\<lparr>d_measurements := ms2\<rparr>)"
  have d2: "d_offered_bps ?d2 = g_offered g" "d_serviced_bps ?d2 = g_serviced g" "d_flows ?d2 = d_flows d"
    using d1(2,3) by (simp_all add: record_rate_def [of ?m2] kinds) (simp_all add: worker_measurement_def clear_revalidation_def)
  let ?ctx = "\<lparr>ctx_wid = Id (g_worker g), ctx_boot = Generation (g_boot g)\<rparr> :: Context"
  have "coordinator_link put now MT_PUBLISH_MEASUREMENT (measure_body pv did MK_OFFERED_BYTES_PER_SEC (g_offered g)) (co, ?ctx) =
      (Some \<lparr>frame_type = MT_OK, frame_body = []\<rparr>, (co\<lparr>co_engine := ?e1\<rparr>, ?ctx))"
    using link_publish [of ?ctx MK_OFFERED_BYTES_PER_SEC pv did "g_offered g" co "(True, ?e1)"] p1(1) valid(3) named_kinds assms(2) by simp
  moreover have "coordinator_link put now MT_PUBLISH_MEASUREMENT (measure_body pv did MK_COMPLETED_BYTES_PER_SEC (g_serviced g))
      (co\<lparr>co_engine := ?e1\<rparr>, ?ctx) =
      (Some \<lparr>frame_type = MT_OK, frame_body = []\<rparr>, (co\<lparr>co_engine := set_domain ?e1 (Id did) ?d2\<rparr>, ?ctx))"
    using link_publish [of ?ctx MK_COMPLETED_BYTES_PER_SEC pv did "g_serviced g" "co\<lparr>co_engine := ?e1\<rparr>"
        "(True, set_domain ?e1 (Id did) ?d2)"] p2 valid(3) named_kinds assms(2) by simp
  ultimately have "measure_as pv (coordinator_link put now) g did (co, ?ctx) = (co\<lparr>co_engine := set_domain ?e1 (Id did) ?d2\<rparr>, ?ctx)"
    by (simp add: measure_as_def Let_def)
  then show ?thesis using d2 assms(6) by (auto simp: domain_of_def)
qed

abbreviation opened_flow :: "MeasurementProvenance \<Rightarrow> u64 \<Rightarrow> WorkerArgs \<Rightarrow> u64 \<Rightarrow> u64 \<Rightarrow> u64 \<Rightarrow> Flow" where
  "opened_flow pv now g did dgen \<equiv> opened_with (worker_options pv g did dgen) now now"

lemma flow_opens:
  assumes "args_ok g" "MeasurementProvenance_named pv" "engine_inv (co_engine co)"
    and "declare_allowed (worker_options pv g did dgen) (co_engine co)"
    and "next_flow_free (co_engine co)" "ctx = \<lparr>ctx_wid = Id (g_worker g), ctx_boot = Generation (g_boot g)\<rparr>"
    and "domain_of (co_engine co) (Id did) = Some d" "k = cf_next_flow (co_engine co)"
  shows "\<exists>co1 co2 co3 co4 d1. declare_as pv (coordinator_link put now) g did dgen (co, ctx) = (Some (Some (k, 1)), (co1, ctx)) \<and>
    send_flow_op (coordinator_link put now) MT_ADMIT k 1 (co1, ctx) = (Some True, (co2, ctx)) \<and>
    do_start (coordinator_link put now) g k 1 (co2, ctx) = (Some True, (co3, ctx)) \<and>
    measure_as pv (coordinator_link put now) g did (co3, ctx) = (co4, ctx) \<and>
    cf_flows (co_engine co4) = cf_flows (co_engine co) @ [(Id k, opened_flow pv now g did dgen k)] \<and>
    cf_worker_boot (co_engine co4) = cf_worker_boot (co_engine co) \<and> domain_of (co_engine co4) (Id did) = Some d1 \<and> d_flows d1 = d_flows d @ [flow_ref k 1] \<and>
    d_offered_bps d1 = g_offered g \<and> d_serviced_bps d1 = g_serviced g"
proof -
  obtain e1 e2 e3 where e: "declare_flow (worker_options pv g did dgen) now (co_engine co) = (flow_ref k 1, e1)"
      "admit_flow (flow_ref k 1) e1 = (True, e2)" "start_flow (flow_ref k 1) (Generation (g_boot g)) now e2 = (True, e3)"
      "cf_flows e3 = cf_flows (co_engine co) @ [(Id k, opened_flow pv now g did dgen k)]"
      "cf_worker_boot e3 = cf_worker_boot (co_engine co)"
      "domain_of e3 (Id did) = Some (clear_revalidation (d\<lparr>d_flows := d_flows d @ [flow_ref k 1]\<rparr>))"
    using engine_opens_flow [OF assms(4,5) _ assms(8), of d now now] assms(7) by (auto simp: worker_options_def domain_of_def)
  have "engine_inv e3"
    using step_inv [OF good_declare_flow assms(3), of "worker_options pv g did dgen" now]
      step_inv [OF good_admit_flow, of e1 "flow_ref k 1"] step_inv [OF good_start_flow, of e2 "flow_ref k 1" _ now] e(1-3)
    by (metis snd_conv)
  moreover have "um_find (cf_worker_boot e3) (Id (g_worker g)) = Some (Generation (g_boot g))"
    using assms(4) e(5) by (simp add: declare_allowed_def worker_options_def)
  ultimately obtain co4 d1 where m: "measure_as pv (coordinator_link put now) g did (co\<lparr>co_engine := e3\<rparr>, ctx) = (co4, ctx)"
      "cf_flows (co_engine co4) = cf_flows e3" "cf_worker_boot (co_engine co4) = cf_worker_boot e3" "domain_of (co_engine co4) (Id did) = Some d1" "d_offered_bps d1 = g_offered g"
      "d_serviced_bps d1 = g_serviced g" "d_flows d1 = d_flows d @ [flow_ref k 1]"
    using measure_published [OF assms(1,2), of "co\<lparr>co_engine := e3\<rparr>" did _ ctx put now] e(6) assms(6)
    by (auto simp: clear_revalidation_def split: if_splits)
  have "id_valid (Id k :: FlowId)" using assms(5,8) by (simp add: next_flow_free_def id_valid_def)
  then have "declare_as pv (coordinator_link put now) g did dgen (co, ctx) = (Some (Some (k, 1)), (co\<lparr>co_engine := e1\<rparr>, ctx))"
    "send_flow_op (coordinator_link put now) MT_ADMIT k 1 (co\<lparr>co_engine := e1\<rparr>, ctx) = (Some True, (co\<lparr>co_engine := e2\<rparr>, ctx))"
    "do_start (coordinator_link put now) g k 1 (co\<lparr>co_engine := e2\<rparr>, ctx) = (Some True, (co\<lparr>co_engine := e3\<rparr>, ctx))"
    using e(1-3) by (simp_all add: declare_stub [OF assms(2)] flow_stubs Let_def flow_ref_def)
  with m e(4,5) show ?thesis by auto
qed

lemma open_flow_succeeds:
  assumes "args_ok g" "engine_inv (co_engine co)" "declare_allowed (worker_options MP_REPORTED g did dgen) (co_engine co)"
    and "next_flow_free (co_engine co)" "ctx = \<lparr>ctx_wid = Id (g_worker g), ctx_boot = Generation (g_boot g)\<rparr>"
    and "domain_of (co_engine co) (Id did) = Some d" "k = cf_next_flow (co_engine co)"
  shows "\<exists>co1 d1. open_flow (coordinator_link put now) g did dgen (co, ctx) = (Some (Some k), (co1, ctx)) \<and>
    cf_flows (co_engine co1) = cf_flows (co_engine co) @ [(Id k, opened_flow MP_REPORTED now g did dgen k)] \<and>
    cf_worker_boot (co_engine co1) = cf_worker_boot (co_engine co) \<and> domain_of (co_engine co1) (Id did) = Some d1 \<and> d_flows d1 = d_flows d @ [flow_ref k 1] \<and>
    d_offered_bps d1 = g_offered g \<and> d_serviced_bps d1 = g_serviced g"
  using flow_opens [OF assms(1) named_provenances(1) assms(2-), of put now]
  by (auto simp: open_flow_def do_declare_def do_measure_def step_or_def)

text \<open>Hanging up fences the worker that is registered in the session: its open flow becomes stale with the bytes it has,
  flows of other owners stay as they are.\<close>

lemma hangup_parks:
  assumes "um_find (cf_worker_boot (co_engine co)) w = Some b" "id_valid w" "ctx = \<lparr>ctx_wid = w, ctx_boot = b\<rparr>"
    and "flow_of (co_engine co) k = Some f"
  shows "fl_owner_worker f = w \<Longrightarrow> fl_owner_boot f = b \<Longrightarrow> fl_state f = FS_ACTIVE \<Longrightarrow>
      flow_of (co_engine (end_session ctx co)) k = Some (f\<lparr>fl_state := FS_STALE\<rparr>)"
    "\<not> (fl_owner_worker f = w \<and> fl_owner_boot f = b) \<Longrightarrow> flow_of (co_engine (end_session ctx co)) k = Some f"
    "um_find (cf_worker_boot (co_engine (end_session ctx co))) w = Some (gen_next b)"
  using assms by (auto simp: end_session_def fence_worker_def flow_of_def fence_flow_def flow_terminal_def flow_state_preds)

text \<open>Where the new flow stands among the others.\<close>

lemma flow_appended:
  assumes "next_flow_free e" "k = cf_next_flow e" "cf_flows e1 = cf_flows e @ [(Id k, f)]"
  shows "flow_of e1 (Id k) = Some f" "flow_of e i = Some h \<Longrightarrow> flow_of e1 i = Some h"
  using assms by (auto simp: flow_of_def next_flow_free_def um_find_append um_find_Cons)

text \<open>The engine accepts the worker and its source, and a new domain and flow fit.\<close>

definition newcomer :: "WorkerArgs \<Rightarrow> CongestionFabric \<Rightarrow> bool" where
  "newcomer g e \<longleftrightarrow>
     (case um_find (cf_worker_boot e) (Id (g_worker g)) of None \<Rightarrow> True | Some b \<Rightarrow> genv b < g_boot g) \<and>
     (case um_find (cf_source_boot e) (Id (g_source g)) of None \<Rightarrow> True | Some b \<Rightarrow> genv b < g_sboot g) \<and>
     next_flow_free e \<and> cf_active_flows e < max_active_flows (cf_limits e)"

definition domain_fits :: "CongestionFabric \<Rightarrow> bool" where
  "domain_fits e \<longleftrightarrow> length (cf_domains e) < unat (max_domains (cf_limits e)) \<and> cf_next_domain e \<noteq> 0 \<and>
     um_find (cf_domains e) (Id (cf_next_domain e)) = None"

abbreviation enrolled :: "WorkerArgs \<Rightarrow> CongestionFabric \<Rightarrow> CongestionFabric" where
  "enrolled g e \<equiv> e\<lparr>cf_worker_boot := um_assign (cf_worker_boot e) (Id (g_worker g)) (Generation (g_boot g)),
     cf_source_boot := um_assign (cf_source_boot e) (Id (g_source g)) (Generation (g_sboot g))\<rparr>"

lemma register_accepted:
  assumes "args_ok g" "newcomer g (co_engine co)"
  shows "do_register (coordinator_link put now) g (co, ctx) = (Some True, (co\<lparr>co_engine := enrolled g (co_engine co)\<rparr>,
      \<lparr>ctx_wid = Id (g_worker g), ctx_boot = Generation (g_boot g)\<rparr>))"
  using assms
  by (auto simp: register_stub Let_def args_ok_def newcomer_def register_worker_def register_source_def id_valid_def
      gen_valid_def split: option.splits)

lemma enrolled_inv: "engine_inv e \<Longrightarrow> engine_inv (enrolled g e)"
  by (auto simp: engine_inv_def um_wf_def um_assign_def distinct_update)

lemma domain_created:
  assumes "fin_nonneg (g_capacity g)" "domain_fits e"
  shows "\<exists>e1 d. create_domain kind (worker_capacity g) e = (EntityRef (Id (cf_next_domain e)) (Generation 1), e1) \<and>
    domain_of e1 (Id (cf_next_domain e)) = Some d \<and> d_flows d = [] \<and> cf_flows e1 = cf_flows e \<and> cf_next_flow e1 = cf_next_flow e \<and>
    cf_worker_boot e1 = cf_worker_boot e \<and> cf_source_boot e1 = cf_source_boot e \<and>
    cf_active_flows e1 = cf_active_flows e \<and> cf_limits e1 = cf_limits e"
  using assms worker_capacity_valid [of g]
  by (simp add: domain_fits_def create_domain_def Let_def um_emplace_fresh um_find_append um_find_Cons domain_of_def
      default_domain_def)

lemma driven:
  assumes "args_ok g" "engine_inv (co_engine co)" "newcomer g (co_engine co)" "domain_fits (co_engine co)"
    and "did = cf_next_domain (co_engine co)" "k = cf_next_flow (co_engine co)"
  shows "\<exists>co1 f d. drive (coordinator_link put now) g (co, ctx) = ((Some (did, 1), Some (Some k)), (co1,
      \<lparr>ctx_wid = Id (g_worker g), ctx_boot = Generation (g_boot g)\<rparr>)) \<and>
    um_find (cf_worker_boot (co_engine co1)) (Id (g_worker g)) = Some (Generation (g_boot g)) \<and>
    cf_flows (co_engine co1) = cf_flows (co_engine co) @ [(Id k, f)] \<and> fl_state f = FS_ACTIVE \<and>
    in_flight_bytes f = ByteCounter (g_bytes g) \<and> flow_owner f = (Id (g_worker g), Generation (g_boot g), Id (g_source g), Generation (g_sboot g)) \<and>
    domain_of (co_engine co1) (Id did) = Some d \<and> d_flows d = [flow_ref k 1] \<and>
    d_offered_bps d = g_offered g \<and> d_serviced_bps d = g_serviced g"
proof -
  let ?ctx = "\<lparr>ctx_wid = Id (g_worker g), ctx_boot = Generation (g_boot g)\<rparr> :: Context"
  let ?e = "enrolled g (co_engine co)"
  obtain e1 d where e1: "create_domain DK_NETWORK_PATH (worker_capacity g) ?e = (EntityRef (Id did) (Generation 1), e1)"
      "domain_of e1 (Id did) = Some d" "d_flows d = []" "cf_flows e1 = cf_flows ?e" "cf_next_flow e1 = k"
      "cf_worker_boot e1 = cf_worker_boot ?e" "cf_source_boot e1 = cf_source_boot ?e"
      "cf_active_flows e1 = cf_active_flows ?e" "cf_limits e1 = cf_limits ?e"
    using domain_created [of g ?e DK_NETWORK_PATH] assms(1,4-6) by (auto simp: domain_fits_def args_ok_def)
  have inv: "engine_inv e1" using step_inv [OF good_create_domain enrolled_inv [OF assms(2)]] e1(1) by (metis snd_conv)
  have "declare_allowed (worker_options MP_REPORTED g did 1) e1" "next_flow_free e1"
    using assms(1,3-6) e1 by (simp_all add: declare_allowed_def worker_options_def args_ok_def newcomer_def id_valid_def
        gen_valid_def domain_fits_def domain_of_def next_flow_free_def not_le)
  then obtain co1 d1 where o: "open_flow (coordinator_link put now) g did 1 (co\<lparr>co_engine := e1\<rparr>, ?ctx) = (Some (Some k), (co1, ?ctx))"
      "cf_flows (co_engine co1) = cf_flows (co_engine co) @ [(Id k, opened_flow MP_REPORTED now g did 1 k)]"
      "cf_worker_boot (co_engine co1) = cf_worker_boot e1" "domain_of (co_engine co1) (Id did) = Some d1" "d_flows d1 = [flow_ref k 1]" "d_offered_bps d1 = g_offered g"
      "d_serviced_bps d1 = g_serviced g"
    using open_flow_succeeds [OF assms(1), of "co\<lparr>co_engine := e1\<rparr>" did 1 ?ctx d k put now] inv e1(2-5) by auto
  have "drive (coordinator_link put now) g (co, ctx) = ((Some (did, 1), Some (Some k)), (co1, ?ctx))"
    using register_accepted [OF assms(1,3), of put now ctx] e1(1) o(1) assms(4,5)
    by (simp add: drive_def do_create_def create_stub named_kind Let_def id_valid_def domain_fits_def)
  moreover have "um_find (cf_worker_boot (co_engine co1)) (Id (g_worker g)) = Some (Generation (g_boot g))" using o(3) e1(6) by simp
  ultimately show ?thesis using o by (auto simp: flow_owner_def opened_with_def flow_of_options_def worker_options_def)
qed

text \<open>The drive scenario succeeds whenever the coordinator has room and the worker's boots are new
  to it: it ends with a new domain and a new active flow that has every submitted byte in flight and is bound
  to the domain, with the worker's rates as the domain's evidence, and the other flows are untouched.\<close>

theorem drive_succeeds:
  assumes "args_ok g" "engine_inv (co_engine co)" "newcomer g (co_engine co)" "domain_fits (co_engine co)"
    and "did = cf_next_domain (co_engine co)" "k = cf_next_flow (co_engine co)"
  shows "\<exists>co1 ctx1 f d. drive (coordinator_link put now) g (co, ctx) = ((Some (did, 1), Some (Some k)), (co1, ctx1)) \<and>
    cf_flows (co_engine co1) = cf_flows (co_engine co) @ [(Id k, f)] \<and> fl_state f = FS_ACTIVE \<and>
    in_flight_bytes f = ByteCounter (g_bytes g) \<and> fl_owner_worker f = Id (g_worker g) \<and>
    domain_of (co_engine co1) (Id did) = Some d \<and> d_flows d = [flow_ref k 1] \<and>
    d_offered_bps d = g_offered g \<and> d_serviced_bps d = g_serviced g"
  using driven [OF assms, of put now ctx] unfolding flow_owner_def by blast

section \<open>Witnesses\<close>

definition sample_args :: WorkerArgs where
  "sample_args = \<lparr>g_worker = 1, g_boot = 1, g_source = 1, g_sboot = 1, g_domain = 1, g_dgen = 1, g_bytes = 1000,
     g_class = 3, g_delta = 10, g_offered = d_one, g_serviced = d_one, g_capacity = d_one,
     g_idfile = ''ids'', g_path = ''state''\<rparr>"

theorem replay_rejected_witness:
  "\<exists>co st. replay (coordinator_link sample_put 9) sample_args (co, no_context) = (Some True, st)"
proof -
  obtain e1 where e1: "fence_worker (Id 1) (Generation 1) sample_active = (True, e1)"
    using sample_co_boot by (simp add: fence_worker_def sample_co_def id_valid_def)
  have args: "g_worker sample_args = 1" "g_boot sample_args = 1" "g_domain sample_args = 1" by (simp_all add: sample_args_def)
  from replay_rejected [where g = sample_args and co = "\<lparr>co_engine = e1, co_stop = False, co_disk = ()\<rparr>" and put = sample_put
      and now = 9 and ctx = no_context and e = sample_active and ?e1.0 = e1 and f = sample_flow]
  show ?thesis using sample_inv(5) e1 session.refl [of e1] sample_flow_of sample_flow_owner by (auto simp: args)
qed

lemma sample_args_ok: "args_ok sample_args"
  by (simp add: args_ok_def sample_args_def fin_nonneg_def dkey_d_one worker_measurement_def measurement_valid_def
      default_measurement_def double_eval d_one_def)

theorem drive_succeeds_witness:
  "\<exists>st. drive (coordinator_link sample_put 9) sample_args (\<lparr>co_engine = new_fabric default_limits, co_stop = False, co_disk = ()\<rparr>, no_context) =
     ((Some (1, 1), Some (Some 1)), st)"
proof -
  let ?co = "\<lparr>co_engine = new_fabric default_limits, co_stop = False, co_disk = ()\<rparr>"
  have "engine_inv (co_engine ?co)" "newcomer sample_args (co_engine ?co)" "domain_fits (co_engine ?co)"
    using new_fabric_inv by (simp_all add: newcomer_def next_flow_free_def domain_fits_def new_fabric_def default_limits_def)
  from drive_succeeds [OF sample_args_ok this, of 1 1 sample_put 9 no_context] show ?thesis
    by (auto simp: new_fabric_def)
qed

end
