(* ===== verification/AnalysisProps.thy ===== *)
theory AnalysisProps
  imports Runs
begin

text \<open>
  Correctness of the analysis functions: the score of an assessment is a number between zero and
  one, aggregates count exactly the flows they stand for, episodes open and close with the
  congestion and their history is bounded, and the bottleneck is the domain under the highest
  pressure.
\<close>

section \<open>Non-negative doubles\<close>

definition nn :: "double \<Rightarrow> bool" where
  "nn x \<longleftrightarrow> \<not> isnan x \<and> 0 \<le> dkey x"

lemma dadd_nn: "nn x \<Longrightarrow> nn y \<Longrightarrow> nn (dadd x y)"
proof (cases "isfinite x \<and> isfinite y")
  case True
  assume "nn x" "nn y"
  then have "0 \<le> dval x + dval y" using True dval_nonneg [of x] dval_nonneg [of y] by (simp add: nn_def)
  then have "0 \<le> srnd (dval x + dval y)" using srnd_mono [of 0 "dval x + dval y"] by simp
  then show ?thesis using True dkey_dadd [of x y] dadd_not_nan [of x y] by (simp add: nn_def)
next
  case False
  assume x: "nn x" and y: "nn y"
  have inf: "isinf z \<and> \<not> dneg z" if "nn z" "\<not> isfinite z" for z
    using that by (auto simp: nn_def isnan_def isinf_def isfinite_def dkey_def inf_mag_def split: if_splits)
  show ?thesis
    using False x y inf [of x] inf [of y] by (auto simp: dadd_def nn_def isinf_def isfinite_def)
qed

lemma dclamp_unit:
  assumes "\<not> isnan v"
  shows "nn (dclamp v 0 d_one)" "dkey (dclamp v 0 d_one) \<le> dkey d_one" "isfinite (dclamp v 0 d_one)"
proof -
  have one: "0 \<le> dkey d_one" by (simp add: dkey_d_one)
  show "nn (dclamp v 0 d_one)" "dkey (dclamp v 0 d_one) \<le> dkey d_one"
    using assms one by (auto simp: dclamp_def nn_def dlt_def)
  then show "isfinite (dclamp v 0 d_one)" using isfinite_d_one by (auto simp: isfinite_dkey nn_def)
qed

lemma dclamp_nan: "isnan v \<Longrightarrow> dclamp v 0 d_one = v"
  by (simp add: dclamp_def dlt_def)

lemma dmul_nn: "nn x \<Longrightarrow> isfinite x \<Longrightarrow> nn y \<Longrightarrow> isfinite y \<Longrightarrow> nn (dmul x y)"
  using dmul_nonneg_key [of x y] by (auto simp: nn_def dmul_def)

lemma weights_nn: "nn 0x3FD999999999999A" "isfinite 0x3FD999999999999A" "nn 0x3FC999999999999A"
    "isfinite 0x3FC999999999999A" "nn 0"
  by (simp_all add: nn_def double_eval)

lemma double_of_u64_fin: "isfinite (double_of_u64 n)" "0 \<le> dkey (double_of_u64 n)"
proof -
  have "unat n * 2 ^ 1074 \<le> 2 ^ 64 * 2 ^ 1074" using unat_u64_bound [of n] by (intro mult_le_mono1) simp
  also have "\<dots> = vmag (1087 * 2 ^ 52)" by (simp add: vmag_def power_add [symmetric] del: power_numeral)
  finally have "rmag (unat n * 2 ^ 1074) 1 \<le> 1087 * 2 ^ 52"
    by (intro ieee.rnd_le_code) (simp_all add: inf_mag_def)
  then show "isfinite (double_of_u64 n)" by (simp add: double_of_u64_def isfinite_def inf_mag_def)
  show "0 \<le> dkey (double_of_u64 n)" by (simp add: double_of_u64_def dkey_mk)
qed

section \<open>Score and classification\<close>

lemma ddiv_not_nan_pos: "isfinite x \<Longrightarrow> isfinite y \<Longrightarrow> dlt 0 y \<Longrightarrow> \<not> isnan (ddiv x y)"
  by (intro ddiv_not_nan pos_dmag) (simp_all add: dlt_def)

lemma ddiv_not_nan_num: "isfinite x \<Longrightarrow> dlt 0 x \<Longrightarrow> isfinite y \<Longrightarrow> \<not> isnan (ddiv x y)"
  using pos_dmag [of x] by (auto simp: ddiv_def dlt_def) (simp add: isnan_def inf_mag_def)

lemma dsub_nonneg_fin:
  assumes "isfinite a" "isfinite b" "0 \<le> dkey a" "0 \<le> dkey b"
  shows "isfinite (dsub a b)"
proof -
  have "srnd (dval (dneg_of b)) \<le> srnd (dval a - dval b)"
    using dval_nonneg [OF assms(3,1)] by (intro srnd_mono) simp
  then have "- dkey b \<le> dkey (dsub a b)"
    using srnd_dval [of "dneg_of b"] assms by (simp add: dkey_dsub)
  moreover have "dkey (dsub a b) \<le> dkey a" using dsub_le assms by blast
  ultimately show ?thesis using assms by (auto simp: isfinite_dkey)
qed

lemma score_unit:
  assumes "\<not> isnan sat" "\<not> isnan serv" "isfinite eff" "\<not> isnan deficit"
    and "dlt 0 deficit \<Longrightarrow> \<not> isnan (ddiv deficit eff)"
  shows "nn (score_of eff sat serv deficit q) \<and> dkey (score_of eff sat serv deficit q) \<le> dkey d_one"
proof -
  have q: "\<not> isnan (ddiv (double_of_u64 q) (if dlt 0 eff then eff else d_one))"
    using assms(3) double_of_u64_fin [of q] ddiv_not_nan_pos [of "double_of_u64 q" eff]
      ddiv_not_nan [of "double_of_u64 q" d_one] by (simp add: dmag_d_one)
  note part = dmul_nn [OF dclamp_unit(1,3) weights_nn(3,4)]
  let ?s3 = "dadd (dadd (dadd 0 (dmul (dclamp sat 0 d_one) 0x3FD999999999999A))
      (dmul (dclamp serv 0 d_one) 0x3FC999999999999A))
      (dmul (dclamp (ddiv (double_of_u64 q) (if dlt 0 eff then eff else d_one)) 0 d_one) 0x3FC999999999999A)"
  have s3: "nn ?s3"
    by (intro dadd_nn dmul_nn dclamp_unit weights_nn assms q)
  let ?s4 = "if dlt 0 deficit then dadd ?s3 (dmul (dclamp (ddiv deficit eff) 0 d_one) 0x3FC999999999999A) else ?s3"
  have "nn ?s4" using s3 dadd_nn [OF s3 part] assms(5) by simp
  then have "\<not> isnan ?s4" unfolding nn_def by blast
  moreover have "score_of eff sat serv deficit q = dclamp ?s4 0 d_one" by (simp only: score_of_def Let_def)
  ultimately show ?thesis using dclamp_unit(1,2) by presburger
qed

text \<open>The score of every assessment of a domain with finite non-negative rates is a number between zero
  and one.\<close>

theorem assessment_score_bounded:
  assumes "isfinite (d_offered_bps d)" "dle 0 (d_offered_bps d)" "isfinite (d_serviced_bps d)" "dle 0 (d_serviced_bps d)"
  shows "dle 0 (as_score (assess_domain d fm)) \<and> dle (as_score (assess_domain d fm)) d_one"
proof -
  have default: "dle 0 0 \<and> dle 0 d_one" by (simp add: double_eval d_one_def)
  have diff: "isfinite (dsub (d_offered_bps d) (d_serviced_bps d))"
    using assms by (intro dsub_nonneg_fin) (auto simp: dle_def)
  show ?thesis
  proof (cases "effective (d_capacity d)")
    case (Some eff)
    have eff: "isfinite eff" using effective_SomeD [OF Some] by (simp add: fin_nonneg_def)
    have "nn (as_score (classify_live d agg fm eff)) \<and> dkey (as_score (classify_live d agg fm eff)) \<le> dkey d_one" for agg
      using score_unit [of "if dlt 0 eff then ddiv (d_offered_bps d) eff else 0"
          "if dlt 0 eff then ddiv (d_serviced_bps d) eff else 0" eff "dsub (d_offered_bps d) (d_serviced_bps d)"]
        assms diff eff ddiv_not_nan_pos ddiv_not_nan_num by (simp add: classify_live_def Let_def)
    then show ?thesis
      using Some default
      by (auto simp: assess_domain_def classify_def default_assessment_def nn_def dle_def)
  qed (use default in \<open>simp add: assess_domain_def classify_def default_assessment_def\<close>)
qed

lemma queue_growing_deficit:
  assumes "dlt 0x3E112E0BE826D695 (dsub a b)" "isfinite a" "isfinite b"
  shows "dlt b a"
proof (rule ccontr)
  assume "\<not> dlt b a"
  then have "dkey a \<le> dkey b" using assms(2,3) by (auto simp: dlt_def)
  then have "dval a \<le> dval b" using assms(2,3) by (simp add: dval_le_iff)
  then have "dkey (dsub a b) \<le> 0"
    using srnd_mono [of "dval a - dval b" 0] assms(2,3) by (simp add: dkey_dsub)
  then show False using assms(1) by (simp add: dlt_def) (simp add: double_eval)
qed

section \<open>Aggregates\<close>

text \<open>The accumulated counters as sums over the flows they stand for.\<close>

definition counted :: "Flow list \<Rightarrow> Flow list" where
  "counted fs = filter (\<lambda>f. \<not> flow_is_stale_or_superseded (fl_state f)) fs"

definition in_flight :: "Flow list \<Rightarrow> Flow list" where
  "in_flight fs = filter (\<lambda>f. fl_state f \<noteq> FS_QUEUED \<and> flow_can_progress (fl_state f)) (counted fs)"

definition queued :: "Flow list \<Rightarrow> Flow list" where
  "queued fs = filter (\<lambda>f. fl_state f = FS_QUEUED) fs"

lemma fold_aggregate:
  "ag_queued_ops (fold aggregate_flow fs a) = ag_queued_ops a + of_nat (length (queued fs))"
  "ag_queued_bytes (fold aggregate_flow fs a) = ag_queued_bytes a + sum_list (map (bc_value \<circ> admitted_bytes) (queued fs))"
  "ag_in_flight_ops (fold aggregate_flow fs a) = ag_in_flight_ops a + of_nat (length (in_flight fs))"
  "ag_in_flight_bytes (fold aggregate_flow fs a) = ag_in_flight_bytes a + sum_list (map (bc_value \<circ> in_flight_bytes) (in_flight fs))"
  "ag_completed_bytes (fold aggregate_flow fs a) = ag_completed_bytes a + sum_list (map (bc_value \<circ> completed_bytes) (counted fs))"
  by (induction fs arbitrary: a)
    (auto simp: aggregate_flow_def queued_def in_flight_def counted_def Let_def flow_state_preds)

text \<open>The aggregate of a domain counts and sums, in 64-bit arithmetic, exactly the queued
  flows, the flows in progress and the current flows among those bound to the domain.\<close>

theorem aggregate_domain_exact:
  "let fs = resolve fm (d_flows d); agg = aggregate_domain d fm
   in ag_queued_ops agg = of_nat (length (queued fs)) \<and>
      ag_queued_bytes agg = (\<Sum>f\<leftarrow>queued fs. bc_value (admitted_bytes f)) \<and>
      ag_in_flight_ops agg = of_nat (length (in_flight fs)) \<and>
      ag_in_flight_bytes agg = (\<Sum>f\<leftarrow>in_flight fs. bc_value (in_flight_bytes f)) \<and>
      ag_completed_bytes agg = (\<Sum>f\<leftarrow>counted fs. bc_value (completed_bytes f))"
  by (simp add: Let_def aggregate_domain_def fold_aggregate default_aggregate_def comp_def)

section \<open>Episodes\<close>

lemma episode_step_open:
  "ep_open (d_current_episode (snd (episode_step l n now st q d))) \<longleftrightarrow> congested_now st"
  by (simp add: episode_step_def Let_def default_episode_def)

lemma episode_step_bound:
  "length (d_episodes d) \<le> unat (max_episode_history_per_domain l) \<Longrightarrow>
   length (d_episodes (snd (episode_step l n now st q d))) \<le> unat (max_episode_history_per_domain l)"
  by (simp add: episode_step_def Let_def)

text \<open>C35: recomputing a domain caches the assessment, opens an episode with a fresh event id exactly
  when congestion starts, keeps it while it lasts, and closes it into the history with the current
  time and the outcome exactly when congestion ends; the history never outgrows its limit.\<close>

theorem recompute_episodes:
  assumes "domain_of e k = Some d" "recompute_domain k now e = (a, e')"
  shows "a = assess_congestion k e \<and> (\<exists>d'. domain_of e' k = Some d' \<and> d_state d' = as_state a \<and>
    (ep_open (d_current_episode d') \<longleftrightarrow> congested_now (as_state a)) \<and>
    (\<not> ep_open (d_current_episode d) \<and> congested_now (as_state a) \<longrightarrow>
       ep_event_id (d_current_episode d') = Id (cf_next_event e) \<and> ep_start_ms (d_current_episode d') = now \<and>
       cf_next_event e' = cf_next_event e + 1) \<and>
    (ep_open (d_current_episode d) \<and> congested_now (as_state a) \<longrightarrow>
       ep_event_id (d_current_episode d') = ep_event_id (d_current_episode d) \<and>
       ep_start_ms (d_current_episode d') = ep_start_ms (d_current_episode d)) \<and>
    (ep_open (d_current_episode d) \<and> \<not> congested_now (as_state a) \<and> 0 < max_episode_history_per_domain (cf_limits e) \<longrightarrow>
       d_episodes d' \<noteq> [] \<and> last (d_episodes d') =
         (d_current_episode d)\<lparr>ep_end_ms := now, ep_outcome := as_state a, ep_open := False\<rparr>) \<and>
    (length (d_episodes d) \<le> unat (max_episode_history_per_domain (cf_limits e)) \<longrightarrow>
       length (d_episodes d') \<le> unat (max_episode_history_per_domain (cf_limits e))))"
proof -
  let ?agg = "aggregate_domain d (cf_flows e)"
  let ?d1 = "d\<lparr>d_state := as_state a, d_state_provenance := as_provenance a\<rparr>"
  let ?s = "episode_step (cf_limits e) (cf_next_event e) now (as_state a) (ag_queued_bytes ?agg) ?d1"
  have a: "a = assess_congestion k e"
    using assms by (auto simp: recompute_domain_def assess_congestion_def assess_domain_def domain_of_def Let_def
        split: prod.splits)
  then have ac: "a = classify d ?agg (cf_flows e) (needs_revalidation d)"
    using assms(1) by (simp add: assess_congestion_def assess_domain_def domain_of_def)
  have e': "e' = (set_domain e k (snd ?s))\<lparr>cf_next_event := (if fst ?s then cf_next_event e + 1 else cf_next_event e)\<rparr>"
    using assms by (simp add: recompute_domain_def domain_of_def Let_def ac case_prod_unfold)
  have d': "domain_of e' k = Some (snd ?s)" by (simp add: e' domain_of_def)
  have hist: "d_episodes (snd ?s) \<noteq> [] \<and> last (d_episodes (snd ?s)) =
      (d_current_episode d)\<lparr>ep_end_ms := now, ep_outcome := as_state a, ep_open := False\<rparr>"
    if "ep_open (d_current_episode d)" "\<not> congested_now (as_state a)" "0 < max_episode_history_per_domain (cf_limits e)"
  proof -
    have "0 < unat (max_episode_history_per_domain (cf_limits e))" using that(3) by (simp add: unat_gt_0 word_gt_0)
    then show ?thesis
      using that(1,2) by (cases "d_episodes d") (auto simp: episode_step_def Let_def last_tl)
  qed
  have rest: "d_state (snd ?s) = as_state a"
    "\<not> ep_open (d_current_episode d) \<and> congested_now (as_state a) \<longrightarrow>
       ep_event_id (d_current_episode (snd ?s)) = Id (cf_next_event e) \<and> ep_start_ms (d_current_episode (snd ?s)) = now \<and> fst ?s"
    "ep_open (d_current_episode d) \<and> congested_now (as_state a) \<longrightarrow>
       ep_event_id (d_current_episode (snd ?s)) = ep_event_id (d_current_episode d) \<and>
       ep_start_ms (d_current_episode (snd ?s)) = ep_start_ms (d_current_episode d)"
    by (simp_all add: episode_step_keeps episode_step_def Let_def)
  show ?thesis
    using a d' rest hist episode_step_open [of "cf_limits e" "cf_next_event e" now "as_state a" "ag_queued_bytes ?agg" ?d1]
      episode_step_bound [of ?d1 "cf_limits e" "cf_next_event e" now "as_state a" "ag_queued_bytes ?agg"]
    by (simp add: e')
qed

text \<open>An assessment reads only these fields of a domain.\<close>

lemma assess_domain_cong:
  assumes "d_capacity d' = d_capacity d" "d_flows d' = d_flows d" "d_measurements d' = d_measurements d"
    and "d_offered_bps d' = d_offered_bps d" "d_serviced_bps d' = d_serviced_bps d"
    and "d_offered_provenance d' = d_offered_provenance d" "d_serviced_provenance d' = d_serviced_provenance d"
    and "needs_revalidation d' = needs_revalidation d"
  shows "assess_domain d' fm = assess_domain d fm"
proof -
  have "aggregate_domain d' fm = aggregate_domain d fm" using assms by (simp add: aggregate_domain_def)
  moreover have "classify_live d' = classify_live d" "no_traffic d' = no_traffic d"
    by (intro ext, simp only: classify_live_def no_traffic_def starvation_def latency_inflation_def
        merged_provenance_def assms)+
  ultimately show ?thesis by (simp only: assess_domain_def classify_def assms)
qed

lemma assess_state_revalidation:
  "as_state (assess_domain d fm) \<in> {CS_REVALIDATION_REQUIRED, CS_STALE} \<longleftrightarrow> needs_revalidation d"
  by (auto simp: assess_domain_def classify_def classify_live_def pick_state_def default_assessment_def Let_def
      split: option.splits)

lemma episode_step_frame:
  "d_capacity (snd (episode_step l n now st q d)) = d_capacity d"
  "d_flows (snd (episode_step l n now st q d)) = d_flows d"
  "d_measurements (snd (episode_step l n now st q d)) = d_measurements d"
  "d_offered_bps (snd (episode_step l n now st q d)) = d_offered_bps d"
  "d_serviced_bps (snd (episode_step l n now st q d)) = d_serviced_bps d"
  "d_offered_provenance (snd (episode_step l n now st q d)) = d_offered_provenance d"
  "d_serviced_provenance (snd (episode_step l n now st q d)) = d_serviced_provenance d"
  "d_state (snd (episode_step l n now st q d)) = d_state d"
  by (simp_all add: episode_step_def Let_def)

text \<open>Recomputing a domain, which rewrites its cached state and its episodes, never changes
  what any domain is assessed as: evaluating congestion does not feed back into the evaluation.\<close>

theorem recompute_stable:
  "assess_congestion j (snd (recompute_domain k now e)) = assess_congestion j e"
proof (cases "um_find (cf_domains e) k")
  case (Some d)
  let ?a = "assess_domain d (cf_flows e)"
  let ?s = "episode_step (cf_limits e) (cf_next_event e) now (as_state ?a)
     (ag_queued_bytes (aggregate_domain d (cf_flows e))) (d\<lparr>d_state := as_state ?a, d_state_provenance := as_provenance ?a\<rparr>)"
  have "assess_domain (snd ?s) (cf_flows e) = ?a"
    by (rule assess_domain_cong)
      (use assess_state_revalidation [of d "cf_flows e"] in \<open>auto simp: episode_step_frame needs_revalidation_def\<close>)
  then show ?thesis
    using Some
    by (simp add: recompute_domain_def assess_congestion_def assess_domain_def [symmetric] Let_def case_prod_unfold
        split: option.split)
qed (simp add: recompute_domain_def)

section \<open>Bottleneck\<close>

text \<open>The state of the search after a prefix of the path.\<close>

definition bottleneck_inv :: "CongestionFabric \<Rightarrow> CongestionDomainId list \<Rightarrow> BottleneckResult \<Rightarrow> bool" where
  "bottleneck_inv e ks best \<longleftrightarrow> \<not> isnan (bn_deficit_bps best) \<and>
     (\<forall>k\<in>set ks. \<forall>d. um_find (cf_domains e) k = Some d \<longrightarrow>
        dkey (pressure d (cf_flows e)) \<le> max (-1) (dkey (bn_deficit_bps best))) \<and>
     (0 \<le> dkey (bn_deficit_bps best) \<longrightarrow> (\<exists>k\<in>set ks. \<exists>d. um_find (cf_domains e) k = Some d \<and>
        bn_domain best = d_ref d \<and> bn_deficit_bps best = pressure d (cf_flows e)))"

lemma bottleneck_step_inv:
  assumes "bottleneck_inv e ks best"
    and "\<And>d. um_find (cf_domains e) k = Some d \<Longrightarrow> \<not> isnan (pressure d (cf_flows e))"
  shows "bottleneck_inv e (ks @ [k]) (bottleneck_step e k best)"
proof (cases "um_find (cf_domains e) k")
  case (Some d)
  let ?p = "pressure d (cf_flows e)"
  have p: "\<not> isnan ?p" using assms(2) Some by simp
  show ?thesis
  proof (cases "dlt (bn_deficit_bps best) ?p \<or> dlt (bn_deficit_bps best) 0")
    case True
    have "max (-1) (dkey (bn_deficit_bps best)) \<le> max (-1) (dkey ?p)"
      using True by (auto simp: dlt_def)
    then show ?thesis
      using assms(1) Some True p by (fastforce simp: bottleneck_inv_def bottleneck_step_def Let_def)
  next
    case False
    then have "dkey ?p \<le> dkey (bn_deficit_bps best)" using assms(1) p by (auto simp: bottleneck_inv_def dlt_def)
    moreover have "bottleneck_step e k best = best" using Some False by (simp add: bottleneck_step_def Let_def)
    ultimately show ?thesis
      using assms(1) Some by (auto simp: bottleneck_inv_def)
  qed
qed (use assms(1) in \<open>auto simp: bottleneck_inv_def bottleneck_step_def\<close>)

lemma bottleneck_fold_inv:
  assumes "bottleneck_inv e ks best"
    and "\<And>k d. k \<in> set js \<Longrightarrow> um_find (cf_domains e) k = Some d \<Longrightarrow> \<not> isnan (pressure d (cf_flows e))"
  shows "bottleneck_inv e (ks @ js) (fold (bottleneck_step e) js best)"
  using assms
proof (induction js arbitrary: ks best)
  case (Cons j js)
  have "bottleneck_inv e (ks @ [j]) (bottleneck_step e j best)"
    by (rule bottleneck_step_inv [OF Cons.prems(1)]) (rule Cons.prems(2) [of j], simp_all)
  from Cons.IH [OF this] have "bottleneck_inv e ((ks @ [j]) @ js) (fold (bottleneck_step e) js (bottleneck_step e j best))"
    by (rule meta_mp) (rule Cons.prems(2), simp_all)
  then show ?case by simp
qed simp

text \<open>C36: the identified bottleneck is a domain of the path whose pressure (load deficit plus
  backlog) is the highest, whenever some domain of the path is under non-negative pressure.\<close>

theorem bottleneck_is_maximal:
  assumes "\<And>k d. k \<in> set path \<Longrightarrow> domain_of e k = Some d \<Longrightarrow> \<not> isnan (pressure d (cf_flows e))"
    and "j \<in> set path" "domain_of e j = Some c" "dle 0 (pressure c (cf_flows e))"
  shows "\<exists>k\<in>set path. \<exists>d. domain_of e k = Some d \<and> bn_domain (identify_bottleneck path e) = d_ref d \<and>
    bn_deficit_bps (identify_bottleneck path e) = pressure d (cf_flows e) \<and>
    (\<forall>i\<in>set path. \<forall>b. domain_of e i = Some b \<longrightarrow> dle (pressure b (cf_flows e)) (pressure d (cf_flows e)))"
proof -
  let ?start = "default_bottleneck\<lparr>bn_domain := EntityRef (Id 0) (Generation 0), bn_deficit_bps := 0xBFF0000000000000\<rparr>"
  let ?best = "fold (bottleneck_step e) path ?start"
  have "bottleneck_inv e [] ?start" by (simp add: bottleneck_inv_def double_eval)
  from bottleneck_fold_inv [OF this, of path] have "bottleneck_inv e ([] @ path) ?best"
    by (rule meta_mp) (rule assms(1), simp_all add: domain_of_def)
  then have inv: "bottleneck_inv e path ?best" by simp
  have "0 \<le> dkey (pressure c (cf_flows e))" using assms(4) by (simp add: dle_def)
  moreover have "dkey (pressure c (cf_flows e)) \<le> max (-1) (dkey (bn_deficit_bps ?best))"
    using inv assms(2,3) by (auto simp: bottleneck_inv_def domain_of_def)
  ultimately have nonneg: "0 \<le> dkey (bn_deficit_bps ?best)" by linarith
  then have same: "identify_bottleneck path e = ?best"
    by (auto simp: identify_bottleneck_def Let_def dlt_def)
  obtain k d where kd: "k \<in> set path" "um_find (cf_domains e) k = Some d" "bn_domain ?best = d_ref d"
      "bn_deficit_bps ?best = pressure d (cf_flows e)"
    using inv nonneg by (auto simp: bottleneck_inv_def)
  have "dle (pressure b (cf_flows e)) (pressure d (cf_flows e))" if "i \<in> set path" "domain_of e i = Some b" for i b
  proof -
    have "dkey (pressure b (cf_flows e)) \<le> max (-1) (dkey (bn_deficit_bps ?best))"
      using inv that by (auto simp: bottleneck_inv_def domain_of_def)
    then show ?thesis using nonneg kd assms(1) [OF that] assms(1) [OF kd(1)] by (auto simp: dle_def domain_of_def)
  qed
  then show ?thesis using kd same by (auto simp: domain_of_def)
qed

section \<open>Witnesses\<close>

text \<open>The domain of the sample engine once its load has been published.\<close>

definition measured_domain :: CongestionDomain where
  "measured_domain = sample_domain\<lparr>d_flows := [sample_ref],
     d_measurements := empty_measurements[0 := sample_offered], d_offered_bps := 0x4197D78400000000,
     d_offered_provenance := MP_MEASURED, d_offered_owner := Id 1, d_offered_owner_boot := Generation 1\<rparr>"

lemma measured_domain_of: "domain_of sample_measured (Id 1) = Some measured_domain"
  by (simp add: measured_domain_def sample_measured_eval)

lemma measured_domain_fields [simp]:
  "d_offered_bps measured_domain = 0x4197D78400000000" "d_serviced_bps measured_domain = 0"
  "d_capacity measured_domain = sample_capacity" "d_state measured_domain = CS_UNKNOWN"
  "d_ref measured_domain = EntityRef (Id 1) (Generation 1)" "d_episodes measured_domain = []"
  "d_current_episode measured_domain = default_episode" "d_flows measured_domain = [sample_ref]"
  by (simp_all add: measured_domain_def sample_domain_def default_domain_def)

lemma measured_rates: "isfinite 0x4197D78400000000" "dle 0 0x4197D78400000000" "dle 0 0" "0 \<le> dkey 0x4197D78400000000"
  by (simp_all add: double_eval)

theorem assessment_score_bounded_witness:
  "dle 0 (as_score (assess_domain measured_domain (cf_flows sample_measured))) \<and>
   dle (as_score (assess_domain measured_domain (cf_flows sample_measured))) d_one"
  by (rule assessment_score_bounded) (simp_all add: measured_rates)

theorem recompute_episodes_witness:
  "\<exists>a e' d'. recompute_domain (Id 1) 9 sample_measured = (a, e') \<and> domain_of e' (Id 1) = Some d' \<and>
     d_state d' = as_state a \<and> (ep_open (d_current_episode d') \<longleftrightarrow> congested_now (as_state a))"
proof -
  obtain a e' where r: "recompute_domain (Id 1) 9 sample_measured = (a, e')" by fastforce
  then show ?thesis using recompute_episodes [OF measured_domain_of r] by blast
qed

theorem bottleneck_is_maximal_witness:
  "bn_domain (identify_bottleneck [Id 1] sample_measured) = EntityRef (Id 1) (Generation 1)"
proof -
  have "isfinite (dsub 0x4197D78400000000 0)" "0 \<le> dkey (dsub 0x4197D78400000000 0)"
    using measured_rates by (auto intro!: dsub_nonneg_fin dsub_nonneg)
  then have "nn (pressure measured_domain (cf_flows sample_measured))"
    unfolding pressure_def measured_domain_fields by (intro dadd_nn) (simp_all add: nn_def double_of_u64_fin)
  then have p: "\<not> isnan (pressure measured_domain (cf_flows sample_measured))"
      "dle 0 (pressure measured_domain (cf_flows sample_measured))"
    by (simp_all add: nn_def dle_def)
  have "\<not> isnan (pressure d (cf_flows sample_measured))"
    if "k \<in> set [Id 1]" "domain_of sample_measured k = Some d" for k d
    using that p(1) measured_domain_of by simp
  from bottleneck_is_maximal [of "[Id 1]", OF this _ measured_domain_of p(2)]
  show ?thesis using measured_domain_of by auto
qed

end
