(* ===== verification/ControlProps.thy ===== *)
theory ControlProps
  imports AnalysisProps
begin

text \<open>
  Correctness of the control side of the engine: backpressure is asked for exactly where a domain at
  or beyond saturation is offered more than it services, it names the live flow with the most bytes
  in flight, local shaping installs a valid bucket within the capacity and touches nothing else, and
  fairness targets stay within the capacity.
\<close>

section \<open>Deficits\<close>

lemma srnd_pos_iff: "0 < srnd v \<longleftrightarrow> 0 < v"
proof -
  have one: "isfinite 1" "dval 1 = 1" "dkey 1 = 1"
    by (simp_all add: double_eval dval_def vmag_def)
  have "0 < srnd v" if "0 < v"
    using srnd_mono [of 1 v] srnd_dval [OF one(1)] one that by simp
  moreover have "srnd v \<le> 0" if "\<not> 0 < v" using srnd_mono [of v 0] that by simp
  ultimately show ?thesis by fastforce
qed

lemma dsub_pos_iff:
  assumes "isfinite a" "isfinite b"
  shows "dlt 0 (dsub a b) \<longleftrightarrow> dlt b a" "dle (dsub a b) 0 \<longleftrightarrow> \<not> dlt b a"
proof -
  have "0 < dkey (dsub a b) \<longleftrightarrow> dkey b < dkey a"
    using dval_le_iff [OF assms] by (auto simp: dkey_dsub assms srnd_pos_iff)
  then show "dlt 0 (dsub a b) \<longleftrightarrow> dlt b a" "dle (dsub a b) 0 \<longleftrightarrow> \<not> dlt b a"
    using dsub_not_nan [OF assms] assms by (auto simp: dlt_def dle_def)
qed

section \<open>Backpressure\<close>

text \<open>The scan for the largest in-flight flow, after a prefix of the list.\<close>

definition dominant_inv :: "Flow list \<Rightarrow> u64 \<times> Flow option \<Rightarrow> bool" where
  "dominant_inv seen acc \<longleftrightarrow> (case snd acc of
     None \<Rightarrow> fst acc = 0 \<and> (\<forall>h\<in>set seen. bc_value (in_flight_bytes h) = 0)
   | Some f \<Rightarrow> f \<in> set seen \<and> fst acc = bc_value (in_flight_bytes f) \<and> 0 < fst acc \<and>
       (\<forall>h\<in>set seen. bc_value (in_flight_bytes h) \<le> fst acc))"

lemma dominant_step_inv:
  assumes "dominant_inv seen acc"
  shows "dominant_inv (seen @ [f]) (dominant_step f acc)"
proof (cases "bc_value (in_flight_bytes f) > fst acc")
  case True
  then have "0 < bc_value (in_flight_bytes f)" by (metis word_gt_0 word_not_simps(1))
  then show ?thesis
    using assms True
    by (cases acc; cases "snd acc") (auto simp: dominant_inv_def dominant_step_def intro: order_trans less_imp_le)
next
  case False
  then show ?thesis
    using assms by (cases acc; cases "snd acc") (auto simp: dominant_inv_def dominant_step_def word_gt_0 not_less)
qed

lemma dominant_fold: "dominant_inv seen acc \<Longrightarrow> dominant_inv (seen @ fs) (fold dominant_step fs acc)"
  by (induction fs arbitrary: acc seen) (use dominant_step_inv in fastforce)+

lemma dominant_flow_max:
  "case dominant_flow fs of None \<Rightarrow> \<forall>h\<in>set fs. bc_value (in_flight_bytes h) = 0
   | Some f \<Rightarrow> f \<in> set fs \<and> 0 < bc_value (in_flight_bytes f) \<and>
       (\<forall>h\<in>set fs. bc_value (in_flight_bytes h) \<le> bc_value (in_flight_bytes f))"
  using dominant_fold [of "[]" "(0, None)" fs]
  by (cases "fold dominant_step fs (0, None)") (auto simp: dominant_flow_def dominant_inv_def split: option.splits)

text \<open>C37: the engine asks for restriction exactly when the domain's cached state is saturated or
  beyond and more is offered than serviced; the request is to pause new traffic, throttle or limit admission by that
  state, carries the domain, the epoch, the next backpressure generation and, as its expected benefit, the deficit of
  offered minus serviced load, and targets the live flow with the most bytes in flight, if any has.\<close>

theorem backpressure_backed:
  assumes "domain_of e k = Some d" "isfinite (d_offered_bps d)" "isfinite (d_serviced_bps d)"
  shows "let act = eval_backpressure k e; fs = filter live (resolve (cf_flows e) (d_flows d)) in
    (intent_is_restrictive (ba_intent act) \<longleftrightarrow>
       CongestionState_to_u8 CS_SATURATED \<le> CongestionState_to_u8 (d_state d) \<and> dlt (d_serviced_bps d) (d_offered_bps d)) \<and>
    (intent_is_restrictive (ba_intent act) \<longrightarrow> ba_target_domain act = d_ref d \<and> ba_epoch act = cf_epoch e \<and>
       ba_generation act = gen_next (d_backpressure_generation d) \<and> dlt 0 (ba_expected_benefit_bps act) \<and>
       ba_expected_benefit_bps act = dsub (d_offered_bps d) (d_serviced_bps d) \<and>
       ba_intent act = (if d_state d = CS_SEVERELY_CONGESTED then AI_PAUSE_NEW_TRAFFIC
         else if d_state d = CS_CONGESTED then AI_THROTTLE else AI_ADMIT_LIMITED) \<and>
       ((\<forall>h\<in>set fs. bc_value (in_flight_bytes h) = 0) \<and> ba_target_flow act = invalid_ref \<or>
        (\<exists>f\<in>set fs. ba_target_flow act = fl_ref f \<and> 0 < bc_value (in_flight_bytes f) \<and>
           (\<forall>h\<in>set fs. bc_value (in_flight_bytes h) \<le> bc_value (in_flight_bytes f)))))"
proof -
  let ?fs = "filter live (resolve (cf_flows e) (d_flows d))"
  let ?sat = "CongestionState_to_u8 CS_SATURATED \<le> CongestionState_to_u8 (d_state d)"
  let ?more = "dlt (d_serviced_bps d) (d_offered_bps d)"
  have d: "um_find (cf_domains e) k = Some d" using assms(1) by (simp add: domain_of_def)
  note more = dsub_pos_iff [OF assms(2,3)]
  show ?thesis
  proof (cases "?sat \<and> ?more")
    case False
    then have "eval_backpressure k e = default_action"
      using d more by (auto simp: eval_backpressure_def Let_def not_le)
    then show ?thesis using False by (simp add: default_action_def Let_def)
  next
    case True
    have "dominant_flow ?fs = None \<and> (\<forall>h\<in>set ?fs. bc_value (in_flight_bytes h) = 0) \<or>
        (\<exists>f\<in>set ?fs. dominant_flow ?fs = Some f \<and> 0 < bc_value (in_flight_bytes f) \<and>
           (\<forall>h\<in>set ?fs. bc_value (in_flight_bytes h) \<le> bc_value (in_flight_bytes f)))"
      using dominant_flow_max [of ?fs] by (cases "dominant_flow ?fs") auto
    moreover have "\<not> CongestionState_to_u8 (d_state d) < CongestionState_to_u8 CS_SATURATED"
      "\<not> dle (dsub (d_offered_bps d) (d_serviced_bps d)) 0" "dmax 0 (dsub (d_offered_bps d) (d_serviced_bps d)) = dsub (d_offered_bps d) (d_serviced_bps d)"
      using True more by (simp_all add: not_less dmax_def)
    ultimately show ?thesis
      using d True more unfolding eval_backpressure_def Let_def by (auto simp del: CongestionState_to_u8.simps)
  qed
qed

section \<open>Local shaping\<close>

lemma dmax_zero_fin: "\<not> isnan x \<Longrightarrow> fin_nonneg b \<Longrightarrow> dkey x \<le> dkey b \<Longrightarrow> fin_nonneg (dmax 0 x) \<and> dkey (dmax 0 x) \<le> dkey b"
  by (auto simp: dmax_def dlt_def fin_nonneg_def isfinite_dkey)

lemma shaping_rate_bound:
  assumes "fin_nonneg (d_offered_bps d)" "fin_nonneg (d_serviced_bps d)"
    and "b = (case effective (d_capacity d) of Some x \<Rightarrow> x | None \<Rightarrow> d_serviced_bps d)"
  shows "fin_nonneg (shaping_rate d) \<and> dkey (shaping_rate d) \<le> dkey b"
proof -
  let ?def = "dsub (d_offered_bps d) (d_serviced_bps d)"
  have b: "fin_nonneg b" using assms effective_SomeD by (auto split: option.splits)
  have "isfinite ?def" "dkey ?def \<le> dkey (d_offered_bps d)"
    using assms(1,2) dsub_nonneg_fin [of "d_offered_bps d" "d_serviced_bps d"] dsub_le by (auto simp: fin_nonneg_def)
  then have def: "fin_nonneg (dmax 0 ?def)" using dmax_zero_fin assms(1) by simp
  then have "\<not> isnan (dsub b (dmax 0 ?def))" "dkey (dsub b (dmax 0 ?def)) \<le> dkey b"
    using b dsub_not_nan dsub_le by (auto simp: fin_nonneg_def)
  then show ?thesis using dmax_zero_fin b by (simp add: shaping_rate_def assms(3) Let_def)
qed

text \<open>C38: applying a valid restrictive action installs a valid, full token bucket whose rate never
  exceeds the domain's capacity (or, without a known capacity, its serviced rate), records the
  action's generation, and changes no other domain and no flow.\<close>

theorem shaping_within_capacity:
  assumes "domain_of e k = Some d" "fin_nonneg (d_offered_bps d)" "fin_nonneg (d_serviced_bps d)"
    and "action_valid act" "intent_is_restrictive (ba_intent act)"
  shows "\<exists>e' d'. apply_local_shaping k act e = (True, e') \<and> domain_of e' k = Some d' \<and> tb_valid (d_shaping d') \<and>
    dle (tb_rate (d_shaping d')) (case effective (d_capacity d) of Some x \<Rightarrow> x | None \<Rightarrow> d_serviced_bps d) \<and>
    d_backpressure_generation d' = ba_generation act \<and> cf_flows e' = cf_flows e \<and>
    (\<forall>j. j \<noteq> k \<longrightarrow> domain_of e' j = domain_of e j)"
proof -
  let ?d = "d\<lparr>d_shaping := token_bucket (shaping_rate d) (shaping_rate d), d_backpressure_generation := ba_generation act\<rparr>"
  have r: "apply_local_shaping k act e = (True, set_domain e k ?d)"
    using assms by (simp add: apply_local_shaping_def domain_of_def)
  note rate = shaping_rate_bound [OF assms(2,3) HOL.refl]
  have cap: "fin_nonneg (case effective (d_capacity d) of Some x \<Rightarrow> x | None \<Rightarrow> d_serviced_bps d)"
    using assms(3) effective_SomeD by (auto split: option.splits)
  have "tb_valid (d_shaping ?d)"
    using tb_inv_token_bucket [of "shaping_rate d" "shaping_rate d"] rate by (simp add: tb_inv_iff)
  moreover have "dle (tb_rate (d_shaping ?d)) (case effective (d_capacity d) of Some x \<Rightarrow> x | None \<Rightarrow> d_serviced_bps d)"
    using rate cap unfolding dle_def fin_nonneg_def by (simp add: token_bucket_def)
  ultimately show ?thesis using r by (simp add: domain_of_def)
qed

section \<open>Fairness\<close>

lemma dadd_upper:
  assumes "nn x" "nn y"
  shows "dkey x \<le> dkey (dadd x y)" "dkey y \<le> dkey (dadd x y)"
proof -
  have inf: "dkey z = int inf_mag \<and> isinf z \<and> \<not> dneg z" if "nn z" "\<not> isfinite z" for z
    using that by (auto simp: nn_def isnan_def isinf_def isfinite_def dkey_def inf_mag_def split: if_splits)
  have top: "dkey z \<le> int inf_mag" if "nn z" for z
    using that by (auto simp: nn_def isnan_def dkey_def)
  have "dkey x \<le> dkey (dadd x y) \<and> dkey y \<le> dkey (dadd x y)"
  proof (cases "isfinite x \<and> isfinite y")
    case True
    then have "srnd (dval x) \<le> srnd (dval x + dval y)" "srnd (dval y) \<le> srnd (dval x + dval y)"
      using assms dval_nonneg by (auto simp: nn_def intro!: srnd_mono)
    then show ?thesis using True by (simp add: dkey_dadd srnd_dval)
  next
    case False
    then have "dadd x y = x \<and> \<not> isfinite x \<or> dadd x y = y \<and> \<not> isfinite y"
      using assms inf [of x] inf [of y] by (auto simp: dadd_def nn_def isfinite_def isinf_def)
    then show ?thesis using inf [of x] inf [of y] top assms by metis
  qed
  then show "dkey x \<le> dkey (dadd x y)" "dkey y \<le> dkey (dadd x y)" by simp_all
qed

lemma total_weight_bound:
  assumes "\<forall>f\<in>set fs. nn (share_weight f)" "nn s"
  shows "nn (fold (\<lambda>f s. dadd s (share_weight f)) fs s) \<and> dkey s \<le> dkey (fold (\<lambda>f s. dadd s (share_weight f)) fs s) \<and>
    (\<forall>f\<in>set fs. dkey (share_weight f) \<le> dkey (fold (\<lambda>f s. dadd s (share_weight f)) fs s))"
  using assms
proof (induction fs arbitrary: s)
  case (Cons f fs)
  have f: "nn (share_weight f)" using Cons.prems(1) by simp
  have "nn (dadd s (share_weight f))" using dadd_nn Cons.prems(2) f by blast
  from Cons.IH [OF _ this] Cons.prems(1) show ?case
    using dadd_upper [OF Cons.prems(2) f] by (auto intro: order_trans)
qed simp

lemma weight_ratio:
  assumes "isfinite w" "0 < dkey w" "nn t" "dkey w \<le> dkey t"
  shows "isfinite (ddiv w t) \<and> 0 \<le> dkey (ddiv w t) \<and> dkey (ddiv w t) \<le> dkey d_one"
proof (cases "isfinite t")
  case True
  then have "0 \<le> dkey (ddiv w t)" "dkey (ddiv w t) \<le> dkey d_one"
    using ddiv_nonneg [of w t] ddiv_le_one [of w t] assms by auto
  then show ?thesis using isfinite_d_one by (auto simp: isfinite_dkey)
next
  case False
  then have inf: "isinf t" "\<not> isnan t" "dmag t \<noteq> 0"
    using assms(3) by (auto simp: nn_def isnan_def isinf_def isfinite_def inf_mag_def)
  then have "ddiv w t = mk (dneg w \<noteq> dneg t) 0" using assms(1) pos_dmag [OF assms(2)] by (simp add: ddiv_def)
  then have "dkey (ddiv w t) = 0" by (simp add: dkey_mk)
  then show ?thesis by (simp add: isfinite_dkey inf_mag_def dkey_d_one)
qed

lemma double_of_count:
  assumes "0 < n" "n < 2 ^ 64"
  shows "isfinite (double_of_u64 (of_nat n)) \<and> dkey d_one \<le> dkey (double_of_u64 (of_nat n))"
proof -
  have n: "unat (of_nat n :: u64) = n" using assms(2) by (simp add: unat_of_nat)
  have "vmag (dmag d_one) \<le> n * 2 ^ 1074" using assms(1) by (simp add: vmag_d_one)
  then have "dmag d_one \<le> rmag (n * 2 ^ 1074) 1"
    using isfinite_d_one by (intro ieee.code_le_rnd) (simp_all add: isfinite_def)
  moreover have "dkey d_one = int (dmag d_one)" by (rule nonneg_dkey) (simp add: dkey_d_one)
  moreover have "isfinite (double_of_u64 (of_nat n))" by (rule double_of_u64_fin)
  ultimately show ?thesis by (simp add: double_of_u64_def n)
qed

lemma equal_share:
  assumes "fin_nonneg eff" "0 < n" "n < 2 ^ 64"
  shows "\<not> isnan (ddiv eff (double_of_u64 (of_nat n))) \<and> 0 \<le> dkey (ddiv eff (double_of_u64 (of_nat n))) \<and>
    dkey (ddiv eff (double_of_u64 (of_nat n))) \<le> dkey eff"
proof -
  let ?n = "double_of_u64 (of_nat n)"
  have n: "isfinite ?n" "dkey d_one \<le> dkey ?n" using double_of_count [OF assms(2,3)] by simp_all
  moreover have "0 < dkey ?n" using n(2) by (simp add: dkey_d_one)
  ultimately show ?thesis
    using ddiv_nonneg [of eff ?n] ddiv_le_left [of eff ?n] assms(1) by (simp add: fin_nonneg_def)
qed

lemma weighted_share:
  assumes "fin_nonneg eff" "isfinite w" "0 < dkey w" "nn t" "dkey w \<le> dkey t"
  shows "\<not> isnan (dmul eff (ddiv w t)) \<and> 0 \<le> dkey (dmul eff (ddiv w t)) \<and> dkey (dmul eff (ddiv w t)) \<le> dkey eff"
  using weight_ratio [OF assms(2-5)] dmul_le_left [of eff "ddiv w t"] assms(1) by (auto simp: fin_nonneg_def dmul_def)

lemma target_share_bounds:
  assumes eff: "fin_nonneg eff" and n: "0 < n" "n < 2 ^ 64" and w: "isfinite w" "0 < dkey w" "nn t" "dkey w \<le> dkey t"
    and cfg: "fairness_valid cfg" and v: "v = target_share model cfg eff w t n"
  shows "dle 0 v \<and> (model \<noteq> FM_MINIMUM_GUARANTEED_SHARE \<longrightarrow> dle v eff) \<and>
    (model = FM_CAPPED_SHARE \<and> dlt 0 (fc_cap_bps cfg) \<longrightarrow> dle v (fc_cap_bps cfg)) \<and>
    (model = FM_MINIMUM_GUARANTEED_SHARE \<longrightarrow> dle (fc_minimum_guarantee_bps cfg) v)"
proof -
  note eq = equal_share [OF eff n] and wt = weighted_share [OF eff w]
  have e: "\<not> isnan eff" "0 \<le> dkey eff" using eff by (simp_all add: fin_nonneg_def)
  have max: "\<not> isnan dmax_value" "0 < dkey dmax_value" by (simp_all add: dmax_value_def double_eval)
  have pos: "dlt 0 t" using w by (simp add: dlt_def nn_def)
  have c: "isfinite (fc_cap_bps cfg)" "isfinite (fc_minimum_guarantee_bps cfg)" "0 \<le> dkey (fc_minimum_guarantee_bps cfg)"
    using cfg by (simp_all add: fairness_valid_def dle_def)
  have eqv: "dle 0 (ddiv eff (double_of_u64 (of_nat n)))" "dle (ddiv eff (double_of_u64 (of_nat n))) eff"
    using eq e by (simp_all add: dle_def)
  have wtv: "dle 0 (dmul eff (ddiv w t))" "dle (dmul eff (ddiv w t)) eff" using wt e by (simp_all add: dle_def)
  show ?thesis
    using eqv wtv pos c eq e max
    by (cases model) (auto simp: v target_share_def Let_def dmin_def dmax_def dle_def dlt_def)
qed

text \<open>C39: every fairness target of a domain with known capacity is non-negative and at most that
  capacity, unless the model guarantees a minimum, which the target then meets; a positive cap is
  respected under the capped model. (The fairness configurations of the flows are valid, which \<^verbatim>\<open>declare_flow\<close>
  does not check.)\<close>

theorem fairness_within_capacity:
  assumes "domain_of e k = Some d" "effective (d_capacity d) = Some eff" "length (d_flows d) < 2 ^ 64"
    and "\<forall>f\<in>set (resolve (cf_flows e) (d_flows d)). fairness_valid (fl_fairness f)"
    and "s \<in> set (fr_shares (evaluate_fairness k e))"
  shows "dle 0 (fsh_target_share_bps s) \<and>
    (fc_model (fsh_config s) \<noteq> FM_MINIMUM_GUARANTEED_SHARE \<longrightarrow> dle (fsh_target_share_bps s) eff) \<and>
    (fc_model (fsh_config s) = FM_CAPPED_SHARE \<and> dlt 0 (fc_cap_bps (fsh_config s)) \<longrightarrow>
       dle (fsh_target_share_bps s) (fc_cap_bps (fsh_config s))) \<and>
    (fc_model (fsh_config s) = FM_MINIMUM_GUARANTEED_SHARE \<longrightarrow>
       dle (fc_minimum_guarantee_bps (fsh_config s)) (fsh_target_share_bps s))"
proof -
  let ?fs = "filter live (resolve (cf_flows e) (d_flows d))"
  let ?t = "fold (\<lambda>f s. dadd s (share_weight f)) ?fs 0"
  have d: "um_find (cf_domains e) k = Some d" using assms(1) by (simp add: domain_of_def)
  have eff: "fin_nonneg eff" using effective_SomeD [OF assms(2)] by simp
  obtain f tc where f: "f \<in> set ?fs" "s = fairness_share d eff ?t tc (length ?fs) f"
    using assms(5) d assms(2) by (auto simp: evaluate_fairness_def Let_def)
  have valid: "fairness_valid (fl_fairness h)" if "h \<in> set ?fs" for h using assms(4) that by simp
  have weight: "isfinite (share_weight h)" "0 < dkey (share_weight h)" if "h \<in> set ?fs" for h
    using valid [OF that] by (auto simp: fairness_valid_def share_weight_def dlt_def dkey_d_one)
  then have nnw: "\<forall>h\<in>set ?fs. nn (share_weight h)" by (auto simp: nn_def less_imp_le)
  have tot: "nn ?t" "dkey (share_weight f) \<le> dkey ?t"
    using total_weight_bound [OF nnw, of 0] f(1) by (auto simp: nn_def)
  have "length ?fs \<le> length (d_flows d)"
    using length_filter_le [of live] length_filter_le [of _ "d_flows d"]
    by (auto simp: resolve_def List.map_filter_def intro: order_trans)
  then have n: "0 < length ?fs" "length ?fs < 2 ^ 64"
    using length_pos_if_in_set [OF f(1)] assms(3) by linarith+
  let ?cfg = "(fl_fairness f)\<lparr>fc_model := fc_model (d_default_fairness d)\<rparr>"
  have cfg: "fairness_valid ?cfg" using valid [OF f(1)] by (simp add: fairness_valid_def)
  have s: "fsh_config s = ?cfg" "fsh_target_share_bps s = target_share (fc_model ?cfg) ?cfg eff (share_weight f) ?t (length ?fs)"
    by (simp_all add: f(2) fairness_share_def Let_def)
  show ?thesis
    unfolding s by (rule target_share_bounds [OF eff n weight [OF f(1)] tot cfg HOL.refl])
qed

section \<open>Witnesses\<close>

text \<open>The sample domain once it has been found saturated, and the sample flow as its only live flow.\<close>

definition saturated_domain :: CongestionDomain where
  "saturated_domain = measured_domain\<lparr>d_state := CS_SATURATED\<rparr>"

definition saturated_engine :: CongestionFabric where
  "saturated_engine = set_domain sample_measured (Id 1) saturated_domain"

lemma saturated_domain_of: "domain_of saturated_engine (Id 1) = Some saturated_domain"
  by (simp add: saturated_engine_def domain_of_def)

lemma saturated_fields [simp]:
  "d_offered_bps saturated_domain = 0x4197D78400000000" "d_serviced_bps saturated_domain = 0"
  "d_state saturated_domain = CS_SATURATED" "d_capacity saturated_domain = sample_capacity"
  "d_flows saturated_domain = [sample_ref]"
  by (simp_all add: saturated_domain_def)

lemma saturated_flow: "resolve (cf_flows saturated_engine) [sample_ref] = [sample_flow]" "live sample_flow"
proof -
  have "cf_flows e' = cf_flows e" if "publish_measurement k m w b e = Some (r, e')" for k m w b e r e'
    using that by (auto simp: publish_measurement_def Let_def split: option.splits if_splits)
  then have "cf_flows sample_measured = cf_flows sample_active" using sample_measured_eval(1) by blast
  then show "resolve (cf_flows saturated_engine) [sample_ref] = [sample_flow]"
    by (simp add: saturated_engine_def resolve_def List.map_filter_def sample_find)
  show "live sample_flow" by (simp add: live_def flow_terminal_def flow_state_preds)
qed

theorem backpressure_backed_witness:
  "intent_is_restrictive (ba_intent (eval_backpressure (Id 1) saturated_engine))"
proof -
  have "dlt 0 (0x4197D78400000000 :: double)" by (simp add: double_eval)
  then show ?thesis
    using backpressure_backed [OF saturated_domain_of] by (simp add: measured_rates Let_def)
qed

theorem shaping_within_capacity_witness:
  "\<exists>e' d'. apply_local_shaping (Id 1) (default_action\<lparr>ba_intent := AI_THROTTLE\<rparr>) saturated_engine = (True, e') \<and>
     domain_of e' (Id 1) = Some d' \<and> dle (tb_rate (d_shaping d')) 0x4197D78400000000"
  using shaping_within_capacity [OF saturated_domain_of, of "default_action\<lparr>ba_intent := AI_THROTTLE\<rparr>"]
  by (auto simp: fin_nonneg_def measured_rates sample_capacity_effective action_valid_def default_action_def
      action_intent_valid_def)

theorem fairness_within_capacity_witness:
  "\<exists>s. s \<in> set (fr_shares (evaluate_fairness (Id 1) saturated_engine)) \<and>
     dle 0 (fsh_target_share_bps s) \<and> dle (fsh_target_share_bps s) 0x4197D78400000000"
proof -
  have find: "um_find (cf_domains saturated_engine) (Id 1) = Some saturated_domain"
    using saturated_domain_of by (simp add: domain_of_def)
  have "\<forall>f\<in>set (resolve (cf_flows saturated_engine) (d_flows saturated_domain)). fairness_valid (fl_fairness f)"
    by (simp add: saturated_flow flow_of_options_def sample_options_def default_options_def default_fairness_config_def
        fairness_valid_def double_eval d_one_def)
  moreover obtain s where s: "s \<in> set (fr_shares (evaluate_fairness (Id 1) saturated_engine))"
      "fc_model (fsh_config s) = fc_model (d_default_fairness saturated_domain)"
    by (simp add: evaluate_fairness_def find saturated_flow Let_def sample_capacity_effective fairness_share_def)
  ultimately show ?thesis
    using fairness_within_capacity [OF saturated_domain_of, of "0x4197D78400000000" s] sample_capacity_effective
    by (auto simp: saturated_domain_def measured_domain_def sample_domain_def default_domain_def default_fairness_config_def)
qed

end
