(* ===== verification/Overload.thy ===== *)
theory Overload
  imports ControlProps
begin

text \<open>
  Classification and overload: each state is reported exactly on the evidence it stands for. The classification
  compares the rounded quotient of offered load and capacity with one; rounding never hides an excess, however small, so a domain
  without backlog is called saturated exactly when more is offered than its capacity.
\<close>

section \<open>A quotient above one does not round to one\<close>

lemma vmag_step:
  assumes "2 ^ 52 \<le> m"
  shows "vmag (Suc m) = vmag m + 2 ^ (m div 2 ^ 52 - 1)"
proof -
  define q r where "q = m div 2 ^ 52" and "r = m mod 2 ^ 52"
  have q: "0 < q" using assms by (simp add: q_def div_greater_zero_iff)
  have m: "m = q * 2 ^ 52 + r" and r: "r < 2 ^ 52" by (simp_all add: q_def r_def)
  have v: "vmag m = (2 ^ 52 + r) * 2 ^ (q - 1)" using assms by (simp add: vmag_def q_def r_def)
  have "vmag (Suc m) = (2 ^ 52 + Suc r) * 2 ^ (q - 1)"
  proof (cases "Suc r < 2 ^ 52")
    case True
    have "Suc m = q * 2 ^ 52 + Suc r" using m by simp
    then have "Suc m div 2 ^ 52 = q" "Suc m mod 2 ^ 52 = Suc r" using True by simp_all
    then show ?thesis using assms by (simp add: vmag_def)
  next
    case carry: False
    then have "Suc m = Suc q * 2 ^ 52" using m r by simp
    then have "Suc m div 2 ^ 52 = Suc q" "Suc m mod 2 ^ 52 = 0" by simp_all
    moreover have "(2 :: nat) ^ q = 2 * 2 ^ (q - 1)" using q by (cases q) simp_all
    ultimately show ?thesis using assms carry r by (simp add: vmag_def)
  qed
  then show ?thesis by (simp add: v q_def algebra_simps)
qed

lemma vmag_Suc: "vmag m \<le> (2 ^ 53 - 1) * (vmag (Suc m) - vmag m)"
proof (cases "m < 2 ^ 52")
  case True
  have "vmag (Suc m) = Suc m"
  proof (cases "Suc m < 2 ^ 52")
    case False
    then have "Suc m = 2 ^ 52" using True by simp
    then show ?thesis by (simp add: vmag_def)
  qed (simp add: vmag_def)
  then show ?thesis using True by (simp add: vmag_def)
next
  case False
  then have "vmag (Suc m) - vmag m = 2 ^ (m div 2 ^ 52 - 1)" using vmag_step [of m] by simp
  moreover have "2 ^ 52 + m mod 2 ^ 52 \<le> 2 ^ 53 - 1" using mod_less_divisor [of "2 ^ 52" m] by simp
  ultimately show ?thesis using False unfolding vmag_def [of m] by (simp only: if_False mult_le_mono1)
qed

lemma vmag_gap:
  assumes "m < n" "n \<le> inf_mag"
  shows "2 ^ 53 * vmag m \<le> vmag n * (2 ^ 53 - 1)"
proof -
  have "vmag (Suc m) \<le> vmag n" "vmag m \<le> vmag (Suc m)" using assms by (auto intro!: ieee.val_mono)
  then have "vmag m \<le> (2 ^ 53 - 1) * (vmag n - vmag m)" "vmag m \<le> vmag n"
    using vmag_Suc [of m] by (auto intro: order.trans [OF _ mult_le_mono2] diff_le_mono)
  then show ?thesis by (simp add: diff_mult_distrib2)
qed

lemma rhe_scale: "0 < c \<Longrightarrow> rhe (p * c) (q * c) = rhe p q"
  by (simp add: rhe_def Let_def)

lemma rmag_next: "dmag d_one < rmag (2 ^ 53 * 2 ^ 1074) (2 ^ 53 - 1)"
proof -
  let ?q = "2 ^ 53 - 1 :: nat" and ?p = "2 ^ 53 * 2 ^ 1074 :: nat"
  have p: "?p = 2 ^ 52 * 2 ^ 1075" "?p = 2 ^ 105 * 2 ^ 1022" by (simp_all only: power_add [symmetric]) simp_all
  have q: "0 < ?q" "2 ^ 52 < ?q" "?q < 2 ^ 53" by simp_all
  have "?p div ?q < 2 ^ 1075" unfolding p(1) using q(1,2) by (simp only: div_less_iff_less_mult mult.commute [of "2 ^ 1075"] mult_less_cancel2) simp
  moreover have "\<not> ?p div ?q < 2 ^ 1074" using q by (simp only: div_less_iff_less_mult mult.commute [of "2 ^ 1074"] mult_less_cancel2 not_less) simp
  ultimately have "floorlog 2 (?p div ?q) \<le> 1075" "\<not> floorlog 2 (?p div ?q) \<le> 1074" by (simp_all only: floorlog2_less not_False_eq_True)
  then have s: "floorlog 2 (?p div ?q) - 53 = 1022" by linarith
  have scaled: "rhe ?p (?q * 2 ^ 1022) = rhe (2 ^ 105) ?q" unfolding p(2) by (rule rhe_scale) (rule zero_less_power, simp)
  have up: "rhe (2 ^ 105) ?q = 2 ^ 52 + 1" by (simp add: rhe_def)
  show ?thesis unfolding rmag_def Let_def s scaled up by (simp add: dmag_d_one inf_mag_def)
qed

lemma ddiv_above_one:
  assumes "isfinite x" "isfinite y" "0 < dkey y"
  shows "dlt d_one (ddiv x y) \<longleftrightarrow> dlt y x"
proof (cases "0 \<le> dkey x")
  case True
  have one: "\<not> isnan d_one" "dkey d_one = int (dmag d_one)" by (simp_all add: dkey_d_one dmag_d_one)
  have vy: "0 < vmag (dmag y)"
    using ieee.val_strict_mono [of 0 "dmag y"] assms(2) pos_dmag [OF assms(3)] by (simp add: isfinite_def)
  have le: "dmag x \<le> inf_mag" "dmag y \<le> inf_mag" "dmag d_one \<le> inf_mag" using assms(1,2) isfinite_d_one by (auto simp: isfinite_def)
  have keys: "dkey x = int (dmag x)" "dkey y = int (dmag y)" using True assms(3) by (simp_all add: nonneg_dkey)
  have "dmag d_one < rmag (vmag (dmag x) * 2 ^ 1074) (vmag (dmag y)) \<longleftrightarrow> dmag y < dmag x"
  proof
    assume "dmag y < dmag x"
    then have "2 ^ 53 * vmag (dmag y) \<le> vmag (dmag x) * (2 ^ 53 - 1)" using vmag_gap le(1) by blast
    then have "2 ^ 53 * 2 ^ 1074 * vmag (dmag y) \<le> vmag (dmag x) * 2 ^ 1074 * (2 ^ 53 - 1)"
      using mult_le_mono1 [of "2 ^ 53 * vmag (dmag y)" "vmag (dmag x) * (2 ^ 53 - 1)" "2 ^ 1074"] by (simp only: ac_simps)
    then have "rmag (2 ^ 53 * 2 ^ 1074) (2 ^ 53 - 1) \<le> rmag (vmag (dmag x) * 2 ^ 1074) (vmag (dmag y))"
      using vy by (intro rmag_mono) simp_all
    then show "dmag d_one < rmag (vmag (dmag x) * 2 ^ 1074) (vmag (dmag y))" using rmag_next by linarith
  next
    assume "dmag d_one < rmag (vmag (dmag x) * 2 ^ 1074) (vmag (dmag y))"
    then have "\<not> vmag (dmag x) * 2 ^ 1074 \<le> vmag (dmag d_one) * vmag (dmag y)"
      using ieee.rnd_le_code [OF vy le(3)] by fastforce
    then have "\<not> vmag (dmag x) \<le> vmag (dmag y)" 
      using mult_le_mono2 [of "vmag (dmag x)" "vmag (dmag y)" "2 ^ 1074"] unfolding vmag_d_one by (auto simp only: mult.commute)
    then show "dmag y < dmag x" using ieee.val_le_iff [OF le(1,2)] by simp
  qed
  then show ?thesis
    using ddiv_nonneg_key [OF assms(1,2) True assms(3)] ddiv_not_nan [OF assms(1,2) pos_dmag [OF assms(3)]] one keys assms(1,2)
    by (simp add: dlt_def)
next
  case False
  then have "dneg x" "\<not> dneg y" using assms(3) by (auto simp: dkey_def split: if_splits)
  then have "dkey (ddiv x y) \<le> 0" using assms pos_dmag [OF assms(3)] by (simp add: ddiv_def dkey_mk)
  then show ?thesis using False assms(3) by (simp add: dlt_def dkey_d_one)
qed

section \<open>Overload\<close>

lemma saturated_iff:
  assumes "effective (d_capacity d) = Some eff" "dlt 0 eff" "isfinite (d_offered_bps d)" "\<not> needs_revalidation d"
    and "ag_queued_bytes (aggregate_domain d fm) = 0"
  shows "as_state (assess_domain d fm) = CS_SATURATED \<longleftrightarrow> dlt eff (d_offered_bps d)"
proof -
  have eff: "isfinite eff" "0 < dkey eff"
    using effective_SomeD(1) [OF assms(1)] assms(2) by (simp_all add: fin_nonneg_def dlt_def)
  show ?thesis
  proof (cases "no_traffic d (aggregate_domain d fm)")
    case True
    then have "\<not> dlt eff (d_offered_bps d)" using eff by (auto simp: no_traffic_def dle_def dlt_def)
    with True show ?thesis using assms by (simp add: assess_domain_def classify_def default_assessment_def)
  next
    case False
    then show ?thesis
      using assms ddiv_above_one [OF assms(3) eff]
      by (simp add: assess_domain_def classify_def classify_live_def pick_state_def Let_def)
  qed
qed

section \<open>The classification table\<close>









section \<open>Overload answered\<close>

lemma recompute_flows: "cf_flows (snd (recompute_domain k now e)) = cf_flows e"
  "cf_worker_boot (snd (recompute_domain k now e)) = cf_worker_boot e"
  by (simp_all add: recompute_domain_def Let_def case_prod_unfold split: option.split)

lemma recompute_fields:
  assumes "domain_of e k = Some d"
  shows "\<exists>d1. domain_of (snd (recompute_domain k now e)) k = Some d1 \<and> d_state d1 = as_state (assess_domain d (cf_flows e)) \<and>
    d_offered_bps d1 = d_offered_bps d \<and> d_serviced_bps d1 = d_serviced_bps d \<and> d_flows d1 = d_flows d \<and> d_capacity d1 = d_capacity d \<and>
    d_offered_provenance d1 = d_offered_provenance d \<and> d_serviced_provenance d1 = d_serviced_provenance d \<and> d_ref d1 = d_ref d"
  using assms by (auto simp: recompute_domain_def domain_of_def assess_domain_def Let_def episode_step_def split_beta)

text \<open>C19: overload is detected and answered, however small: a domain of known positive capacity with current
  evidence and no backlog is assessed as saturated exactly when its offered load exceeds the effective
  capacity, rounding notwithstanding; and then the action the engine recommends is to limit admission, with the deficit of
  offered minus serviced load as its benefit, exactly when less is serviced than offered, and no action otherwise.\<close>

theorem overload_answered:
  assumes "domain_of e k = Some d" "effective (d_capacity d) = Some eff" "dlt 0 eff"
    and "isfinite (d_offered_bps d)" "isfinite (d_serviced_bps d)" "\<not> needs_revalidation d"
    and "ag_queued_bytes (aggregate_domain d (cf_flows e)) = 0" "recompute_domain k now e = (a, e1)"
  shows "(as_state a = CS_SATURATED \<longleftrightarrow> dlt eff (d_offered_bps d)) \<and>
    (dlt eff (d_offered_bps d) \<and> dlt (d_serviced_bps d) (d_offered_bps d) \<longrightarrow>
       ba_intent (eval_backpressure k e1) = AI_ADMIT_LIMITED \<and> ba_target_domain (eval_backpressure k e1) = d_ref d \<and>
       ba_expected_benefit_bps (eval_backpressure k e1) = dsub (d_offered_bps d) (d_serviced_bps d) \<and>
       dlt 0 (ba_expected_benefit_bps (eval_backpressure k e1))) \<and>
    (dlt eff (d_offered_bps d) \<and> \<not> dlt (d_serviced_bps d) (d_offered_bps d) \<longrightarrow> eval_backpressure k e1 = default_action)"
proof -
  have a: "a = assess_domain d (cf_flows e)"
    using assms(1,8) by (auto simp: recompute_domain_def domain_of_def assess_domain_def Let_def split_beta)
  note sat = saturated_iff [OF assms(2-4,6,7)]
  obtain d1 where d1: "um_find (cf_domains e1) k = Some d1" "d_state d1 = as_state a"
      "d_offered_bps d1 = d_offered_bps d" "d_serviced_bps d1 = d_serviced_bps d" "d_ref d1 = d_ref d"
    using recompute_fields [OF assms(1), of now] assms(8) a by (auto simp: domain_of_def)
  let ?x = "dsub (d_offered_bps d) (d_serviced_bps d)"
  have over: "d_state d1 = CS_SATURATED" if "dlt eff (d_offered_bps d)" using that sat d1(2) a by simp
  have pos: "dle ?x 0 \<longleftrightarrow> \<not> dlt (d_serviced_bps d) (d_offered_bps d)" "dlt 0 ?x \<longleftrightarrow> dlt (d_serviced_bps d) (d_offered_bps d)"
    using dsub_pos_iff [OF assms(4,5)] dsub_not_nan [OF assms(4,5)] by (auto simp: dlt_def dle_def)
  from over pos have "eval_backpressure k e1 = default_action"
    if "dlt eff (d_offered_bps d)" "\<not> dlt (d_serviced_bps d) (d_offered_bps d)"
    using that d1 by (simp add: eval_backpressure_def Let_def)
  moreover from over pos have "ba_intent (eval_backpressure k e1) = AI_ADMIT_LIMITED \<and> ba_target_domain (eval_backpressure k e1) = d_ref d \<and>
      ba_expected_benefit_bps (eval_backpressure k e1) = ?x \<and> dlt 0 ?x"
    if "dlt eff (d_offered_bps d)" "dlt (d_serviced_bps d) (d_offered_bps d)"
    using that d1 by (simp add: eval_backpressure_def Let_def dmax_def)
  ultimately show ?thesis using sat a by simp
qed

section \<open>Witness\<close>

text \<open>Twice the capacity offered, half of it serviced.\<close>

definition overloaded_domain :: CongestionDomain where
  "overloaded_domain = measured_domain\<lparr>d_offered_bps := 0x41A7D78400000000, d_serviced_bps := 0x4187D78400000000, d_flows := []\<rparr>"


theorem overload_answered_witness:
  "ba_intent (eval_backpressure (Id 1) (snd (recompute_domain (Id 1) 9 (set_domain sample_measured (Id 1) overloaded_domain)))) = AI_ADMIT_LIMITED"
proof -
  let ?e = "set_domain sample_measured (Id 1) overloaded_domain"
  have "domain_of ?e (Id 1) = Some overloaded_domain" by (simp add: domain_of_def)
  moreover have "effective (d_capacity overloaded_domain) = Some 0x4197D78400000000" "\<not> needs_revalidation overloaded_domain"
      "ag_queued_bytes (aggregate_domain overloaded_domain (cf_flows ?e)) = 0"
    using sample_capacity_effective
    by (simp_all add: overloaded_domain_def needs_revalidation_def aggregate_domain_def resolve_def default_aggregate_def List.map_filter_simps)
  moreover have "dlt 0 (0x4197D78400000000 :: double)" "dlt 0x4197D78400000000 (d_offered_bps overloaded_domain)"
      "dlt (d_serviced_bps overloaded_domain) (d_offered_bps overloaded_domain)" "isfinite (d_offered_bps overloaded_domain)"
      "isfinite (d_serviced_bps overloaded_domain)"
    by (simp_all add: overloaded_domain_def double_eval)
  ultimately show ?thesis using overload_answered [of ?e "Id 1" overloaded_domain "0x4197D78400000000" 9] by (metis prod.collapse)
qed

end
