(* ===== verification/Scenarios.thy ===== *)
theory Scenarios
  imports Worker Overload
begin

text \<open>
  The remaining scenarios of \<^verbatim>\<open>tools/cfworker.cpp\<close> and its \<^verbatim>\<open>main\<close>. The
  id file that passes a domain from one worker process to the next is kept in \<open>files\<close>. The exit code is
  \<open>None\<close> when the process terminates on an uncaught exception. At its end the process closes its socket, whose
  effect at the other end is the argument \<open>hang\<close>; with \<^verbatim>\<open>--stay\<close> it first waits for the connection to end, which is left out.
\<close>

section \<open>The id file\<close>

type_synonym files = "string \<Rightarrow> string option"

text \<open>\<^verbatim>\<open>strtoull\<close> in base ten, which also gives the value of a formatted read: white space, a sign and
  digits; no digits is zero, a value out of range the largest one, a negative one wraps.\<close>

definition is_space :: "char \<Rightarrow> bool" where
  "is_space c \<longleftrightarrow> c = CHR '' '' \<or> (9 \<le> (of_char c :: nat) \<and> (of_char c :: nat) \<le> 13)"

definition is_digit :: "char \<Rightarrow> bool" where
  "is_digit c \<longleftrightarrow> 48 \<le> (of_char c :: nat) \<and> (of_char c :: nat) \<le> 57"

definition digits_value :: "string \<Rightarrow> nat" where
  "digits_value ds = fold (\<lambda>c n. 10 * n + (of_char c - 48)) ds 0"

definition strtoull :: "string \<Rightarrow> u64" where
  "strtoull s = (case dropWhile is_space s of
     [] \<Rightarrow> 0
   | c # t \<Rightarrow>
      let n = digits_value (takeWhile is_digit (if c = CHR ''-'' \<or> c = CHR ''+'' then t else c # t))
      in if n \<ge> 2 ^ 64 then - 1 else if c = CHR ''-'' then - of_nat n else of_nat n)"

definition id_text :: "u64 \<Rightarrow> u64 \<Rightarrow> string" where
  "id_text i gen = to_string_nat (unat i) @ '' '' @ to_string_nat (unat gen)"

text \<open>What \<^verbatim>\<open>do_create\<close> writes for a domain it was given, and what \<^verbatim>\<open>get_domain\<close> reads.\<close>

definition note_ref :: "string \<Rightarrow> (u64 \<times> u64) option \<Rightarrow> files \<Rightarrow> files" where
  "note_ref path r files = (case r of
     Some (i, gen) \<Rightarrow> if path \<noteq> [] then files(path \<mapsto> id_text i gen) else files
   | None \<Rightarrow> files)"

definition note_domain :: "WorkerArgs \<Rightarrow> (u64 \<times> u64) option \<Rightarrow> files \<Rightarrow> files" where
  "note_domain g = note_ref (g_idfile g)"

definition get_domain :: "WorkerArgs \<Rightarrow> files \<Rightarrow> u64" where
  "get_domain g files = (case files (g_idfile g) of None \<Rightarrow> 0 | Some s \<Rightarrow> strtoull s)"

section \<open>Scenarios\<close>

definition hello :: "'s exchange \<Rightarrow> 's \<Rightarrow> bool \<times> 's" where
  "hello call s = (case call MT_HELLO (wr_str ''cfworker'') s of (fr, s) \<Rightarrow> (fr \<noteq> None, s))"

text \<open>Exit codes: zero for success, one for failure.\<close>

definition rc_of :: "bool option \<times> 's \<Rightarrow> int option \<times> 's" where
  "rc_of r = (map_option (\<lambda>ok. if ok then 0 else 1) (fst r), snd r)"

definition rc_query :: "QueryLine option option \<times> 's \<Rightarrow> int option \<times> 's" where
  "rc_query r = rc_of (map_option (\<lambda>q. q \<noteq> None) (fst r), snd r)"

definition do_progress :: "'s exchange \<Rightarrow> WorkerArgs \<Rightarrow> 's \<Rightarrow> bool option \<times> 's" where
  "do_progress call g s = is_ok (call MT_PROGRESS
     (wr_u64 (g_domain g) @ wr_u64 (g_dgen g) @ wr_u64 (g_boot g) @ wr_u64 (g_delta g)) s)"

definition do_complete :: "'s exchange \<Rightarrow> WorkerArgs \<Rightarrow> 's \<Rightarrow> bool option \<times> 's" where
  "do_complete call g s = is_ok (call MT_COMPLETE (wr_u64 (g_domain g) @ wr_u64 (g_dgen g) @ wr_u64 (g_boot g)) s)"

definition do_fence :: "'s exchange \<Rightarrow> WorkerArgs \<Rightarrow> 's \<Rightarrow> bool option \<times> 's" where
  "do_fence call g s = is_ok (call MT_FENCE_WORKER (wr_u64 (g_worker g) @ wr_u64 (g_boot g)) s)"

definition do_save :: "'s exchange \<Rightarrow> WorkerArgs \<Rightarrow> 's \<Rightarrow> bool option \<times> 's" where
  "do_save call g s = is_ok (call MT_SAVE (wr_str (g_path g)) s)"

definition do_shutdown :: "'s exchange \<Rightarrow> 's \<Rightarrow> 's" where
  "do_shutdown call s = snd (call MT_SHUTDOWN [] s)"

definition compete :: "'s exchange \<Rightarrow> WorkerArgs \<Rightarrow> files \<Rightarrow> 's \<Rightarrow> int option \<times> 's" where
  "compete call g files s =
    step_or (do_register call g s) (\<lambda>ok s. if \<not> ok then (Some 1, s) else
    let did = get_domain g files in
    step_or (open_flow call g did 1 s) (\<lambda>fl s. if fl = None then (Some 1, s) else rc_query (do_query call did s)))"

definition resurrect :: "'s exchange \<Rightarrow> WorkerArgs \<Rightarrow> files \<Rightarrow> 's \<Rightarrow> int option \<times> 's" where
  "resurrect call g files s =
    step_or (do_register call g s) (\<lambda>ok s. if \<not> ok then (Some 1, s) else
    let did = get_domain g files in
    step_or (open_flow call g did 1 s) (\<lambda>fl s. if fl = None then (Some 1, s) else (Some 0, s)))"

definition control :: "'s exchange \<Rightarrow> WorkerArgs \<Rightarrow> files \<Rightarrow> 's \<Rightarrow> int option \<times> 's" where
  "control call g files s =
    (let did = (if g_domain g \<noteq> 0 then g_domain g else get_domain g files)
     in if did = 0 then (Some 1, s)
        else step_or (rc_query (do_query call did s)) (\<lambda>rc s.
          let s1 = (if g_path g \<noteq> [] then snd (do_save call g s) else s)
          in (Some rc, do_shutdown call s1)))"

definition scenario :: "'s exchange \<Rightarrow> string \<Rightarrow> WorkerArgs \<Rightarrow> files \<Rightarrow> 's \<Rightarrow> (int option \<times> files) \<times> 's" where
  "scenario call name g files s =
    (let plain = (\<lambda>(rc, s). ((rc, files), s)) in
     if name = ''register'' then plain (rc_of (do_register call g s))
     else if name = ''create'' then (case do_create call g s of (r, s) \<Rightarrow>
       ((map_option (\<lambda>c. if c = None then 1 else 0) r, note_domain g (Option.bind r id) files), s))
     else if name = ''declare'' then (case do_declare call g (g_domain g) (g_dgen g) s of (r, s) \<Rightarrow>
       ((map_option (\<lambda>c. if c = None then 1 else 0) r, files), s))
     else if name = ''admit'' then plain (rc_of (send_flow_op call MT_ADMIT (g_domain g) (g_dgen g) s))
     else if name = ''start'' then plain (rc_of (do_start call g (g_domain g) (g_dgen g) s))
     else if name = ''progress'' then plain (rc_of (do_progress call g s))
     else if name = ''complete'' then plain (rc_of (do_complete call g s))
     else if name = ''measure'' then ((Some 0, files), do_measure call g (g_domain g) s)
     else if name = ''query'' then plain (rc_query (do_query call (g_domain g) s))
     else if name = ''drive'' then (case drive call g s of ((dm, fl), s) \<Rightarrow>
       ((map_option (\<lambda>f. if f = None then 1 else 0) fl, note_domain g dm files), s))
     else if name = ''compete'' then plain (compete call g files s)
     else if name = ''resurrect'' then plain (resurrect call g files s)
     else if name = ''control'' then plain (control call g files s)
     else if name = ''replay'' then plain (rc_of (replay call g s))
     else if name = ''shutdown'' then ((Some 0, files), do_shutdown call s)
     else if name = ''fence'' then plain (rc_of (do_fence call g s))
     else if name = ''save'' then plain (rc_of (do_save call g s))
     else ((Some 2, files), s))"

text \<open>\<^verbatim>\<open>main\<close> on a connected socket, up to the closing of the socket. With \<^verbatim>\<open>--stay\<close> the process then waits until the coordinator
  hangs up, which only delays what follows.\<close>

definition worker_session :: "'s exchange \<Rightarrow> string \<Rightarrow> WorkerArgs \<Rightarrow> files \<Rightarrow> 's \<Rightarrow> (int option \<times> files) \<times> 's" where
  "worker_session call name g files s = (case hello call s of (ok, s) \<Rightarrow>
     if \<not> ok then ((Some 2, files), s) else scenario call name g files s)"

text \<open>\<^verbatim>\<open>main\<close> to its end: the socket is closed on every path, by \<^verbatim>\<open>close_socket\<close> or by the exit of the process; \<open>hang\<close> is what that
  does at the other end.\<close>

definition worker_main :: "'s exchange \<Rightarrow> ('s \<Rightarrow> 's) \<Rightarrow> string \<Rightarrow> WorkerArgs \<Rightarrow> files \<Rightarrow> 's \<Rightarrow> (int option \<times> files) \<times> 's" where
  "worker_main call hang name g files s = (case worker_session call name g files s of (r, s) \<Rightarrow> (r, hang s))"

section \<open>The id file round trip\<close>

lemma digit_char_code: "d < 10 \<Longrightarrow> of_char (digit_char d) = 48 + d"
  by (simp add: digit_char_def)

lemma digits_value_snoc: "digits_value (ds @ [c]) = 10 * digits_value ds + (of_char c - 48)"
  by (simp add: digits_value_def)

lemma to_string_nat_digits:
  "to_string_nat n \<noteq> [] \<and> list_all is_digit (to_string_nat n) \<and> digits_value (to_string_nat n) = n"
proof (induction n rule: to_string_nat.induct)
  case (1 n)
  have d: "is_digit (digit_char (n mod 10))" "is_digit (digit_char n) \<or> \<not> n < 10"
    by (auto simp: is_digit_def digit_char_code)
  have "10 * (n div 10) + n mod 10 = n" by simp
  then show ?case
    using 1 d digits_value_snoc [of "[]"]
    by (simp add: to_string_nat.simps [of n] digits_value_snoc digit_char_code) (auto simp: digits_value_def digit_char_code)
qed

lemma strtoull_number: "strtoull (to_string_nat (unat x) @ '' '' @ t) = x"
proof -
  obtain c ds where c: "to_string_nat (unat x) = c # ds" using to_string_nat_digits [of "unat x"] by (cases "to_string_nat (unat x)") auto
  then have dig: "is_digit c" "list_all is_digit (c # ds)" "digits_value (c # ds) = unat x"
    using to_string_nat_digits [of "unat x"] by simp_all
  then have "\<not> is_space c" "c \<noteq> CHR ''-''" "c \<noteq> CHR ''+''" by (auto simp: is_digit_def is_space_def)
  moreover have "takeWhile is_digit ((c # ds) @ '' '' @ t) = c # ds"
    using dig(2) by (subst takeWhile_append2) (auto simp: list_all_iff is_digit_def)
  ultimately show ?thesis
    using dig(3) unat_u64_bound [of x] by (simp add: strtoull_def c Let_def)
qed

lemma get_noted_domain: "g_idfile g \<noteq> [] \<Longrightarrow> get_domain g (note_domain g (Some (i, gen)) files) = i"
  by (simp add: get_domain_def note_domain_def note_ref_def id_text_def strtoull_number [simplified])

section \<open>Queries over the protocol\<close>

definition query_line :: "CongestionAssessment \<Rightarrow> DomainSnapshot \<Rightarrow> QueryLine" where
  "query_line a sn = \<lparr>ql_state = CongestionState_to_u8 (as_state a), ql_prov = MeasurementProvenance_to_u8 (as_provenance a),
     ql_score = as_score a, ql_auth = (if as_authoritative a then 1 else 0),
     ql_hasload = (if dlt 0 (sn_offered_bps sn) then 1 else 0),
     ql_rates = [sn_offered_bps sn, sn_serviced_bps sn, sn_effective_bps sn, sn_residual_bps sn]\<rparr>"

lemma query_stub:
  "do_query (coordinator_link put now) did (co, ctx) =
    (let r = recompute_domain (Id did) now (co_engine co)
     in (Some (Some (query_line (fst r) (snapshot (Id did) (snd r)))), (co\<lparr>co_engine := snd r\<rparr>, ctx)))"
  by (simp add: do_query_def coordinator_link_def handle_def dispatch_def rd_id_def last_u64 reading_def
      handle_query_congestion_def reply_def Let_def split_beta expect_def rd_query_def prim_round query_line_def)

section \<open>Joining a domain\<close>

text \<open>C22: a worker whose boots are new to the coordinator joins the domain named in the id file: \<^verbatim>\<open>resurrect\<close>
  and \<^verbatim>\<open>compete\<close> return zero and, until the connection is closed, there is one more flow, active with every submitted byte in flight and owned by
  the worker's new boot; the flows that were there, such as those of a dead incarnation, are unchanged.\<close>

theorem joining_succeeds:
  assumes "args_ok g" "engine_inv (co_engine co)" "newcomer g (co_engine co)" "did = get_domain g files" "did \<noteq> 0"
    and "domain_of (co_engine co) (Id did) = Some d" "k = cf_next_flow (co_engine co)"
  shows "\<exists>f. fl_state f = FS_ACTIVE \<and> in_flight_bytes f = ByteCounter (g_bytes g) \<and> fl_owner_boot f = Generation (g_boot g) \<and>
    (\<exists>co1 ctx1 d1. resurrect (coordinator_link put now) g files (co, ctx) = (Some 0, (co1, ctx1)) \<and>
       cf_flows (co_engine co1) = cf_flows (co_engine co) @ [(Id k, f)] \<and>
       domain_of (co_engine co1) (Id did) = Some d1 \<and> d_flows d1 = d_flows d @ [flow_ref k 1] \<and>
       d_offered_bps d1 = g_offered g \<and> d_serviced_bps d1 = g_serviced g) \<and>
    (\<exists>co1 ctx1. compete (coordinator_link put now) g files (co, ctx) = (Some 0, (co1, ctx1)) \<and>
       cf_flows (co_engine co1) = cf_flows (co_engine co) @ [(Id k, f)])"
proof -
  let ?ctx = "\<lparr>ctx_wid = Id (g_worker g), ctx_boot = Generation (g_boot g)\<rparr> :: Context"
  let ?co = "co\<lparr>co_engine := enrolled g (co_engine co)\<rparr>" and ?f = "opened_flow MP_REPORTED now g did 1 k"
  have "declare_allowed (worker_options MP_REPORTED g did 1) (co_engine ?co)" "next_flow_free (co_engine ?co)"
    using assms(1,3,5,6) by (simp_all add: declare_allowed_def worker_options_def args_ok_def newcomer_def id_valid_def
        gen_valid_def domain_of_def next_flow_free_def not_le)
  then obtain co1 d1 where o: "open_flow (coordinator_link put now) g did 1 (?co, ?ctx) = (Some (Some k), (co1, ?ctx))"
      "cf_flows (co_engine co1) = cf_flows (co_engine co) @ [(Id k, ?f)]" "domain_of (co_engine co1) (Id did) = Some d1"
      "d_flows d1 = d_flows d @ [flow_ref k 1]" "d_offered_bps d1 = g_offered g" "d_serviced_bps d1 = g_serviced g"
    using open_flow_succeeds [OF assms(1), of ?co did 1 ?ctx d k put now] enrolled_inv [OF assms(2)] assms(6,7)
    by (auto simp: domain_of_def)
  note reg = register_accepted [OF assms(1,3), of put now ctx]
  let ?r = "recompute_domain (Id did) now (co_engine co1)"
  have "resurrect (coordinator_link put now) g files (co, ctx) = (Some 0, (co1, ?ctx))"
    using reg o(1) assms(4) by (simp add: resurrect_def step_or_def Let_def)
  moreover have "compete (coordinator_link put now) g files (co, ctx) = (Some 0, (co1\<lparr>co_engine := snd ?r\<rparr>, ?ctx))"
    using reg o(1) assms(4) by (simp add: compete_def step_or_def Let_def query_stub rc_query_def rc_of_def)
  moreover have "fl_state ?f = FS_ACTIVE" "in_flight_bytes ?f = ByteCounter (g_bytes g)" "fl_owner_boot ?f = Generation (g_boot g)"
    by (simp_all add: opened_with_def flow_of_options_def worker_options_def)
  ultimately show ?thesis using o(2-6) by (auto simp: recompute_flows intro!: exI [of _ ?f])
qed

section \<open>Saving and restarting\<close>

lemma save_stub:
  assumes "str_ok (g_path g)" "put (g_path g) (save_file (co_engine co)) (co_disk co) = (True, disk)"
  shows "do_save (coordinator_link put now) g (co, ctx) = (Some True, (co\<lparr>co_disk := disk\<rparr>, ctx))"
  using assms c_str.round [of "g_path g" "[]"]
  by (simp add: do_save_def coordinator_link_def handle_def dispatch_def reading_def handle_save_def is_ok_def ok_reply_def
      reply_def)

lemma shutdown_stub: "do_shutdown (coordinator_link put now) (co, ctx) = (co\<lparr>co_stop := True\<rparr>, ctx)"
  by (simp add: do_shutdown_def coordinator_link_def handle_def dispatch_def ok_reply_def reply_def Let_def)

text \<open>C23: \<^verbatim>\<open>control\<close> with a state path queries the domain, saves, and stops the coordinator with exit code
  zero. A coordinator started from the file it left, however its sessions interleave, has every flow with the counters it had, parked
  if it was unfinished, and still refuses every superseded boot. \<open>put\<close> and \<open>get\<close> are the file system: a
  file that was written reads back.\<close>

theorem control_survives_restart:
  assumes "g_domain g \<noteq> 0" "g_path g \<noteq> []" "str_ok (g_path g)"
    and "storable (snd (recompute_domain (Id (g_domain g)) now (co_engine co)))"
    and "\<forall>p bs disk. \<exists>disk'. put p bs disk = (True, disk') \<and> get p disk' = Some bs"
  shows "\<exists>co1. control (coordinator_link put now) g files (co, ctx) = (Some 0, (co1, ctx)) \<and> co_stop co1 \<and>
    (\<forall>disk sy. (system_step put state)\<^sup>*\<^sup>* (start_coordinator (get (g_path g) (co_disk co1)) disk) sy \<longrightarrow>
      (\<forall>i f. flow_of (co_engine co) i = Some f \<longrightarrow> (\<exists>h. flow_of (co_engine (sy_co sy)) i = Some h \<and>
         flow_counters h = flow_counters f \<and> (if flow_terminal f then fl_state h = fl_state f else parked (fl_state h)))) \<and>
      (\<forall>w b b'. um_find (cf_worker_boot (co_engine co)) w = Some b' \<longrightarrow> b < b' \<longrightarrow> id_valid w \<longrightarrow>
         register_worker w b (co_engine (sy_co sy)) = (False, co_engine (sy_co sy))))"
proof -
  let ?e = "snd (recompute_domain (Id (g_domain g)) now (co_engine co))"
  obtain disk' where put: "put (g_path g) (save_file ?e) (co_disk co) = (True, disk')" "get (g_path g) disk' = Some (save_file ?e)"
    using assms(5) by blast
  let ?co1 = "co\<lparr>co_engine := ?e, co_disk := disk', co_stop := True\<rparr>"
  have "control (coordinator_link put now) g files (co, ctx) = (Some 0, (?co1, ctx))"
    using assms(1,2) save_stub [OF assms(3), of put "co\<lparr>co_engine := ?e\<rparr>" disk' now ctx] put(1)
    by (simp add: control_def query_stub rc_query_def rc_of_def step_or_def Let_def shutdown_stub)
  moreover have "\<exists>h. flow_of (co_engine (sy_co sy)) i = Some h \<and> flow_counters h = flow_counters f \<and>
      (if flow_terminal f then fl_state h = fl_state f else parked (fl_state h))"
    if "(system_step put state)\<^sup>*\<^sup>* (start_coordinator (Some (save_file ?e)) disk) sy" "flow_of (co_engine co) i = Some f" for disk sy i f
    using restart_flows [OF assms(4) that(1)] that(2) by (simp add: flow_of_def recompute_flows)
  moreover have "register_worker w b (co_engine (sy_co sy)) = (False, co_engine (sy_co sy))"
    if "(system_step put state)\<^sup>*\<^sup>* (start_coordinator (Some (save_file ?e)) disk) sy" "um_find (cf_worker_boot (co_engine co)) w = Some b'"
      "b < b'" "id_valid w" for disk sy w b b'
    using restart_boots [OF assms(4) that(1)] that(2-) by (simp add: recompute_flows)
  ultimately show ?thesis using put(2) by (intro exI [of _ ?co1]) auto
qed

section \<open>Witnesses\<close>

text \<open>The next incarnation of the sample worker, and a file system that is a map.\<close>

definition returning_args :: WorkerArgs where
  "returning_args = sample_args\<lparr>g_boot := 3, g_sboot := 3\<rparr>"

definition map_put :: "string \<Rightarrow> u8 list \<Rightarrow> (string \<Rightarrow> u8 list option) \<Rightarrow> bool \<times> (string \<Rightarrow> u8 list option)" where
  "map_put p bs disk = (True, disk(p \<mapsto> bs))"

lemma returning_args_ok: "args_ok returning_args"
  using sample_args_ok by (simp add: args_ok_def returning_args_def)

lemma returning_newcomer: "newcomer returning_args sample_active"
  by (simp add: newcomer_def returning_args_def sample_args_def next_flow_free_def sample_active_eval sample_declared_eval
      sample_engine_eval new_fabric_def default_limits_def um_find_def)

theorem joining_succeeds_witness:
  "\<exists>files st. resurrect (coordinator_link sample_put 9) returning_args files (sample_co, no_context) = (Some 0, st)"
proof -
  let ?files = "note_domain returning_args (Some (1, 1)) Map.empty"
  have "get_domain returning_args ?files = 1"
    by (rule get_noted_domain) (simp add: returning_args_def sample_args_def)
  moreover obtain d where "domain_of (co_engine sample_co) (Id 1) = Some d"
    by (simp add: sample_co_def domain_of_def sample_active_eval um_find_def)
  ultimately show ?thesis
    using joining_succeeds [OF returning_args_ok, of sample_co 1 ?files d "cf_next_flow sample_active" sample_put 9 no_context]
      returning_newcomer sample_co_inv by auto
qed

theorem control_survives_restart_witness:
  "\<exists>co1. control (coordinator_link map_put 9) (sample_args\<lparr>g_domain := 7\<rparr>) Map.empty
     (\<lparr>co_engine = sample_active, co_stop = False, co_disk = Map.empty\<rparr>, no_context) = (Some 0, (co1, no_context)) \<and> co_stop co1 \<and>
     (\<exists>h. flow_of (co_engine (sy_co (start_coordinator (co_disk co1 ''state'') (co_disk co1)))) (Id 1) = Some h \<and>
        flow_counters h = flow_counters sample_flow \<and> parked (fl_state h))"
proof -
  let ?g = "sample_args\<lparr>g_domain := 7\<rparr>" and ?co = "\<lparr>co_engine = sample_active, co_stop = False, co_disk = Map.empty\<rparr>"
  have "snd (recompute_domain (Id 7) 9 sample_active) = sample_active"
    by (simp add: recompute_domain_def sample_active_eval um_find_def)
  then have "storable (snd (recompute_domain (Id (g_domain ?g)) 9 (co_engine ?co)))" using sample_active_storable by simp
  moreover have "g_path ?g = ''state''" "str_ok ''state''" by (simp_all add: sample_args_def str_ok_def)
  ultimately obtain co1 where co1: "control (coordinator_link map_put 9) ?g Map.empty (?co, no_context) = (Some 0, (co1, no_context))"
      "co_stop co1" "(system_step map_put [])\<^sup>*\<^sup>* (start_coordinator (co_disk co1 ''state'') (co_disk co1)) sy \<longrightarrow>
        flow_of sample_active i = Some f \<longrightarrow> (\<exists>h. flow_of (co_engine (sy_co sy)) i = Some h \<and>
         flow_counters h = flow_counters f \<and> (if flow_terminal f then fl_state h = fl_state f else parked (fl_state h)))" for sy i f
    using control_survives_restart [of ?g 9 ?co map_put "\<lambda>p disk. disk p" Map.empty no_context "[]"] by (auto simp: map_put_def)
  from co1(3) [of "start_coordinator (co_disk co1 ''state'') (co_disk co1)" "Id 1" sample_flow]
  show ?thesis using co1(1,2) sample_flow_of sample_flow_owner(3) by auto
qed

end
