(* ===== verification/Rates.thy ===== *)
theory Rates
  imports Overload
begin

text \<open>
  The rates the device programs compute: a number of bytes, a power of two, over a measured time, and such a rate
  times a decimal literal. For every time a stopwatch can read they are finite positive numbers.
\<close>

section \<open>A transfer over a time\<close>

text \<open>A reading of the stopwatch between about a nanosecond and thirty years.\<close>

definition measurable :: "double \<Rightarrow> bool" where
  "measurable dt \<longleftrightarrow> dle 0x3E10000000000000 dt \<and> dle dt 0x41D0000000000000"

lemma vmag_power: "n = Suc q * 2 ^ 52 \<Longrightarrow> k = 52 + q \<Longrightarrow> vmag n = 2 ^ k"
  by (simp add: vmag_def power_add)

lemma vmag_powers:
  "vmag (2 ^ 52) = 2 ^ 52" "vmag (993 * 2 ^ 52) = 2 ^ 1044" "vmag (1053 * 2 ^ 52) = 2 ^ 1104" "vmag (1079 * 2 ^ 52) = 2 ^ 1130"
  by (rule vmag_power [where q = 0], simp, simp, rule vmag_power [where q = 992], simp, simp,
      rule vmag_power [where q = 1052], simp, simp, rule vmag_power [where q = 1078], simp, simp)

lemma vmag_double: "2 ^ 52 \<le> n \<Longrightarrow> vmag (n + 2 ^ 52) = 2 * vmag n"
proof -
  assume n: "2 ^ 52 \<le> n"
  then have "0 < n div 2 ^ 52" by (simp add: div_greater_zero_iff)
  then have "(2 :: nat) ^ (n div 2 ^ 52) = 2 * 2 ^ (n div 2 ^ 52 - 1)" by (cases "n div 2 ^ 52") simp_all
  moreover have "(n + 2 ^ 52) div 2 ^ 52 - 1 = n div 2 ^ 52" "(n + 2 ^ 52) mod 2 ^ 52 = n mod 2 ^ 52" by simp_all
  ultimately show ?thesis using n by (simp add: vmag_def)
qed

lemma measurable_key:
  assumes "measurable dt"
  shows "isfinite dt" "0 < dkey dt" "2 ^ 1044 \<le> vmag (dmag dt)" "vmag (dmag dt) \<le> 2 ^ 1104"
proof -
  have k: "993 * 2 ^ 52 \<le> dkey dt" "dkey dt \<le> 1053 * 2 ^ 52"
    using assms by (simp_all add: measurable_def dle_def) (simp_all add: dkey_def dneg_def dmag_def split: if_splits)
  then show pos: "0 < dkey dt" by simp
  then have m: "993 * 2 ^ 52 \<le> dmag dt" "dmag dt \<le> 1053 * 2 ^ 52" using k nonneg_dkey [of dt] by simp_all
  then show "isfinite dt" by (simp add: isfinite_def inf_mag_def)
  have "vmag (993 * 2 ^ 52) \<le> vmag (dmag dt)" "vmag (dmag dt) \<le> vmag (1053 * 2 ^ 52)"
    using m by (auto intro!: ieee.val_mono simp: inf_mag_def)
  then show "2 ^ 1044 \<le> vmag (dmag dt)" "vmag (dmag dt) \<le> 2 ^ 1104"
    by (simp_all only: vmag_powers)
qed

text \<open>The number of bytes is a power of two, so it is exact as a double.\<close>

lemma quotient_between:
  assumes "measurable dt" "24 \<le> b" "b \<le> 26"
  defines "r \<equiv> ddiv (double_of_u64 (of_nat (2 ^ b))) dt"
  shows "isfinite r" "2 ^ 52 \<le> dmag r" "dmag r \<le> 1079 * 2 ^ 52" "dlt 0 r"
proof -
  note dt = measurable_key [OF assms(1)]
  let ?c = "double_of_u64 (of_nat (2 ^ b))"
  have le: "1023 * 2 ^ 52 + b * 2 ^ 52 \<le> inf_mag" using assms(3) by (simp add: inf_mag_def)
  have w: "vmag (1023 * 2 ^ 52 + b * 2 ^ 52) = 2 ^ b * 2 ^ 1074"
    unfolding power_add [symmetric] by (rule vmag_power [where q = "1022 + b"]) simp_all
  have "(2 :: nat) ^ b \<le> 2 ^ 26" using assms(3) power_increasing [of b 26 "2 :: nat"] by simp
  then have "(2 :: nat) ^ b < 2 ^ 64" by (rule le_less_trans) simp
  then have "unat (of_nat (2 ^ b) :: u64) = 2 ^ b" unfolding unat_of_nat by simp
  then have "dmag ?c = rmag (2 ^ b * 2 ^ 1074) 1" by (simp only: double_of_u64_def mk_rmag_props)
  then have c: "vmag (dmag ?c) = 2 ^ b * 2 ^ 1074" using rmag_vmag [OF le] w by (simp only:)
  have k: "dkey r = int (rmag (2 ^ b * 2 ^ 1074 * 2 ^ 1074) (vmag (dmag dt)))"
    using ddiv_nonneg_key [OF double_of_u64_fin(1) dt(1) double_of_u64_fin(2) dt(2), of "of_nat (2 ^ b)"]
    unfolding c r_def .
  have v: "0 < vmag (dmag dt)" using less_le_trans [OF _ dt(3), of 0] by simp
  have "2 ^ b \<le> (2 :: nat) ^ 26" "(2 :: nat) ^ 24 \<le> 2 ^ b" using assms(2,3) power_increasing [of b 26 "2 :: nat"] power_increasing [of 24 b "2 :: nat"] by simp_all
  then have "2 ^ b * 2 ^ 1074 * 2 ^ 1074 \<le> (2 :: nat) ^ 26 * 2 ^ 1074 * 2 ^ 1074" "(2 :: nat) ^ 24 * 2 ^ 1074 * 2 ^ 1074 \<le> 2 ^ b * 2 ^ 1074 * 2 ^ 1074"
    by (simp_all only: mult_le_mono1)
  then have p: "2 ^ b * 2 ^ 1074 * 2 ^ 1074 \<le> (2 :: nat) ^ 2174" "(2 :: nat) ^ 2172 \<le> 2 ^ b * 2 ^ 1074 * 2 ^ 1074"
    by (simp_all only: power_add [symmetric] arith_simps)
  have "(2 :: nat) ^ 2174 = 2 ^ 1130 * 2 ^ 1044" by (simp only: power_add [symmetric] arith_simps)
  also have "\<dots> \<le> 2 ^ 1130 * vmag (dmag dt)" using dt(3) by (rule mult_le_mono2)
  finally have hi: "rmag (2 ^ b * 2 ^ 1074 * 2 ^ 1074) (vmag (dmag dt)) \<le> 1079 * 2 ^ 52"
    using v order_trans [OF p(1)] by (intro ieee.rnd_le_code) (simp_all only: vmag_powers, simp add: inf_mag_def)
  have "vmag (2 ^ 52) * vmag (dmag dt) \<le> 2 ^ 52 * 2 ^ 1104"
    using dt(4) unfolding vmag_powers by (rule mult_le_mono2)
  also have "\<dots> \<le> (2 :: nat) ^ 2172" by (simp only: power_add [symmetric] arith_simps) (rule power_increasing, simp_all)
  finally have lo: "2 ^ 52 \<le> rmag (2 ^ b * 2 ^ 1074 * 2 ^ 1074) (vmag (dmag dt))"
    using v order_trans [OF _ p(2)] by (intro ieee.code_le_rnd) (assumption, simp add: inf_mag_def, blast)
  have m: "dmag r = rmag (2 ^ b * 2 ^ 1074 * 2 ^ 1074) (vmag (dmag dt))" using k abs_dkey [of r] by linarith
  show "2 ^ 52 \<le> dmag r" "dmag r \<le> 1079 * 2 ^ 52" using m lo hi by simp_all
  then show f: "isfinite r" by (simp add: isfinite_def inf_mag_def)
  show "dlt 0 r" using f k lo by (simp add: dlt_def)
qed

text \<open>A decimal literal \<open>p / q\<close>, correctly rounded; one that is at most two.\<close>

definition d_ratio :: "nat \<Rightarrow> nat \<Rightarrow> double" where
  "d_ratio p q = mk False (rmag (p * 2 ^ 1074) q)"

lemma d_ratio_upto_two:
  assumes "0 < q" "p \<le> 2 * q"
  shows "isfinite (d_ratio p q)" "0 \<le> dkey (d_ratio p q)" "vmag (dmag (d_ratio p q)) \<le> 2 * 2 ^ 1074"
proof -
  have two: "vmag (1024 * 2 ^ 52) = 2 ^ 1075" by (rule vmag_power [where q = 1023]) simp_all
  have dbl: "(2 :: nat) ^ 1075 = 2 * 2 ^ 1074" by (simp only: power_Suc [symmetric] Suc_numeral arith_simps)
  have "p * 2 ^ 1074 \<le> 2 * q * 2 ^ 1074" using assms(2) by (rule mult_le_mono1)
  also have "\<dots> = vmag (1024 * 2 ^ 52) * q" unfolding two dbl by (simp only: ac_simps)
  finally have hi: "rmag (p * 2 ^ 1074) q \<le> 1024 * 2 ^ 52"
    using assms(1) by (intro ieee.rnd_le_code) (assumption, simp add: inf_mag_def)
  have m: "dmag (d_ratio p q) = rmag (p * 2 ^ 1074) q" by (simp only: d_ratio_def mk_rmag_props)
  then show "isfinite (d_ratio p q)" using hi by (simp add: isfinite_def inf_mag_def)
  show "0 \<le> dkey (d_ratio p q)" by (simp add: d_ratio_def dkey_mk)
  have "vmag (dmag (d_ratio p q)) \<le> vmag (1024 * 2 ^ 52)" using m hi by (intro ieee.val_mono) (simp_all add: inf_mag_def)
  then show "vmag (dmag (d_ratio p q)) \<le> 2 * 2 ^ 1074" unfolding two dbl .
qed

text \<open>A measured rate times such a factor is a finite rate.\<close>

lemma dmul_upto_two:
  assumes "isfinite r" "0 \<le> dkey r" "2 ^ 52 \<le> dmag r" "dmag r \<le> 1079 * 2 ^ 52"
    and "isfinite c" "0 \<le> dkey c" "vmag (dmag c) \<le> 2 * 2 ^ 1074"
  shows "isfinite (dmul r c)" "0 \<le> dkey (dmul r c)"
proof -
  let ?v = "vmag (dmag r)" and ?w = "vmag (dmag c)"
  have "?v * ?w \<le> ?v * (2 * 2 ^ 1074)" using assms(7) by (rule mult_le_mono2)
  also have "\<dots> = vmag (dmag r + 2 ^ 52) * 2 ^ 1074" unfolding vmag_double [OF assms(3)] by (simp only: ac_simps)
  finally have hi: "rmag (?v * ?w) (2 ^ 1074) \<le> dmag r + 2 ^ 52"
    using assms(4) by (intro ieee.rnd_le_code) (simp only: zero_less_power, simp add: inf_mag_def, assumption)
  have key: "dkey (dmul r c) = int (rmag (?v * ?w) (2 ^ 1074))" by (rule dmul_nonneg_key [OF assms(1,5,2,6)])
  then show "isfinite (dmul r c)" using hi assms(4) unfolding isfinite_dkey by (simp add: inf_mag_def)
  show "0 \<le> dkey (dmul r c)" unfolding key by simp
qed

end
