(* ===== verification/CudaWorker.thy ===== *)
theory CudaWorker
  imports Scenarios Rates
begin

text \<open>
  The CUDA worker \<^verbatim>\<open>cuda/cu_worker.cu\<close>: a kernel and a timed transfer, whose rate it publishes through the
  coordinator as measured evidence. The CUDA runtime is not part of the repository: its calls are the
  fields of the argument \<open>rt\<close>, over a device state of any type, and the two readings of the clock are \<open>t0\<close> and
  \<open>t1\<close>. The stubs are those of \<open>Worker\<close> with the domain kind and provenance of this program; the printed lines
  are left out.
\<close>

section \<open>Device work\<close>

text \<open>The runtime calls \<^verbatim>\<open>do_cuda_work\<close> makes; a Boolean result stands for \<^verbatim>\<open>cudaSuccess\<close>. A kernel is the
  write each thread makes, by block and thread index.\<close>

type_synonym kernel = "nat \<Rightarrow> nat \<Rightarrow> (int \<times> u8) option"

record 'u Cuda =
  cudaGetDeviceCount :: "'u \<Rightarrow> bool \<times> int"
  cudaMalloc :: "nat \<Rightarrow> 'u \<Rightarrow> (bool \<times> nat) \<times> 'u"
  cudaLaunch :: "nat \<Rightarrow> nat \<Rightarrow> kernel \<Rightarrow> nat \<Rightarrow> 'u \<Rightarrow> 'u"
  cudaDeviceSynchronize :: "'u \<Rightarrow> bool \<times> 'u"
  cudaMemcpyAsync :: "nat \<Rightarrow> nat \<Rightarrow> 'u \<Rightarrow> (bool \<times> u8 list) \<times> 'u"
  cudaFree :: "nat \<Rightarrow> 'u \<Rightarrow> 'u"
  cudaGetLastError :: "'u \<Rightarrow> bool \<times> 'u"

definition char_r :: u8 where
  "char_r = 114"

text \<open>The index is computed in 32-bit unsigned arithmetic and converted to \<^verbatim>\<open>int\<close>.\<close>

definition fill_kernel :: "nat \<Rightarrow> int \<Rightarrow> kernel" where
  "fill_kernel blockDim n blockIdx threadIdx =
    (let i = sint (of_nat blockIdx * of_nat blockDim + of_nat threadIdx :: 32 word)
     in if i < n then Some (i, char_r) else None)"

definition kTransferBytes :: nat where
  "kTransferBytes = 16 * 2 ^ 20"

definition elapsed :: "double \<Rightarrow> double \<Rightarrow> double" where
  "elapsed t0 t1 = (let dt = dsub t1 t0 in if dle dt 0 then d_ratio 1 (10 ^ 9) else dt)"

definition transfer_bps :: "double \<Rightarrow> double \<Rightarrow> double" where
  "transfer_bps t0 t1 = ddiv (double_of_u64 (of_nat kTransferBytes)) (elapsed t0 t1)"

text \<open>The result, and the bytes and the rate where the out-parameters were assigned.\<close>

definition do_cuda_work :: "'u Cuda \<Rightarrow> double \<Rightarrow> double \<Rightarrow> 'u \<Rightarrow> (bool \<times> (u64 \<times> double) option) \<times> 'u" where
  "do_cuda_work rt t0 t1 u =
    (case cudaGetDeviceCount rt u of (e, dev) \<Rightarrow>
     if \<not> e \<or> dev < 1 then ((False, None), u)
     else (case cudaMalloc rt kTransferBytes u of ((e, d), u) \<Rightarrow>
     if \<not> e then ((False, None), u)
     else (case cudaDeviceSynchronize rt
         (cudaLaunch rt (kTransferBytes div 256) 256 (fill_kernel 256 (int kTransferBytes)) d u) of (e, u) \<Rightarrow>
     if \<not> e then ((False, None), cudaFree rt d u)
     else (case cudaMemcpyAsync rt d kTransferBytes u of ((e, host), u) \<Rightarrow>
       let u = snd (cudaDeviceSynchronize rt u) in
       if \<not> e then ((False, None), cudaFree rt d u)
       else let parity = (host ! 0 = char_r \<and> host ! (kTransferBytes - 1) = char_r)
         in (case cudaGetLastError rt (cudaFree rt d u) of (e, u) \<Rightarrow>
           ((parity \<and> e, Some (of_nat kTransferBytes, transfer_bps t0 t1)), u))))))"

section \<open>Coordinator client\<close>

text \<open>Frames are sent and received as in the reference worker, with the version byte checked.\<close>

definition cu_recv_frame :: "(nat \<Rightarrow> 's \<Rightarrow> (u8 list \<times> 's) option) \<Rightarrow> 's \<Rightarrow> (Frame \<times> 's) option" where
  "cu_recv_frame rd s = recv_frame True rd s"

definition cu_send_frame :: "(u8 list \<Rightarrow> 's \<Rightarrow> 'r) \<Rightarrow> MessageType \<Rightarrow> u8 list \<Rightarrow> 's \<Rightarrow> 'r" where
  "cu_send_frame wr t b s = wr (encode_frame \<lparr>frame_type = t, frame_body = b\<rparr>) s"

definition cu_hello :: "'s exchange \<Rightarrow> 's \<Rightarrow> bool \<times> 's" where
  "cu_hello call s = (case call MT_HELLO (wr_str ''cuworker'') s of (fr, s) \<Rightarrow> (fr \<noteq> None, s))"

text \<open>These stubs are written out again in \<^verbatim>\<open>cu_worker.cu\<close> and agree with those of \<^verbatim>\<open>cfworker.cpp\<close>, except that
  \<^verbatim>\<open>do_query\<close> returns the state it was told, and one without an update.\<close>

definition cu_do_register :: "'s exchange \<Rightarrow> WorkerArgs \<Rightarrow> 's \<Rightarrow> bool option \<times> 's" where
  "cu_do_register call g s = do_register call g s"

definition cu_flow_op :: "'s exchange \<Rightarrow> MessageType \<Rightarrow> u64 \<Rightarrow> u64 \<Rightarrow> 's \<Rightarrow> bool option \<times> 's" where
  "cu_flow_op call t fid fg s = send_flow_op call t fid fg s"

definition cu_do_start :: "'s exchange \<Rightarrow> WorkerArgs \<Rightarrow> u64 \<Rightarrow> u64 \<Rightarrow> 's \<Rightarrow> bool option \<times> 's" where
  "cu_do_start call g fid fg s = do_start call g fid fg s"

definition cu_do_query :: "'s exchange \<Rightarrow> u64 \<Rightarrow> 's \<Rightarrow> int option \<times> 's" where
  "cu_do_query call did s = (case do_query call did s of (q, s) \<Rightarrow>
     (map_option (\<lambda>r. case r of None \<Rightarrow> 1 | Some l \<Rightarrow> uint (ql_state l)) q, s))"

lemmas cu_stubs = cu_do_register_def cu_flow_op_def cu_do_start_def cu_do_query_def

definition cu_do_create :: "'s exchange \<Rightarrow> WorkerArgs \<Rightarrow> files \<Rightarrow> 's \<Rightarrow> (u64 \<times> u64) option option \<times> files \<times> 's" where
  "cu_do_create call g files s = (case create_as DK_GPU_HOST_TRANSFER call g s of (r, s) \<Rightarrow>
     (r, note_ref (g_idfile g) (Option.bind r id) files, s))"

definition cu_do_declare :: "'s exchange \<Rightarrow> WorkerArgs \<Rightarrow> string \<Rightarrow> u64 \<Rightarrow> u64 \<Rightarrow> files \<Rightarrow> 's
    \<Rightarrow> (u64 \<times> u64) option option \<times> files \<times> 's" where
  "cu_do_declare call g flowfile did dgen files s = (case declare_as MP_MEASURED call g did dgen s of (r, s) \<Rightarrow>
     (r, note_ref flowfile (Option.bind r id) files, s))"

definition publish_load :: "'s exchange \<Rightarrow> WorkerArgs \<Rightarrow> u64 \<Rightarrow> 's \<Rightarrow> 's" where
  "publish_load = measure_as MP_MEASURED"

text \<open>A formatted read of an unsigned number: its value, whether it succeeded, and the rest. When only white
  space is left the variable keeps its value \<open>old\<close>; a failed conversion gives zero, one out of range the
  largest number.\<close>

definition scan_u64 :: "u64 \<Rightarrow> string \<Rightarrow> u64 \<times> bool \<times> string" where
  "scan_u64 old s = (case dropWhile is_space s of
     [] \<Rightarrow> (old, False, [])
   | c # t \<Rightarrow>
      let cs = (if c = CHR ''-'' \<or> c = CHR ''+'' then t else c # t); ds = takeWhile is_digit cs; n = digits_value ds
      in (if n \<ge> 2 ^ 64 then - 1 else if c = CHR ''-'' then - of_nat n else of_nat n,
          ds \<noteq> [] \<and> n < 2 ^ 64, dropWhile is_digit cs))"

definition read_domain_file :: "WorkerArgs \<Rightarrow> files \<Rightarrow> u64 \<times> u64" where
  "read_domain_file g files = (case files (g_idfile g) of
     None \<Rightarrow> (0, 1)
   | Some s \<Rightarrow> (case scan_u64 0 s of (i, ok, rest) \<Rightarrow> (i, if ok then fst (scan_u64 1 rest) else 1)))"

text \<open>Rates that were not given are taken from the measured transfer.\<close>

definition or_else :: "double \<Rightarrow> double \<Rightarrow> double" where
  "or_else v dflt = (if dle v 0 then dflt else v)"

text \<open>Declare, admit and start a flow, publish the rates and query, as both scenarios do.\<close>

definition cu_flow :: "'s exchange \<Rightarrow> WorkerArgs \<Rightarrow> string \<Rightarrow> u64 \<Rightarrow> double \<Rightarrow> double \<Rightarrow> u64 \<Rightarrow> u64 \<Rightarrow> files \<Rightarrow> 's
    \<Rightarrow> (int option \<times> files) \<times> 's" where
  "cu_flow call g flowfile completed dflt_offered dflt_serviced did dgen files s =
    (let g = g\<lparr>g_bytes := (if g_bytes g = 0 then completed else g_bytes g)\<rparr> in
     case cu_do_declare call g flowfile did dgen files s of (r, files, s) \<Rightarrow> (case r of
       None \<Rightarrow> ((None, files), s)
     | Some None \<Rightarrow> ((Some 1, files), s)
     | Some (Some (fid, fg)) \<Rightarrow> (case cu_flow_op call MT_ADMIT fid fg s of (ok, s) \<Rightarrow>
       if ok \<noteq> Some True then ((Some 1, files), s)
       else (case cu_do_start call g fid fg s of (ok, s) \<Rightarrow>
       if ok \<noteq> Some True then ((Some 1, files), s)
       else let g = g\<lparr>g_offered := or_else (g_offered g) dflt_offered, g_serviced := or_else (g_serviced g) dflt_serviced\<rparr>
         in (case cu_do_query call did (publish_load call g did s) of (q, s) \<Rightarrow>
           ((map_option (\<lambda>_. 0) q, files), s))))))"

definition cu_work :: "'s exchange \<Rightarrow> WorkerArgs \<Rightarrow> string \<Rightarrow> u64 \<Rightarrow> double \<Rightarrow> files \<Rightarrow> 's \<Rightarrow> (int option \<times> files) \<times> 's" where
  "cu_work call g flowfile completed bps files s =
    (let g = g\<lparr>g_capacity := or_else (g_capacity g) bps\<rparr> in
     case cu_do_create call g files s of (r, files, s) \<Rightarrow> (case r of
       None \<Rightarrow> ((None, files), s)
     | Some None \<Rightarrow> ((Some 1, files), s)
     | Some (Some (did, dgen)) \<Rightarrow>
         cu_flow call g flowfile completed (dmul bps (d_ratio 14 10)) (dmul bps (d_ratio 55 100)) did dgen files s))"

definition cu_resurrect :: "'s exchange \<Rightarrow> WorkerArgs \<Rightarrow> string \<Rightarrow> u64 \<Rightarrow> double \<Rightarrow> files \<Rightarrow> 's \<Rightarrow> (int option \<times> files) \<times> 's" where
  "cu_resurrect call g flowfile completed bps files s =
    (case read_domain_file g files of (did, dgen) \<Rightarrow>
     if did = 0 then ((Some 1, files), s)
     else cu_flow call g flowfile completed (dmul bps (d_ratio 9 10)) (dmul bps (d_ratio 8 10)) did dgen files s)"

text \<open>\<^verbatim>\<open>main\<close> with \<^verbatim>\<open>--coord\<close> on a connected socket, up to the closing of the socket; a scenario with another name
  only registers. With \<^verbatim>\<open>--stay\<close> the process then waits until the coordinator hangs up, which only delays what follows.\<close>

definition cu_session :: "'u Cuda \<Rightarrow> double \<Rightarrow> double \<Rightarrow> 'u \<Rightarrow> 's exchange \<Rightarrow> string \<Rightarrow> WorkerArgs \<Rightarrow> string \<Rightarrow> files \<Rightarrow> 's
    \<Rightarrow> (int option \<times> files) \<times> 's" where
  "cu_session rt t0 t1 u call name g flowfile files s = (case cu_hello call s of (ok, s) \<Rightarrow>
     if \<not> ok then ((Some 2, files), s)
     else (case do_cuda_work rt t0 t1 u of ((work_ok, out), u) \<Rightarrow>
     if \<not> work_ok then ((Some 1, files), s)
     else (case (case out of None \<Rightarrow> (0, 0) | Some r \<Rightarrow> r) of (completed, bps) \<Rightarrow> (case cu_do_register call g s of (r, s) \<Rightarrow> (case r of
         None \<Rightarrow> ((None, files), s)
       | Some False \<Rightarrow> ((Some 1, files), s)
       | Some True \<Rightarrow>
          if name = ''work'' then cu_work call g flowfile completed bps files s
          else if name = ''resurrect'' then cu_resurrect call g flowfile completed bps files s
          else ((Some 0, files), s))))))"

text \<open>\<^verbatim>\<open>main\<close> to its end: the socket is closed on every path, by \<^verbatim>\<open>close_socket\<close> or by the exit of the process; \<open>hang\<close> is what that
  does at the other end. The device is reset afterwards, which no later step sees.\<close>

definition cu_main :: "'u Cuda \<Rightarrow> double \<Rightarrow> double \<Rightarrow> 'u \<Rightarrow> 's exchange \<Rightarrow> ('s \<Rightarrow> 's) \<Rightarrow> string \<Rightarrow> WorkerArgs \<Rightarrow> string \<Rightarrow> files \<Rightarrow> 's
    \<Rightarrow> (int option \<times> files) \<times> 's" where
  "cu_main rt t0 t1 u call hang name g flowfile files s =
     (case cu_session rt t0 t1 u call name g flowfile files s of (r, s) \<Rightarrow> (r, hang s))"

text \<open>\<^verbatim>\<open>main\<close> without \<^verbatim>\<open>--coord\<close>: the exit code; with \<^verbatim>\<open>--hold\<close> the process waits to be killed.\<close>

definition cu_standalone :: "'u Cuda \<Rightarrow> double \<Rightarrow> double \<Rightarrow> 'u \<Rightarrow> bool \<Rightarrow> int option" where
  "cu_standalone rt t0 t1 u hold =
    (if hold then None else Some (if fst (fst (do_cuda_work rt t0 t1 u)) then 0 else 1))"

lemma cu_frames:
  "frame_ok f \<Longrightarrow> cu_recv_frame rd_raw (encode_frame f @ rest) = Some (f, rest)"
  "cu_send_frame (write_all send) t b s = send_frame (write_all send) t b s" "cu_recv_frame rd s = worker_recv_frame rd s"
  by (simp_all add: cu_recv_frame_def recv_frame_encoded cu_send_frame_def send_frame_def worker_recv_frame_def)

section \<open>The kernel\<close>

lemma fill_kernel_write:
  assumes "b < grid" "t < 256" "256 * grid < 2 ^ 31"
  shows "fill_kernel 256 (int (256 * grid)) b t = Some (int (256 * b + t), char_r)"
proof -
  have i: "256 * b + t < 256 * grid" using assms by linarith
  have index: "(of_nat b * of_nat 256 + of_nat t :: 32 word) = of_nat (256 * b + t)" by simp
  have "uint (of_nat (256 * b + t) :: 32 word) = int (256 * b + t)"
    using i assms(3) by (subst unsigned_of_nat) (simp add: take_bit_nat_eq_self)
  then have "sint (of_nat (256 * b + t) :: 32 word) = int (256 * b + t)"
    using i assms(3) by (simp add: sint_uint signed_take_bit_int_eq_self)
  then show ?thesis using i unfolding fill_kernel_def Let_def index by simp
qed

text \<open>The launch of the fill kernel covers the buffer exactly: for a length that is a multiple of the block size
  and fits an \<^verbatim>\<open>int\<close>, every thread writes inside the buffer and every byte is written by exactly one thread.\<close>

theorem fill_kernel_exact:
  assumes "n = 256 * grid" "n < 2 ^ 31"
  shows "(\<forall>b t. b < grid \<longrightarrow> t < 256 \<longrightarrow> (\<exists>i<n. fill_kernel 256 (int n) b t = Some (int i, char_r))) \<and>
    (\<forall>i<n. \<exists>!p. fst p < grid \<and> snd p < 256 \<and> fill_kernel 256 (int n) (fst p) (snd p) = Some (int i, char_r))"
proof (intro conjI allI impI)
  have "256 * grid < 2 ^ 31" using assms by simp
  note threads = fill_kernel_write [OF _ _ this, folded assms(1)]
  fix b t :: nat assume "b < grid" "t < 256"
  then show "\<exists>i<n. fill_kernel 256 (int n) b t = Some (int i, char_r)"
    using threads [of b t] assms(1) by (intro exI [of _ "256 * b + t"]) auto
next
  have "256 * grid < 2 ^ 31" using assms by simp
  note threads = fill_kernel_write [OF _ _ this, folded assms(1)]
  fix i assume "i < n"
  then have i: "i div 256 < grid" "i mod 256 < 256" "int (256 * (i div 256) + i mod 256) = int i" using assms(1) by auto
  show "\<exists>!p. fst p < grid \<and> snd p < 256 \<and> fill_kernel 256 (int n) (fst p) (snd p) = Some (int i, char_r)"
  proof (rule ex1I [of _ "(i div 256, i mod 256)"])
    show "fst (i div 256, i mod 256) < grid \<and> snd (i div 256, i mod 256) < 256 \<and>
        fill_kernel 256 (int n) (fst (i div 256, i mod 256)) (snd (i div 256, i mod 256)) = Some (int i, char_r)"
      using threads [OF i(1,2)] i by (simp only: fst_conv snd_conv simp_thms)
  next
    fix p assume p: "fst p < grid \<and> snd p < 256 \<and> fill_kernel 256 (int n) (fst p) (snd p) = Some (int i, char_r)"
    then have "i = 256 * fst p + snd p" using threads [of "fst p" "snd p"] by simp
    then show "p = (i div 256, i mod 256)" using p by (simp add: prod_eq_iff)
  qed
qed

section \<open>Device work succeeds on a working device\<close>

text \<open>What the CUDA documentation promises of a working device: the calls succeed, and after a launch has completed,
  a copy of the buffer has in every place that some thread writes a value that a thread wrote there.\<close>

definition working_device :: "'u Cuda \<Rightarrow> bool" where
  "working_device rt \<longleftrightarrow> (\<forall>u. fst (cudaGetDeviceCount rt u) \<and> 1 \<le> snd (cudaGetDeviceCount rt u)) \<and>
     (\<forall>n u. fst (fst (cudaMalloc rt n u))) \<and> (\<forall>u. fst (cudaDeviceSynchronize rt u)) \<and> (\<forall>u. fst (cudaGetLastError rt u)) \<and>
     (\<forall>grid block k p n u. let r = cudaMemcpyAsync rt p n (snd (cudaDeviceSynchronize rt (cudaLaunch rt grid block k p u))) in
        fst (fst r) \<and> (\<forall>i b t v. i < n \<and> b < grid \<and> t < block \<and> k b t = Some (int i, v) \<longrightarrow>
          (\<exists>b' t'. b' < grid \<and> t' < block \<and> k b' t' = Some (int i, snd (fst r) ! i))))"

lemma cuda_work_succeeds:
  assumes "working_device rt"
  shows "\<exists>u1. do_cuda_work rt t0 t1 u = ((True, Some (of_nat kTransferBytes, transfer_bps t0 t1)), u1)"
proof -
  let ?N = kTransferBytes
  have N: "256 * (?N div 256) = ?N" "256 * (?N div 256) < 2 ^ 31" "0 < ?N" by (simp_all add: kTransferBytes_def)
  define d u1 where "d = snd (fst (cudaMalloc rt ?N u))" and "u1 = snd (cudaMalloc rt ?N u)"
  define u2 where "u2 = snd (cudaDeviceSynchronize rt (cudaLaunch rt (?N div 256) 256 (fill_kernel 256 (int ?N)) d u1))"
  define host u3 where "host = snd (fst (cudaMemcpyAsync rt d ?N u2))" and "u3 = snd (cudaMemcpyAsync rt d ?N u2)"
  have m: "cudaMalloc rt ?N u = ((True, d), u1)"
    using assms by (simp add: working_device_def d_def u1_def prod_eq_iff)
  have s: "cudaDeviceSynchronize rt (cudaLaunch rt (?N div 256) 256 (fill_kernel 256 (int ?N)) d u1) = (True, u2)"
    using assms by (simp add: working_device_def u2_def prod_eq_iff)
  have law: "let r = cudaMemcpyAsync rt d ?N (snd (cudaDeviceSynchronize rt (cudaLaunch rt (?N div 256) 256 (fill_kernel 256 (int ?N)) d u1))) in
        fst (fst r) \<and> (\<forall>i b t v. i < ?N \<and> b < ?N div 256 \<and> t < 256 \<and> fill_kernel 256 (int ?N) b t = Some (int i, v) \<longrightarrow>
          (\<exists>b' t'. b' < ?N div 256 \<and> t' < 256 \<and> fill_kernel 256 (int ?N) b' t' = Some (int i, snd (fst r) ! i)))"
    using assms unfolding working_device_def by blast
  have c: "cudaMemcpyAsync rt d ?N u2 = ((True, host), u3)"
      "\<forall>i b t v. i < ?N \<and> b < ?N div 256 \<and> t < 256 \<and> fill_kernel 256 (int ?N) b t = Some (int i, v) \<longrightarrow>
         (\<exists>b' t'. b' < ?N div 256 \<and> t' < 256 \<and> fill_kernel 256 (int ?N) b' t' = Some (int i, host ! i))"
    using law by (simp_all add: u2_def [symmetric] host_def u3_def prod_eq_iff Let_def)
  have host: "host ! i = char_r" if i: "i < ?N" for i
  proof -
    have "fill_kernel 256 (int ?N) (i div 256) (i mod 256) = Some (int i, char_r)"
      using fill_kernel_write [of "i div 256" "?N div 256" "i mod 256"] N that by (simp add: div_less_iff_less_mult mult.commute)
    moreover have "i div 256 < ?N div 256" using N that by (metis less_mult_imp_div_less mult.commute)
    ultimately obtain b t where "b < ?N div 256" "t < 256" "fill_kernel 256 (int ?N) b t = Some (int i, host ! i)"
      using c(2) [rule_format, of i "i div 256" "i mod 256" char_r] i by auto
    then show ?thesis using fill_kernel_write [of b "?N div 256" t] N by simp
  qed
  have "fst (cudaGetLastError rt (cudaFree rt d (snd (cudaDeviceSynchronize rt u3))))" using assms by (simp add: working_device_def)
  moreover have "fst (cudaGetDeviceCount rt u)" "1 \<le> snd (cudaGetDeviceCount rt u)" using assms by (simp_all add: working_device_def)
  ultimately show ?thesis using m s c(1) host N(3) by (simp add: do_cuda_work_def Let_def split_beta)
qed

section \<open>The id file\<close>

lemma scan_number: "\<forall>c t. rest = c # t \<longrightarrow> \<not> is_digit c \<Longrightarrow> scan_u64 old (to_string_nat (unat x) @ rest) = (x, True, rest)"
proof -
  assume rest: "\<forall>c t. rest = c # t \<longrightarrow> \<not> is_digit c"
  obtain c ds where c: "to_string_nat (unat x) = c # ds" using to_string_nat_digits [of "unat x"] by (cases "to_string_nat (unat x)") auto
  then have dig: "is_digit c" "list_all is_digit (c # ds)" "digits_value (c # ds) = unat x"
    using to_string_nat_digits [of "unat x"] by simp_all
  then have "\<not> is_space c" "c \<noteq> CHR ''-''" "c \<noteq> CHR ''+''" by (auto simp: is_digit_def is_space_def)
  moreover have "takeWhile is_digit ((c # ds) @ rest) = c # ds" "dropWhile is_digit ((c # ds) @ rest) = rest"
    using dig(2) rest by (cases rest; subst takeWhile_append2 dropWhile_append2; auto simp: list_all_iff)+
  ultimately show ?thesis using dig(3) unat_u64_bound [of x] by (simp add: scan_u64_def c Let_def)
qed

lemma scan_space: "scan_u64 old ('' '' @ s) = scan_u64 old s"
  by (simp add: scan_u64_def is_space_def)

text \<open>What a worker notes in the id file is what the next incarnation reads.\<close>

lemma read_noted_domain: "files (g_idfile g) = Some (id_text i gen) \<Longrightarrow> read_domain_file g files = (i, gen)"
  using scan_number [of "'' '' @ to_string_nat (unat gen)" 0 i] scan_number [of "[]" 1 gen]
    scan_space [of 1 "to_string_nat (unat gen)"]
  by (simp add: read_domain_file_def id_text_def is_digit_def)

section \<open>Opening a flow with measured evidence\<close>

text \<open>The arguments with the defaults taken from the transfer.\<close>

definition resolved :: "u64 \<Rightarrow> double \<Rightarrow> double \<Rightarrow> WorkerArgs \<Rightarrow> WorkerArgs" where
  "resolved completed dflt_offered dflt_serviced g = g\<lparr>g_bytes := (if g_bytes g = 0 then completed else g_bytes g),
     g_offered := or_else (g_offered g) dflt_offered, g_serviced := or_else (g_serviced g) dflt_serviced\<rparr>"

lemma cu_flow_opens:
  assumes "r = resolved completed dflt_offered dflt_serviced g" "args_ok r" "engine_inv (co_engine co)"
    and "declare_allowed (worker_options MP_MEASURED r did dgen) (co_engine co)"
    and "next_flow_free (co_engine co)" "ctx = \<lparr>ctx_wid = Id (g_worker g), ctx_boot = Generation (g_boot g)\<rparr>"
    and "domain_of (co_engine co) (Id did) = Some d" "k = cf_next_flow (co_engine co)"
  shows "\<exists>co1 d1. cu_flow (coordinator_link put now) g flowfile completed dflt_offered dflt_serviced did dgen files (co, ctx) =
      ((Some 0, note_ref flowfile (Some (k, 1)) files), (co1, ctx)) \<and>
    cf_flows (co_engine co1) = cf_flows (co_engine co) @ [(Id k, opened_flow MP_MEASURED now r did dgen k)] \<and>
    cf_worker_boot (co_engine co1) = cf_worker_boot (co_engine co) \<and>
    domain_of (co_engine co1) (Id did) = Some d1 \<and> d_flows d1 = d_flows d @ [flow_ref k 1] \<and>
    d_offered_bps d1 = g_offered r \<and> d_serviced_bps d1 = g_serviced r"
proof -
  let ?L = "coordinator_link put now" and ?g = "g\<lparr>g_bytes := (if g_bytes g = 0 then completed else g_bytes g)\<rparr>"
  have ctx: "ctx = \<lparr>ctx_wid = Id (g_worker r), ctx_boot = Generation (g_boot r)\<rparr>" using assms(1,6) by (simp add: resolved_def)
  obtain co1 co2 co3 co4 d4 where o: "declare_as MP_MEASURED ?L r did dgen (co, ctx) = (Some (Some (k, 1)), (co1, ctx))"
      "send_flow_op ?L MT_ADMIT k 1 (co1, ctx) = (Some True, (co2, ctx))" "do_start ?L r k 1 (co2, ctx) = (Some True, (co3, ctx))"
      "measure_as MP_MEASURED ?L r did (co3, ctx) = (co4, ctx)"
      "cf_flows (co_engine co4) = cf_flows (co_engine co) @ [(Id k, opened_flow MP_MEASURED now r did dgen k)]"
      "cf_worker_boot (co_engine co4) = cf_worker_boot (co_engine co)" "domain_of (co_engine co4) (Id did) = Some d4" "d_flows d4 = d_flows d @ [flow_ref k 1]"
      "d_offered_bps d4 = g_offered r" "d_serviced_bps d4 = g_serviced r"
    using flow_opens [OF assms(2) named_provenances(2) assms(3-5) ctx assms(7,8), of put now] by blast
  have "declare_as MP_MEASURED ?L ?g = declare_as MP_MEASURED ?L r" "do_start ?L ?g = do_start ?L r"
    by (simp_all add: fun_eq_iff declare_as_def do_start_def assms(1) resolved_def)
  moreover have "?g\<lparr>g_offered := or_else (g_offered ?g) dflt_offered, g_serviced := or_else (g_serviced ?g) dflt_serviced\<rparr> = r"
    by (simp add: assms(1) resolved_def)
  ultimately have "cu_flow ?L g flowfile completed dflt_offered dflt_serviced did dgen files (co, ctx) =
      ((Some 0, note_ref flowfile (Some (k, 1)) files), (co4\<lparr>co_engine := snd (recompute_domain (Id did) now (co_engine co4))\<rparr>, ctx))"
    using o(1-4) by (simp add: cu_flow_def cu_stubs cu_do_declare_def publish_load_def query_stub Let_def)
  then show ?thesis using o(5-) recompute_fields [OF o(7), of now] by (auto simp: recompute_flows)
qed

lemma hello_stub: "cu_hello (coordinator_link put now) (co, ctx) = (True, (co, ctx))"
  using c_str.round [of "''cuworker''" "[]"]
  by (simp add: cu_hello_def coordinator_link_def handle_def dispatch_def reading_def ok_reply_def reply_def str_ok_def)

lemma registered:
  assumes "args_ok r" "newcomer r (co_engine co)" "g_worker g = g_worker r" "g_boot g = g_boot r" "g_source g = g_source r" "g_sboot g = g_sboot r"
  shows "do_register (coordinator_link put now) g (co, ctx) = (Some True, (co\<lparr>co_engine := enrolled r (co_engine co)\<rparr>,
      \<lparr>ctx_wid = Id (g_worker r), ctx_boot = Generation (g_boot r)\<rparr>))"
proof -
  have "do_register (coordinator_link put now) g = do_register (coordinator_link put now) r"
    using assms(3-) by (simp add: fun_eq_iff do_register_def register_body_def)
  then show ?thesis using register_accepted [OF assms(1,2), of put now ctx] by simp
qed

text \<open>Arguments a CUDA worker may be given: the identities are there, and the rates, where given, are numbers.\<close>

definition cu_args_ok :: "WorkerArgs \<Rightarrow> bool" where
  "cu_args_ok g \<longleftrightarrow> g_worker g \<noteq> 0 \<and> g_boot g \<noteq> 0 \<and> g_source g \<noteq> 0 \<and> g_sboot g \<noteq> 0 \<and>
     isfinite (g_offered g) \<and> isfinite (g_serviced g) \<and> isfinite (g_capacity g)"


lemma transfer_rates:
  assumes "measurable (elapsed t0 t1)" "bps = transfer_bps t0 t1" "0 < q" "p \<le> 2 * q"
  shows "isfinite bps" "0 \<le> dkey bps" "isfinite (dmul bps (d_ratio p q))" "0 \<le> dkey (dmul bps (d_ratio p q))"
proof -
  have "bps = ddiv (double_of_u64 (of_nat (2 ^ 24))) (elapsed t0 t1)" by (simp add: assms(2) transfer_bps_def kTransferBytes_def)
  note b = quotient_between [OF assms(1), of 24, folded this]
  then show f: "isfinite bps" and nn: "0 \<le> dkey bps" by (simp_all add: dlt_def)
  then show "isfinite (dmul bps (d_ratio p q))" "0 \<le> dkey (dmul bps (d_ratio p q))"
    using dmul_upto_two [OF f nn b(2,3) d_ratio_upto_two [OF assms(3,4)]] by simp_all
qed

lemma or_else_fin: "isfinite v \<Longrightarrow> isfinite x \<Longrightarrow> isfinite (or_else v x)"
  "isfinite v \<Longrightarrow> isfinite x \<Longrightarrow> 0 \<le> dkey x \<Longrightarrow> fin_nonneg (or_else v x)"
  by (auto simp: or_else_def fin_nonneg_def dle_def)



section \<open>Death and reincarnation\<close>

lemma fence_domain_found:
  assumes "um_find ds k = Some d"
  shows "\<exists>d1. um_find (fence_domains w b any ds) k = Some d1 \<and> d_flows d1 = d_flows d"
proof -
  have "k \<in> fst ` set (fence_domains w b any ds)"
    using assms fence_domains_keys [of w b any ds] by (metis image_set um_find_def map_of_eq_None_iff option.distinct(1))
  then obtain d1 where d1: "um_find (fence_domains w b any ds) k = Some d1"
    by (metis um_find_def map_of_eq_None_iff not_None_eq)
  then obtain any' where "d1 = snd (fence_domain w b any' d)" using find_fence_domains [OF d1] assms by auto
  then show ?thesis using d1 by (simp add: fence_domain_keeps)
qed

text \<open>The engine after the live worker of a session died.\<close>

lemma end_of_live_session:
  assumes "ctx = \<lparr>ctx_wid = w, ctx_boot = b\<rparr>" "id_valid w" "um_find (cf_worker_boot (co_engine co)) w = Some b"
    and "domain_of (co_engine co) k = Some d"
  shows "fence_worker w b (co_engine co) = (True, co_engine (end_session ctx co))"
    "um_find (cf_worker_boot (co_engine (end_session ctx co))) w = Some (gen_next b)"
    "cf_source_boot (co_engine (end_session ctx co)) = cf_source_boot (co_engine co)"
    "next_flow_free (co_engine (end_session ctx co)) = next_flow_free (co_engine co)"
    "cf_next_flow (co_engine (end_session ctx co)) = cf_next_flow (co_engine co)"
    "cf_active_flows (co_engine (end_session ctx co)) = cf_active_flows (co_engine co)"
    "cf_limits (co_engine (end_session ctx co)) = cf_limits (co_engine co)"
    "\<exists>d1. domain_of (co_engine (end_session ctx co)) k = Some d1 \<and> d_flows d1 = d_flows d"
proof -
  show "\<exists>d1. domain_of (co_engine (end_session ctx co)) k = Some d1 \<and> d_flows d1 = d_flows d"
    using assms fence_domain_found [of "cf_domains (co_engine co)" k d w b False]
    by (simp add: end_session_def fence_worker_def domain_of_def)
qed (use assms in \<open>simp_all add: end_session_def fence_worker_def next_flow_free_def\<close>)

lemma died_flow_parked:
  assumes "engine_inv (co_engine co)" "fence_worker w b (co_engine co) = (True, co_engine (end_session ctx co))" "genv b \<noteq> - 1"
    and "cf_flows (co_engine co1) = cf_flows (co_engine (end_session ctx co)) @ new"
    and "flow_of (co_engine co) i = Some f" "fl_owner_worker f = w" "fl_owner_boot f = b" "\<not> flow_terminal f"
  shows "\<exists>h. flow_of (co_engine co1) i = Some h \<and> parked (fl_state h) \<and> flow_counters h = flow_counters f"
  using fenced_incarnation [OF assms(1-3) session.refl] assms(4-) by (fastforce simp: flow_of_def um_find_append)

lemma hangup_keeps_parked:
  assumes "flow_of (co_engine co) i = Some h" "parked (fl_state h)"
  shows "\<exists>h'. flow_of (co_engine (end_session ctx co)) i = Some h' \<and> parked (fl_state h') \<and> flow_counters h' = flow_counters h"
  using assms
  by (auto simp: end_session_def fence_worker_def flow_of_def fence_flow_def parked_def flow_state_preds flow_counters_def split: option.split)

text \<open>The scenario makes no use of a capacity.\<close>

lemma capacity_unused:
  "cu_do_declare call (g\<lparr>g_capacity := v\<rparr>) = cu_do_declare call g" "cu_do_start call (g\<lparr>g_capacity := v\<rparr>) = cu_do_start call g"
  "publish_load call (g\<lparr>g_capacity := v\<rparr>) = publish_load call g"
  "g\<lparr>g_capacity := v, g_bytes := n\<rparr> = g\<lparr>g_bytes := n, g_capacity := v\<rparr>"
  "g\<lparr>g_capacity := v, g_offered := x, g_serviced := y\<rparr> = g\<lparr>g_offered := x, g_serviced := y, g_capacity := v\<rparr>"
  "g_bytes (g\<lparr>g_capacity := v\<rparr>) = g_bytes g" "g_offered (g\<lparr>g_capacity := v\<rparr>) = g_offered g" "g_serviced (g\<lparr>g_capacity := v\<rparr>) = g_serviced g"
  by (simp_all add: fun_eq_iff cu_stubs cu_do_declare_def declare_as_def do_start_def publish_load_def measure_as_def Let_def)

lemma cu_flow_capacity: "cu_flow call (g\<lparr>g_capacity := v\<rparr>) = cu_flow call g"
  unfolding fun_eq_iff cu_flow_def Let_def capacity_unused by blast

text \<open>Registration succeeds exactly if both boots are newer than what the coordinator has; refused or not, it moves no flow.\<close>

lemma registers_iff:
  assumes "cu_args_ok g" "um_find (cf_worker_boot (co_engine co)) (Id (g_worker g)) = Some (Generation b)"
  shows "\<exists>e1. do_register (coordinator_link put now) g (co, ctx) =
      (Some (b < g_boot g \<and> (case um_find (cf_source_boot (co_engine co)) (Id (g_source g)) of None \<Rightarrow> True | Some sb \<Rightarrow> genv sb < g_sboot g)),
       (co\<lparr>co_engine := e1\<rparr>, \<lparr>ctx_wid = Id (g_worker g), ctx_boot = Generation (g_boot g)\<rparr>)) \<and> cf_flows e1 = cf_flows (co_engine co)"
  using assms
  by (intro exI [of _ "snd (register_source (Id (g_source g)) (Generation (g_sboot g))
      (snd (register_worker (Id (g_worker g)) (Generation (g_boot g)) (co_engine co))))"])
    (auto simp: register_stub Let_def cu_args_ok_def register_worker_def register_source_def id_valid_def gen_valid_def split: option.split)

text \<open>The session of the \<^verbatim>\<open>resurrect\<close> scenario of a newcomer; the capacity of the arguments plays no part in it.\<close>

lemma cu_rejoined:
  assumes "working_device rt" "bps = transfer_bps t0 t1"
    and "r = resolved (of_nat kTransferBytes) (dmul bps (d_ratio 9 10)) (dmul bps (d_ratio 8 10)) (g\<lparr>g_capacity := 0\<rparr>)"
    and "args_ok r" "engine_inv (co_engine co)" "newcomer r (co_engine co)" "domain_of (co_engine co) (Id did) = Some d" "did \<noteq> 0"
    and "files (g_idfile g) = Some (id_text did dgen)" "k = cf_next_flow (co_engine co)"
  shows "\<exists>co1 d1. cu_session rt t0 t1 u (coordinator_link put now) ''resurrect'' g flowfile files (co, ctx) =
      ((Some 0, note_ref flowfile (Some (k, 1)) files), (co1, \<lparr>ctx_wid = Id (g_worker g), ctx_boot = Generation (g_boot g)\<rparr>)) \<and>
    cf_flows (co_engine co1) = cf_flows (co_engine co) @ [(Id k, opened_flow MP_MEASURED now r did dgen k)] \<and>
    um_find (cf_worker_boot (co_engine co1)) (Id (g_worker g)) = Some (Generation (g_boot g)) \<and>
    domain_of (co_engine co1) (Id did) = Some d1 \<and> d_flows d1 = d_flows d @ [flow_ref k 1] \<and> d_offered_bps d1 = g_offered r \<and> d_serviced_bps d1 = g_serviced r"
proof -
  let ?L = "coordinator_link put now" and ?off = "dmul bps (d_ratio 9 10)" and ?srv = "dmul bps (d_ratio 8 10)"
  let ?ctx = "\<lparr>ctx_wid = Id (g_worker g), ctx_boot = Generation (g_boot g)\<rparr> :: Context" and ?c = "co\<lparr>co_engine := enrolled r (co_engine co)\<rparr>"
  have r: "g_worker r = g_worker g" "g_boot r = g_boot g" "g_source r = g_source g" "g_sboot r = g_sboot g" by (simp_all add: assms(3) resolved_def)
  have allowed: "declare_allowed (worker_options MP_MEASURED r did dgen) (co_engine ?c)" "next_flow_free (co_engine ?c)"
    using assms(4,6-8) by (simp_all add: declare_allowed_def worker_options_def args_ok_def newcomer_def id_valid_def
        gen_valid_def domain_of_def next_flow_free_def not_le)
  obtain co1 d1 where o: "cu_flow ?L g flowfile (of_nat kTransferBytes) ?off ?srv did dgen files (?c, ?ctx) =
        ((Some 0, note_ref flowfile (Some (k, 1)) files), (co1, ?ctx))"
      "cf_flows (co_engine co1) = cf_flows (co_engine co) @ [(Id k, opened_flow MP_MEASURED now r did dgen k)]" "cf_worker_boot (co_engine co1) = cf_worker_boot (co_engine ?c)"
      "domain_of (co_engine co1) (Id did) = Some d1" "d_flows d1 = d_flows d @ [flow_ref k 1]" "d_offered_bps d1 = g_offered r" "d_serviced_bps d1 = g_serviced r"
    using cu_flow_opens [OF assms(3,4), of ?c did dgen ?ctx d k put now flowfile files] enrolled_inv [OF assms(5)] allowed assms(7,10)
    by (auto simp: domain_of_def cu_flow_capacity)
  obtain u1 where "do_cuda_work rt t0 t1 u = ((True, Some (of_nat kTransferBytes, bps)), u1)"
    using cuda_work_succeeds [OF assms(1)] assms(2) by blast
  then have "cu_session rt t0 t1 u ?L ''resurrect'' g flowfile files (co, ctx) = ((Some 0, note_ref flowfile (Some (k, 1)) files), (co1, ?ctx))"
    using registered [OF assms(4,6) r [symmetric], of put now ctx] r(1,2) o(1) read_noted_domain [of files g did dgen] assms(8,9)
    by (simp add: cu_session_def cu_stubs hello_stub cu_resurrect_def Let_def)
  moreover have "um_find (cf_worker_boot (co_engine co1)) (Id (g_worker g)) = Some (Generation (g_boot g))" using o(3) r(1,2) by simp
  ultimately show ?thesis using o(2,4-) by blast
qed

text \<open>C18: death and reincarnation of the CUDA worker. When the connection of a registered incarnation ends, its
  unfinished flows are parked with the bytes they had, and stay so. A later incarnation that reads the id file of the domain, on
  a working device and with room for a flow, joins exactly if its boot is past the one that the fence reserved and its source
  boot is newer than the registered one. Then, until its own connection ends, it has a new active flow in that domain, whose
  evidence are the rates given on its command line or, where none was given, 0.9 and 0.8 times its own measured transfer rate;
  it exits with zero and its flow is stale in turn. Otherwise it exits with one and has changed no flow.\<close>

theorem cuda_reincarnation:
  assumes "working_device rt" "measurable (elapsed t0 t1)" "bps = transfer_bps t0 t1" "cu_args_ok g"
    and "engine_inv (co_engine co)" "ctx = \<lparr>ctx_wid = Id (g_worker g), ctx_boot = Generation b\<rparr>" "b \<noteq> - 1"
    and "um_find (cf_worker_boot (co_engine co)) (Id (g_worker g)) = Some (Generation b)"
    and "joins \<longleftrightarrow> b + 1 < g_boot g \<and> (case um_find (cf_source_boot (co_engine co)) (Id (g_source g)) of None \<Rightarrow> True | Some sb \<Rightarrow> genv sb < g_sboot g)"
    and "next_flow_free (co_engine co)" "cf_active_flows (co_engine co) < max_active_flows (cf_limits (co_engine co))"
    and "domain_of (co_engine co) (Id did) = Some d" "did \<noteq> 0" "files (g_idfile g) = Some (id_text did dgen)"
    and "k = cf_next_flow (co_engine co)"
  shows "\<exists>files1 co1 ctx1. cu_session rt t0 t1 u (coordinator_link put now) ''resurrect'' g flowfile files (end_session ctx co, no_context) =
      ((Some (if joins then 0 else 1), files1), (co1, ctx1)) \<and>
    cu_main rt t0 t1 u (coordinator_link put now) coordinator_hangup ''resurrect'' g flowfile files (end_session ctx co, no_context) =
      ((Some (if joins then 0 else 1), files1), (end_session ctx1 co1, no_context)) \<and>
    (\<forall>i f. flow_of (co_engine co) i = Some f \<and> fl_owner_worker f = Id (g_worker g) \<and> fl_owner_boot f = Generation b \<and> \<not> flow_terminal f \<longrightarrow>
       (\<forall>c\<in>{co1, end_session ctx1 co1}. \<exists>h. flow_of (co_engine c) i = Some h \<and> parked (fl_state h) \<and> flow_counters h = flow_counters f)) \<and>
    (if joins then
       \<exists>f d1. cf_flows (co_engine co1) = cf_flows (co_engine (end_session ctx co)) @ [(Id k, f)] \<and> fl_state f = FS_ACTIVE \<and>
         in_flight_bytes f = ByteCounter (if g_bytes g = 0 then of_nat kTransferBytes else g_bytes g) \<and>
         fl_owner_worker f = Id (g_worker g) \<and> fl_owner_boot f = Generation (g_boot g) \<and>
         domain_of (co_engine co1) (Id did) = Some d1 \<and> d_flows d1 = d_flows d @ [flow_ref k 1] \<and>
         d_offered_bps d1 = (if dle (g_offered g) 0 then dmul bps (d_ratio 9 10) else g_offered g) \<and>
         d_serviced_bps d1 = (if dle (g_serviced g) 0 then dmul bps (d_ratio 8 10) else g_serviced g) \<and>
         flow_of (co_engine (end_session ctx1 co1)) (Id k) = Some (f\<lparr>fl_state := FS_STALE\<rparr>)
     else cf_flows (co_engine co1) = cf_flows (co_engine (end_session ctx co)))"
proof -
  let ?L = "coordinator_link put now" and ?co = "end_session ctx co" and ?off = "dmul bps (d_ratio 9 10)" and ?srv = "dmul bps (d_ratio 8 10)"
  let ?ctx = "\<lparr>ctx_wid = Id (g_worker g), ctx_boot = Generation (g_boot g)\<rparr> :: Context"
  have w: "id_valid (Id (g_worker g) :: WorkerId)" using assms(4) by (simp add: cu_args_ok_def id_valid_def)
  note died = end_of_live_session [OF assms(6) w assms(8,12)]
  have b: "gen_next (Generation b :: WorkerBootId) = Generation (b + 1)" "genv (Generation b :: WorkerBootId) \<noteq> - 1"
    using assms(7) by (simp_all add: gen_next_def)
  have parked: "\<exists>h. flow_of (co_engine c) i = Some h \<and> parked (fl_state h) \<and> flow_counters h = flow_counters f"
    if "cf_flows (co_engine co1) = cf_flows (co_engine ?co) @ new" "flow_of (co_engine co) i = Some f" "fl_owner_worker f = Id (g_worker g)"
      "fl_owner_boot f = Generation b" "\<not> flow_terminal f" "c \<in> {co1, end_session ?ctx co1}" for co1 new i f c
    using died_flow_parked [OF assms(5) died(1) b(2) that(1-5)] that(6) hangup_keeps_parked by (metis empty_iff insert_iff)
  obtain u1 where work: "do_cuda_work rt t0 t1 u = ((True, Some (of_nat kTransferBytes, bps)), u1)"
    using cuda_work_succeeds [OF assms(1)] assms(3) by blast
  obtain e1 where reg: "do_register ?L g (?co, no_context) = (Some joins, (?co\<lparr>co_engine := e1\<rparr>, ?ctx))" "cf_flows e1 = cf_flows (co_engine ?co)"
    using registers_iff [OF assms(4) died(2) [unfolded b(1)], of put now no_context] assms(9) died(3) by auto
  show ?thesis
  proof (cases joins)
    case False
    have "cu_session rt t0 t1 u ?L ''resurrect'' g flowfile files (?co, no_context) = ((Some 1, files), (?co\<lparr>co_engine := e1\<rparr>, ?ctx))"
      using work reg(1) False by (simp add: cu_session_def cu_stubs hello_stub)
    then show ?thesis
      using False reg(2) parked [of "?co\<lparr>co_engine := e1\<rparr>" "[]"]
      by (intro exI [of _ files] exI [of _ "?co\<lparr>co_engine := e1\<rparr>"] exI [of _ ?ctx]) (simp add: cu_main_def coordinator_hangup_def)
  next
    case True
    define r where "r = resolved (of_nat kTransferBytes) ?off ?srv (g\<lparr>g_capacity := 0\<rparr>)"
    have r: "g_worker r = g_worker g" "g_boot r = g_boot g" "g_source r = g_source g" "g_sboot r = g_sboot g"
        "g_offered r = or_else (g_offered g) ?off" "g_serviced r = or_else (g_serviced g) ?srv"
        "g_bytes r = (if g_bytes g = 0 then of_nat kTransferBytes else g_bytes g)" "g_capacity r = 0"
      by (simp_all add: r_def resolved_def)
    have ok: "args_ok r" "newcomer r (co_engine ?co)"
      using assms(4,9-11) True died(2-7) b(1) transfer_rates [OF assms(2,3), of 10 9] transfer_rates [OF assms(2,3), of 10 8] or_else_fin
      by (simp_all add: args_ok_def cu_args_ok_def newcomer_def r fin_nonneg_def split: option.splits)
    have inv: "engine_inv (co_engine ?co)" using step_inv [OF good_fence_worker assms(5)] died(1) by (metis snd_conv)
    obtain d0 where d0: "domain_of (co_engine ?co) (Id did) = Some d0" "d_flows d0 = d_flows d" using died(8) by blast
    have free: "next_flow_free (co_engine ?co)" "k = cf_next_flow (co_engine ?co)" using died(4,5) assms(10,15) by simp_all
    let ?f = "opened_flow MP_MEASURED now r did dgen k"
    obtain co1 d1 where main: "cu_session rt t0 t1 u ?L ''resurrect'' g flowfile files (?co, no_context) =
          ((Some 0, note_ref flowfile (Some (k, 1)) files), (co1, ?ctx))"
        and o: "cf_flows (co_engine co1) = cf_flows (co_engine ?co) @ [(Id k, ?f)]" "domain_of (co_engine co1) (Id did) = Some d1"
          "d_flows d1 = d_flows d @ [flow_ref k 1]" "d_offered_bps d1 = g_offered r" "d_serviced_bps d1 = g_serviced r"
        and boot: "um_find (cf_worker_boot (co_engine co1)) (Id (g_worker g)) = Some (Generation (g_boot g))"
      using cu_rejoined [where files = files, OF assms(1,3) r_def ok(1) inv ok(2) d0(1) assms(13,14) free(2), of u put now flowfile no_context] d0(2) by auto
    have f: "fl_state ?f = FS_ACTIVE" "in_flight_bytes ?f = ByteCounter (g_bytes r)" "fl_owner_worker ?f = Id (g_worker g)" "fl_owner_boot ?f = Generation (g_boot g)"
      by (simp_all add: opened_with_def flow_of_options_def worker_options_def r)
    note parks = hangup_parks [OF boot w HOL.refl flow_appended(1) [OF free o(1)]]
    show ?thesis
      using True main f o parks(1) [OF f(3,4,1)] parked [OF o(1)]
      by (intro exI [of _ "note_ref flowfile (Some (k, 1)) files"] exI [of _ co1] exI [of _ ?ctx])
        (simp add: cu_main_def coordinator_hangup_def r or_else_def)
  qed
qed

section \<open>Witnesses\<close>

text \<open>A device that is a memory, where the first thread in block order that writes a byte wins.\<close>

definition first_write :: "nat \<Rightarrow> nat \<Rightarrow> kernel \<Rightarrow> int \<Rightarrow> u8 option" where
  "first_write grid block k i = map_option (\<lambda>(b, t). snd (the (k b t)))
     (List.find (\<lambda>(b, t). k b t \<noteq> None \<and> fst (the (k b t)) = i) (List.product [0..<grid] [0..<block]))"

definition memory_device :: "(int \<Rightarrow> u8) Cuda" where
  "memory_device = \<lparr>cudaGetDeviceCount = \<lambda>u. (True, 1), cudaMalloc = \<lambda>n u. ((True, 0), u),
     cudaLaunch = \<lambda>grid block k p u i. (case first_write grid block k i of None \<Rightarrow> u i | Some v \<Rightarrow> v),
     cudaDeviceSynchronize = \<lambda>u. (True, u), cudaMemcpyAsync = \<lambda>p n u. ((True, map (u \<circ> int) [0..<n]), u),
     cudaFree = \<lambda>p u. u, cudaGetLastError = \<lambda>u. (True, u)\<rparr>"

lemma first_write_by_thread:
  assumes "b < grid" "t < block" "k b t = Some (i, v)"
  shows "\<exists>w b' t'. first_write grid block k i = Some w \<and> b' < grid \<and> t' < block \<and> k b' t' = Some (i, w)"
proof -
  let ?P = "\<lambda>(b, t). k b t \<noteq> None \<and> fst (the (k b t)) = i" and ?ps = "List.product [0..<grid] [0..<block]"
  have "(b, t) \<in> set ?ps" "?P (b, t)" using assms by auto
  then have "List.find ?P ?ps \<noteq> None" unfolding find_None_iff by blast
  then obtain b' t' where f: "List.find ?P ?ps = Some (b', t')" by auto
  then have "?P (b', t')" "(b', t') \<in> set ?ps" unfolding find_Some_iff by (metis nth_mem)+
  then have "first_write grid block k i = Some (snd (the (k b' t')))" "b' < grid" "t' < block" "k b' t' = Some (i, snd (the (k b' t')))"
    using f by (auto simp: first_write_def)
  then show ?thesis by blast
qed

lemma memory_device_works: "working_device memory_device"
proof -
  have "\<exists>b' t'. b' < grid \<and> t' < block \<and> k b' t' = Some (int i, (case first_write grid block k (int i) of None \<Rightarrow> u (int i) | Some v \<Rightarrow> v))"
    if "b < grid" "t < block" "k b t = Some (int i, v)" for grid block k i b t v and u :: "int \<Rightarrow> u8"
    using first_write_by_thread [where k = k, OF that] by fastforce
  then show ?thesis by (simp add: working_device_def memory_device_def) blast
qed

text \<open>A transfer that takes one second, and worker arguments that give no rates.\<close>

lemma second_measurable: "measurable (elapsed 0 d_one)"
proof -
  have "dkey (dsub d_one 0) = dkey d_one" using srnd_dval [of d_one] by (simp add: dkey_dsub)
  then have "0 < dkey (dsub d_one 0)" "\<not> isnan (dsub d_one 0)" "dkey (dsub d_one 0) = 0x3FF0000000000000"
    using dsub_not_nan [of d_one 0] by (simp_all add: dkey_d_one)
  then show ?thesis by (simp add: elapsed_def Let_def measurable_def dle_def) (simp add: double_eval)
qed

definition bare_args :: "u64 \<Rightarrow> WorkerArgs" where
  "bare_args boot = sample_args\<lparr>g_boot := boot, g_sboot := boot, g_bytes := 0, g_offered := 0, g_serviced := 0, g_capacity := 0\<rparr>"

lemma bare_args_ok: "boot \<noteq> 0 \<Longrightarrow> cu_args_ok (bare_args boot)" "dle (g_offered (bare_args boot)) 0" "dle (g_serviced (bare_args boot)) 0"
    "g_bytes (bare_args boot) = 0" "g_idfile (bare_args boot) = ''ids''" "g_worker (bare_args boot) = 1" "g_source (bare_args boot) = 1"
    "g_boot (bare_args boot) = boot" "g_sboot (bare_args boot) = boot"
  by (simp_all add: cu_args_ok_def bare_args_def sample_args_def dle_def)

theorem fill_kernel_exact_witness:
  "\<exists>!p. fst p < 65536 \<and> snd p < 256 \<and> fill_kernel 256 (int 16777216) (fst p) (snd p) = Some (int 16777215, char_r)"
  using fill_kernel_exact [of 16777216 65536, THEN conjunct2, rule_format, of 16777215] by simp


theorem cuda_reincarnation_witness:
  "\<exists>files1 co1 ctx1 h d1. cu_session memory_device 0 d_one (\<lambda>_. 0) (coordinator_link sample_put 9) ''resurrect'' (bare_args 3) ''flow''
      [''ids'' \<mapsto> id_text 1 1] (end_session \<lparr>ctx_wid = Id 1, ctx_boot = Generation 1\<rparr> sample_co, no_context) = ((Some 0, files1), (co1, ctx1)) \<and>
    flow_of (co_engine co1) (Id 1) = Some h \<and> parked (fl_state h) \<and> flow_counters h = flow_counters sample_flow \<and>
    domain_of (co_engine co1) (Id 1) = Some d1 \<and> d_offered_bps d1 = dmul (transfer_bps 0 d_one) (d_ratio 9 10)"
proof -
  obtain d where d: "domain_of (co_engine sample_co) (Id 1) = Some d"
    by (simp add: sample_co_def domain_of_def sample_active_eval um_find_def)
  have n: "case um_find (cf_source_boot (co_engine sample_co)) (Id 1) of None \<Rightarrow> True | Some sb \<Rightarrow> genv sb < 3"
      "next_flow_free (co_engine sample_co)" "cf_active_flows (co_engine sample_co) < max_active_flows (cf_limits (co_engine sample_co))"
    using returning_newcomer by (simp_all add: newcomer_def sample_co_inv returning_args_def sample_args_def cong: option.case_cong)
  let ?ctx = "\<lparr>ctx_wid = Id (g_worker (bare_args 3)), ctx_boot = Generation 1\<rparr> :: Context"
  have ok: "cu_args_ok (bare_args 3)" "engine_inv (co_engine sample_co)" "um_find (cf_worker_boot (co_engine sample_co)) (Id (g_worker (bare_args 3))) = Some (Generation 1)"
      "(1 :: u64) \<noteq> - 1" "(1 :: u64) \<noteq> 0" "[''ids'' \<mapsto> id_text 1 1] (g_idfile (bare_args 3)) = Some (id_text 1 1)"
    using bare_args_ok(1) [of 3] sample_co_inv sample_co_boot by (simp_all add: bare_args_ok)
  have joins: "True \<longleftrightarrow> 1 + 1 < g_boot (bare_args 3) \<and>
      (case um_find (cf_source_boot (co_engine sample_co)) (Id (g_source (bare_args 3))) of None \<Rightarrow> True | Some sb \<Rightarrow> genv sb < g_sboot (bare_args 3))"
    using n(1) by (simp add: bare_args_ok cong: option.case_cong)
  obtain files1 co1 ctx1 where c: "cu_session memory_device 0 d_one (\<lambda>_. 0) (coordinator_link sample_put 9) ''resurrect'' (bare_args 3) ''flow''
      [''ids'' \<mapsto> id_text 1 1] (end_session ?ctx sample_co, no_context) = ((Some (if True then 0 else 1), files1), (co1, ctx1))"
    "\<forall>i f. flow_of (co_engine sample_co) i = Some f \<and> fl_owner_worker f = Id (g_worker (bare_args 3)) \<and> fl_owner_boot f = Generation 1 \<and> \<not> flow_terminal f \<longrightarrow>
       (\<forall>c\<in>{co1, end_session ctx1 co1}. \<exists>h. flow_of (co_engine c) i = Some h \<and> parked (fl_state h) \<and> flow_counters h = flow_counters f)"
    "\<exists>d1. domain_of (co_engine co1) (Id 1) = Some d1 \<and>
       d_offered_bps d1 = (if dle (g_offered (bare_args 3)) 0 then dmul (transfer_bps 0 d_one) (d_ratio 9 10) else g_offered (bare_args 3))"
    using cuda_reincarnation [where files = "[''ids'' \<mapsto> id_text 1 1]", OF memory_device_works second_measurable HOL.refl ok(1,2) HOL.refl ok(4,3) joins n(2,3) d ok(5,6) HOL.refl, of "\<lambda>_. 0" sample_put 9 "''flow''"]
    unfolding if_True by blast
  have "fl_owner_worker sample_flow = Id (g_worker (bare_args 3))" "fl_owner_boot sample_flow = Generation 1" "\<not> flow_terminal sample_flow"
    "flow_of (co_engine sample_co) (Id 1) = Some sample_flow"
    using sample_flow_owner sample_flow_of sample_co_inv by (simp_all add: bare_args_ok)
  then obtain h where "flow_of (co_engine co1) (Id 1) = Some h" "parked (fl_state h)" "flow_counters h = flow_counters sample_flow"
    using c(2) by blast
  then show ?thesis using c(1,3) unfolding bare_args_ok(6) if_True if_P [OF bare_args_ok(2)] by blast
qed

end
