(* ===== verification/Shutdown.thy ===== *)
theory Shutdown
  imports CoordinatorProps
begin

text \<open>
  Shutting the coordinator down. A shutdown request sets the stop flag, closes the listener and the
  sockets in the registry; \<^verbatim>\<open>main\<close> then joins the session threads and saves. A thread blocked in
  \<^verbatim>\<open>recv\<close> on a socket nobody closed would keep \<^verbatim>\<open>main\<close> from ever returning. The invariant \<open>sockets_ok\<close>
  excludes it for every interleaving, and a weight that every step lowers bounds what is left to do.
\<close>

section \<open>Weights\<close>

fun phase_weight :: "phase \<Rightarrow> nat" where
  "phase_weight Ending = 1"
| "phase_weight Leaving = 2"
| "phase_weight Looping = 3"
| "phase_weight Starting = 4"
| "phase_weight ClosingOthers = 4"
| "phase_weight ClosingListener = 5"
| "phase_weight (Received f) = 6"
| "phase_weight Receiving = 7"

fun main_weight :: "main_phase \<Rightarrow> nat" where
  "main_weight Exited = 0"
| "main_weight Joining = 1"
| "main_weight MainLoop = 2"
| "main_weight Accepting = 7"

definition um_sum :: "('v \<Rightarrow> nat) \<Rightarrow> ('k, 'v) umap \<Rightarrow> nat" where
  "um_sum g m = sum_list (map (g \<circ> snd) m)"

lemma um_sum_assign: "um_find m k = Some w \<Longrightarrow> um_sum g (um_assign m k v) + g w = um_sum g m + g v"
  by (induction m) (auto simp: um_sum_def um_find_def um_assign_def split: if_splits)

lemma um_sum_less: "um_find m k = Some w \<Longrightarrow> g v < g w \<Longrightarrow> um_sum g (um_assign m k v) < um_sum g m"
  using um_sum_assign [of m k w g v] by simp

lemma um_sum_assign_new: "um_find m k = None \<Longrightarrow> um_sum g (um_assign m k v) = um_sum g m + g v"
  by (induction m) (auto simp: um_sum_def um_find_def um_assign_def split: if_splits)

lemma um_sum_erase: "um_find m k = Some w \<Longrightarrow> um_sum g (um_erase m k) + g w \<le> um_sum g m"
proof (induction m)
  case (Cons p m)
  have "um_sum g (um_erase m k) \<le> um_sum g m" by (induction m) (auto simp: um_sum_def um_erase_def AList.delete_eq)
  then show ?case using Cons by (auto simp: um_sum_def um_find_def um_erase_def AList.delete_eq split: if_splits)
qed (simp add: um_find_def)

definition steps_left :: "'d System \<Rightarrow> nat" where
  "steps_left sy = main_weight (sy_main sy) + um_sum (phase_weight \<circ> fst) (sy_sessions sy)"

section \<open>The stop flag\<close>

lemma handle_stop:
  assumes "handle put now f co ctx = Some (out, co1, ctx1)"
  shows "co_stop co1 \<longleftrightarrow> co_stop co \<or> frame_type f = MT_SHUTDOWN"
proof (cases "frame_type f = MT_SHUTDOWN")
  case True
  then show ?thesis using assms by (auto simp: handle_def dispatch_def)
next
  case False
  then show ?thesis using assms dispatch_stop [OF False, of put now co ctx] by (auto simp: handle_def split: outcome.splits)
qed

lemma end_session_stop [simp]: "co_stop (end_session ctx co) = co_stop co"
  by (simp add: end_session_def)

lemma stopped_step: "system_step put state sy sy1 \<Longrightarrow> co_stop (sy_co sy) \<Longrightarrow> co_stop (sy_co sy1)"
  by (induction rule: system_step.induct) (auto simp: system_defs handle_stop)

lemma stopped_step_weight: "system_step put state sy sy1 \<Longrightarrow> co_stop (sy_co sy) \<Longrightarrow> steps_left sy1 < steps_left sy"
proof (induction rule: system_step.induct)
  case (finish sy n ctx)
  then show ?case using um_sum_erase [OF finish.hyps, of "phase_weight \<circ> fst"] by (simp add: steps_left_def unreg_sock_def)
next
  case (accept sy n)
  then show ?case by (simp add: steps_left_def um_sum_assign_new)
next
  case (message sy n f ctx now out co1 ctx1)
  then show ?case
    using um_sum_assign [OF message.hyps(1), of "phase_weight \<circ> fst" "(if frame_type f = MT_SHUTDOWN then ClosingListener else Looping, ctx1)"]
    by (auto simp: steps_left_def split: if_splits)
qed (auto simp: steps_left_def system_defs intro: um_sum_less)

section \<open>No session is left behind\<close>

definition phase_at :: "'d System \<Rightarrow> nat \<Rightarrow> phase option" where
  "phase_at sy n = map_option fst (um_find (sy_sessions sy) n)"

definition sockets_ok :: "'d System \<Rightarrow> bool" where
  "sockets_ok sy \<longleftrightarrow> (\<forall>n ph. phase_at sy n = Some ph \<and> ph \<noteq> Starting \<longrightarrow> n \<in> set (sy_socks sy)) \<and>
     (co_stop (sy_co sy) \<longrightarrow> (sy_listening sy \<longrightarrow> (\<exists>m. phase_at sy m = Some ClosingListener)) \<and>
       (\<forall>n. phase_at sy n = Some Receiving \<longrightarrow> n \<in> set (sy_closed sy) \<or>
          (\<exists>m. phase_at sy m = Some ClosingListener \<or> phase_at sy m = Some ClosingOthers)))"

lemma phase_at_simps [simp]:
  "phase_at (goto n ph ctx sy) m = (if m = n then Some ph else phase_at sy m)"
  "phase_at (sy\<lparr>sy_main := p\<rparr>) m = phase_at sy m" "phase_at (sy\<lparr>sy_listening := l\<rparr>) m = phase_at sy m"
  "phase_at (sy\<lparr>sy_co := c\<rparr>) m = phase_at sy m" "phase_at (sy\<lparr>sy_closed := cl\<rparr>) m = phase_at sy m"
  "phase_at (reg_sock n sy) m = phase_at sy m" "phase_at (leave_accept_loop sy) m = phase_at sy m"
  "phase_at (close_other_socks n sy) m = phase_at sy m"
  "phase_at ((unreg_sock n sy)\<lparr>sy_sessions := um_erase (sy_sessions sy) n\<rparr>) m = (if m = n then None else phase_at sy m)"
  by (simp_all add: phase_at_def system_defs)

lemma phase_atI: "um_find (sy_sessions sy) n = Some (ph, ctx) \<Longrightarrow> phase_at sy n = Some ph"
  by (simp add: phase_at_def)

text \<open>A closing call in progress stays in progress unless it is the step that was made.\<close>

lemma sockets_ok_move:
  assumes "sockets_ok sy" "um_find (sy_sessions sy) n = Some (ph, ctx)" "ph \<notin> {ClosingListener, ClosingOthers}"
    and at: "\<And>m. phase_at sy1 m = (if m = n then q else phase_at sy m)"
    and "\<And>m. m \<noteq> n \<or> q \<noteq> None \<Longrightarrow> m \<in> set (sy_socks sy) \<or> m = n \<and> ph = Starting \<Longrightarrow> m \<in> set (sy_socks sy1)"
    and same: "sy_closed sy1 = sy_closed sy" "sy_listening sy1 = sy_listening sy" "co_stop (sy_co sy1) = co_stop (sy_co sy)"
    and "co_stop (sy_co sy) \<Longrightarrow> q \<noteq> Some Receiving"
  shows "sockets_ok sy1"
proof -
  have ph: "phase_at sy n = Some ph" using assms(2) by (rule phase_atI)
  then have keep: "phase_at sy m = Some c \<Longrightarrow> c \<in> {ClosingListener, ClosingOthers} \<Longrightarrow> phase_at sy1 m = Some c" for m c
    using assms(3) at by auto
  have "\<forall>m p. phase_at sy1 m = Some p \<and> p \<noteq> Starting \<longrightarrow> m \<in> set (sy_socks sy1)"
  proof (intro allI impI)
    fix m p assume "phase_at sy1 m = Some p \<and> p \<noteq> Starting"
    then show "m \<in> set (sy_socks sy1)" using assms(1,5) at ph unfolding sockets_ok_def by (cases "m = n") auto
  qed
  moreover have "phase_at sy m = Some Receiving" if "co_stop (sy_co sy)" "phase_at sy1 m = Some Receiving" for m
    using that at assms(9) by (auto split: if_splits)
  ultimately show ?thesis using assms(1) keep unfolding sockets_ok_def same by blast
qed

lemma sockets_ok_step:
  assumes "system_step put state sy sy1" "sockets_ok sy"
  shows "sockets_ok sy1"
  using assms
proof (induction rule: system_step.induct)
  case (close_others sy n ctx)
  have at: "phase_at sy n = Some ClosingOthers" using close_others.hyps by (rule phase_atI)
  then have "m \<noteq> n" if "phase_at sy m = Some ClosingListener" for m using that by auto
  with at show ?case using close_others.prems by (auto simp: sockets_ok_def close_other_socks_def)
next
  case (message sy n f ctx now out co1 ctx1)
  note stop = handle_stop [OF message.hyps(2)]
  show ?case
  proof (cases "frame_type f = MT_SHUTDOWN")
    case True
    have "n \<in> set (sy_socks sy)" using phase_atI [OF message.hyps(1)] message.prems unfolding sockets_ok_def by blast
    with True show ?thesis using message.prems by (auto simp: sockets_ok_def)
  next
    case False
    then show ?thesis using stop by (intro sockets_ok_move [OF message.prems message.hyps(1)]) auto
  qed
next
  case (close_listener sy n ctx)
  have "n \<in> set (sy_socks sy)" using phase_atI [OF close_listener.hyps] close_listener.prems unfolding sockets_ok_def by blast
  then show ?case using close_listener.prems by (auto simp: sockets_ok_def)
next
  case (begin_session sy n ctx)
  show ?case by (rule sockets_ok_move [OF begin_session.prems begin_session.hyps]) (auto simp: reg_sock_def phase_at_def)
next
  case (loop_check sy n ctx)
  show ?case by (rule sockets_ok_move [OF loop_check.prems loop_check.hyps]) auto
next
  case (receive sy n ctx f)
  show ?case by (rule sockets_ok_move [OF receive.prems receive.hyps(1)]) auto
next
  case (disconnect sy n ctx)
  show ?case by (rule sockets_ok_move [OF disconnect.prems disconnect.hyps]) auto
next
  case (leave sy n ctx)
  show ?case by (rule sockets_ok_move [OF leave.prems leave.hyps]) auto
next
  case (finish sy n ctx)
  show ?case by (rule sockets_ok_move [OF finish.prems finish.hyps, where q = None]) (auto simp: unreg_sock_def phase_at_def)
next
  case (accept sy n)
  have "phase_at sy n = None" using accept.hyps(3) by (simp add: phase_at_def)
  then have "m \<noteq> n" if "phase_at sy m = Some c" for m c using that by auto
  then show ?case using accept.prems by (auto simp: sockets_ok_def) blast+
qed (auto simp: sockets_ok_def leave_accept_loop_def stop_coordinator_def)

lemma sockets_ok_run: "(system_step put state)\<^sup>*\<^sup>* sy sy1 \<Longrightarrow> sockets_ok sy \<Longrightarrow> sockets_ok sy1"
  by (induction rule: rtranclp_induct) (auto intro: sockets_ok_step)

section \<open>Shutdown terminates\<close>

text \<open>The process can move without waiting for a client or the operating system: no session that can move, and not
  \<^verbatim>\<open>main\<close>, is blocked in \<^verbatim>\<open>accept\<close> or in \<^verbatim>\<open>recv\<close> on an open socket.\<close>

definition self_driven :: "'d System \<Rightarrow> bool" where
  "self_driven sy \<longleftrightarrow> sy_main sy = MainLoop \<or> (sy_main sy = Accepting \<and> \<not> sy_listening sy) \<or>
     (sy_main sy = Joining \<and> sy_sessions sy = []) \<or>
     (\<exists>n ph. phase_at sy n = Some ph \<and> (ph = Receiving \<longrightarrow> n \<in> set (sy_closed sy)))"

definition frames_defined :: "(string \<Rightarrow> u8 list \<Rightarrow> 'd \<Rightarrow> bool \<times> 'd) \<Rightarrow> 'd System \<Rightarrow> bool" where
  "frames_defined put sy \<longleftrightarrow> (\<forall>n f ctx. um_find (sy_sessions sy) n = Some (Received f, ctx) \<longrightarrow>
     (\<exists>now. handle put now f (sy_co sy) ctx \<noteq> None))"

lemma session_can_move:
  assumes "um_find (sy_sessions sy) n = Some (ph, ctx)" "frames_defined put sy"
  shows "\<exists>sy1. system_step put state sy sy1"
proof (cases ph)
  case (Received f)
  then obtain now out co1 ctx1 where "handle put now f (sy_co sy) ctx = Some (out, co1, ctx1)"
    using assms unfolding frames_defined_def by fastforce
  then show ?thesis using system_step.message assms(1) Received by blast
next
  case Starting then show ?thesis using system_step.begin_session assms(1) by blast
next
  case Looping then show ?thesis using system_step.loop_check assms(1) by blast
next
  case Receiving then show ?thesis using system_step.disconnect assms(1) by blast
next
  case ClosingListener then show ?thesis using system_step.close_listener assms(1) by blast
next
  case ClosingOthers then show ?thesis using system_step.close_others assms(1) by blast
next
  case Leaving then show ?thesis using system_step.leave assms(1) by blast
next
  case Ending then show ?thesis using system_step.finish assms(1) by blast
qed

lemma self_driven_step:
  assumes "self_driven sy" "frames_defined put sy"
  shows "\<exists>sy1. system_step put state sy sy1"
proof -
  consider "sy_main sy = MainLoop" | "sy_main sy = Accepting" | "sy_main sy = Joining" "sy_sessions sy = []"
    | n ph ctx where "um_find (sy_sessions sy) n = Some (ph, ctx)"
    using assms(1) unfolding self_driven_def phase_at_def by fastforce
  then show ?thesis
    using system_step.main_check system_step.accept_failed system_step.join session_can_move [OF _ assms(2)] by cases blast+
qed

lemma stopped_self_driven:
  assumes "sockets_ok sy" "co_stop (sy_co sy)" "sy_main sy \<noteq> Exited"
  shows "self_driven sy"
proof (cases "\<exists>n ph. phase_at sy n = Some ph \<and> ph \<noteq> Receiving")
  case True
  then show ?thesis by (auto simp: self_driven_def)
next
  case False
  then have recv: "phase_at sy n = Some ph \<Longrightarrow> ph = Receiving" for n ph by blast
  then have "\<not> sy_listening sy" "phase_at sy n = Some Receiving \<Longrightarrow> n \<in> set (sy_closed sy)" for n
    using assms(1,2) unfolding sockets_ok_def by blast+
  moreover have "\<exists>n ph. phase_at sy n = Some ph" if "sy_sessions sy \<noteq> []"
    using that by (cases "sy_sessions sy") (auto simp: phase_at_def um_find_def)
  ultimately show ?thesis using assms(3) recv unfolding self_driven_def by (cases "sy_main sy") blast+
qed

lemma stopped_run:
  assumes "(system_step put state ^^ k) sy sy1" "co_stop (sy_co sy)"
  shows "k + steps_left sy1 \<le> steps_left sy \<and> co_stop (sy_co sy1)"
  using assms
proof (induction k arbitrary: sy1)
  case (Suc k)
  then obtain sy2 where "(system_step put state ^^ k) sy sy2" "system_step put state sy2 sy1" by auto
  then show ?case using Suc stopped_step_weight [of put state sy2 sy1] stopped_step [of put state sy2 sy1] by fastforce
qed simp

lemma steps_left_bound: "steps_left sy \<le> 7 * Suc (length (sy_sessions sy))"
proof -
  have "main_weight m \<le> 7" "phase_weight p \<le> 7" for m p by (cases m; simp) (cases p; simp)
  then have "um_sum (phase_weight \<circ> fst) ss \<le> 7 * length ss" for ss :: "(nat, phase \<times> Context) umap"
    by (induction ss) (auto simp: um_sum_def add_mono)
  with \<open>\<And>p m. main_weight m \<le> 7\<close> show ?thesis unfolding steps_left_def by (simp add: add_mono)
qed

text \<open>What holds once \<^verbatim>\<open>main\<close> has left its loop, and once it has returned.\<close>

definition exit_ok :: "(string \<Rightarrow> u8 list \<Rightarrow> 'd \<Rightarrow> bool \<times> 'd) \<Rightarrow> string \<Rightarrow> 'd System \<Rightarrow> bool" where
  "exit_ok put state sy \<longleftrightarrow> (sy_main sy = Joining \<or> sy_main sy = Exited \<longrightarrow> \<not> sy_listening sy) \<and>
     (sy_main sy = Exited \<longrightarrow> sy_sessions sy = [] \<and> (state \<noteq> [] \<longrightarrow>
       (\<exists>d. co_disk (sy_co sy) = snd (put state (save_file (co_engine (sy_co sy))) d))))"

lemma exit_ok_step: "system_step put state sy sy1 \<Longrightarrow> exit_ok put state sy \<Longrightarrow> exit_ok put state sy1"
  by (induction rule: system_step.induct) (auto simp: exit_ok_def system_defs stop_coordinator_def)

lemma exit_ok_run: "(system_step put state)\<^sup>*\<^sup>* sy sy1 \<Longrightarrow> exit_ok put state sy \<Longrightarrow> exit_ok put state sy1"
  by (induction rule: rtranclp_induct) (auto intro: exit_ok_step)

text \<open>C17: a shutdown request is carried out whatever the other sessions are doing. From the moment the stop flag
  is set every step, of whichever thread, brings the process closer to its end, within seven steps per session and for
  \<^verbatim>\<open>main\<close>; until it has ended it never waits for a client, and some step is possible unless a frame has
  undefined behaviour. When it has ended, no session is left, the listener is closed and the state file
  holds the final engine.\<close>

theorem shutdown_terminates:
  assumes "(system_step put state)\<^sup>*\<^sup>* (start_coordinator start disk) sy" "co_stop (sy_co sy)"
    and "(system_step put state ^^ k) sy sy1"
  shows "k \<le> 7 * Suc (length (sy_sessions sy)) \<and>
    (sy_main sy1 \<noteq> Exited \<longrightarrow> self_driven sy1 \<and> (frames_defined put sy1 \<longrightarrow> (\<exists>sy2. system_step put state sy1 sy2))) \<and>
    (sy_main sy1 = Exited \<longrightarrow> sy_sessions sy1 = [] \<and> \<not> sy_listening sy1 \<and> (state \<noteq> [] \<longrightarrow>
       (\<exists>d. co_disk (sy_co sy1) = snd (put state (save_file (co_engine (sy_co sy1))) d))))"
proof -
  have run: "(system_step put state)\<^sup>*\<^sup>* (start_coordinator start disk) sy1"
    using assms(1,3) by (meson relpowp_imp_rtranclp rtranclp_trans)
  have "sockets_ok sy1" using sockets_ok_run [OF run] by (simp add: sockets_ok_def start_coordinator_def phase_at_def)
  moreover have "exit_ok put state sy1"
    using exit_ok_run [OF run] by (simp add: exit_ok_def start_coordinator_def)
  ultimately show ?thesis
    using stopped_run [OF assms(3,2)] steps_left_bound [of sy] stopped_self_driven [of sy1] self_driven_step [of sy1 put state]
    by (auto simp: exit_ok_def)
qed

section \<open>Witness\<close>

definition shutdown_frame :: Frame where
  "shutdown_frame = \<lparr>frame_type = MT_SHUTDOWN, frame_body = []\<rparr>"

definition started :: "unit Coordinator" where
  "started = sy_co (start_coordinator None ())"

text \<open>One client that asks for shutdown: the process up to the handled request, and what is left of it afterwards.\<close>

definition served :: "bool \<Rightarrow> main_phase \<Rightarrow> bool \<Rightarrow> (nat \<times> phase \<times> Context) list \<Rightarrow> nat list \<Rightarrow> unit System" where
  "served stop m l ss socks = \<lparr>sy_co = started\<lparr>co_stop := stop\<rparr>, sy_main = m, sy_listening = l, sy_sessions = ss,
     sy_socks = socks, sy_closed = []\<rparr>"

lemmas served_simps = served_def goto_def reg_sock_def unreg_sock_def close_other_socks_def leave_accept_loop_def
  stop_coordinator_def end_session_def no_context_def id_valid_def um_find_def um_assign_def um_erase_def

lemma shutdown_handled:
  "handle sample_put now shutdown_frame (started\<lparr>co_stop := False\<rparr>) no_context =
    Some (ok_reply, started\<lparr>co_stop := True\<rparr>, no_context)"
  by (simp add: handle_def dispatch_def shutdown_frame_def)

lemma shutdown_request_run:
  "(system_step sample_put [])\<^sup>*\<^sup>* (start_coordinator None ()) (served True MainLoop True [(0, ClosingListener, no_context)] [0])"
proof -
  let ?s = "system_step sample_put ([] :: string)"
  let ?at = "\<lambda>ph. served False MainLoop True [(0, ph, no_context)]"
  have "?s (served False MainLoop True [] []) (served False Accepting True [] [])"
    using system_step.main_check [of "served False MainLoop True [] []" sample_put "[]"] by (simp add: served_simps)
  moreover have "?s (served False Accepting True [] []) (?at Starting [])"
    using system_step.accept [of "served False Accepting True [] []" 0 sample_put "[]"] by (simp add: served_simps)
  moreover have "?s (?at Starting []) (?at Looping [0])"
    using system_step.begin_session [of "?at Starting []" 0 no_context sample_put "[]"] by (simp add: served_simps)
  moreover have "?s (?at Looping [0]) (?at Receiving [0])"
    using system_step.loop_check [of "?at Looping [0]" 0 no_context sample_put "[]"] by (simp add: served_simps)
  moreover have "?s (?at Receiving [0]) (?at (Received shutdown_frame) [0])"
    using system_step.receive [of "?at Receiving [0]" 0 no_context sample_put "[]" shutdown_frame] by (simp add: served_simps)
  moreover have "?s (?at (Received shutdown_frame) [0]) (served True MainLoop True [(0, ClosingListener, no_context)] [0])"
    using system_step.message [of "?at (Received shutdown_frame) [0]" 0 shutdown_frame no_context sample_put 0 _ _ _ "[]"] shutdown_handled [of 0]
    by (simp add: served_simps) (simp add: shutdown_frame_def)
  ultimately have "(?s ^^ 6) (served False MainLoop True [] []) (served True MainLoop True [(0, ClosingListener, no_context)] [0])"
    by (auto simp: eval_nat_numeral intro!: relcomppI)
  moreover have "start_coordinator None () = served False MainLoop True [] []"
    by (simp add: served_def started_def start_coordinator_def)
  ultimately show ?thesis by (simp add: relpowp_imp_rtranclp)
qed

lemma shutdown_completion_run:
  "(system_step sample_put [] ^^ 7) (served True MainLoop True [(0, ClosingListener, no_context)] [0]) (served True Exited False [] [])"
proof -
  let ?s = "system_step sample_put ([] :: string)"
  let ?at = "\<lambda>l ph. served True MainLoop l [(0, ph, no_context)] [0]"
  have "?s (?at True ClosingListener) (?at False ClosingOthers)"
    using system_step.close_listener [of "?at True ClosingListener" 0 no_context sample_put "[]"] by (simp add: served_simps)
  moreover have "?s (?at False ClosingOthers) (?at False Looping)"
    using system_step.close_others [of "?at False ClosingOthers" 0 no_context sample_put "[]"] by (simp add: served_simps)
  moreover have "?s (?at False Looping) (?at False Leaving)"
    using system_step.loop_check [of "?at False Looping" 0 no_context sample_put "[]"] by (simp add: served_simps)
  moreover have "?s (?at False Leaving) (?at False Ending)"
    using system_step.leave [of "?at False Leaving" 0 no_context sample_put "[]"] by (simp add: served_simps)
  moreover have "?s (?at False Ending) (served True MainLoop False [] [])"
    using system_step.finish [of "?at False Ending" 0 no_context sample_put "[]"] by (simp add: served_simps)
  moreover have "?s (served True MainLoop False [] []) (served True Joining False [] [])"
    using system_step.main_check [of "served True MainLoop False [] []" sample_put "[]"] by (simp add: served_simps)
  moreover have "?s (served True Joining False [] []) (served True Exited False [] [])"
    using system_step.join [of "served True Joining False [] []" sample_put "[]"] by (simp add: served_simps)
  ultimately show ?thesis by (auto simp: eval_nat_numeral intro!: relcomppI)
qed

theorem shutdown_terminates_witness:
  "\<exists>sy sy1. (system_step sample_put [])\<^sup>*\<^sup>* (start_coordinator None ()) sy \<and> co_stop (sy_co sy) \<and> sy_sessions sy \<noteq> [] \<and>
     (system_step sample_put [] ^^ 7) sy sy1 \<and> sy_main sy1 = Exited \<and> sy_sessions sy1 = [] \<and> \<not> sy_listening sy1"
proof -
  have "co_stop (sy_co (served True MainLoop True [(0, ClosingListener, no_context)] [0]))" by (simp add: served_def)
  note shutdown_terminates [OF shutdown_request_run this shutdown_completion_run]
  then show ?thesis using shutdown_request_run shutdown_completion_run
    by (intro exI [of _ "served True MainLoop True [(0, ClosingListener, no_context)] [0]"] exI [of _ "served True Exited False [] []"])
      (simp add: served_def)
qed

end
