(* ===== verification/Arguments.thy ===== *)
theory Arguments
  imports CudaWorker Shutdown
begin

text \<open>
  Command lines of the coordinator and of both workers, and their \<^verbatim>\<open>main\<close> functions: of the workers to the closed
  socket, of the coordinator up to the listening process. Arguments are given without the program name. Whether Winsock starts, a connection
  is made or the port can be listened on is an argument.
\<close>

section \<open>Numbers\<close>

definition lower :: "char \<Rightarrow> char" where
  "lower c = (let n = of_char c :: nat in if 65 \<le> n \<and> n \<le> 90 then char_of (n + 32) else c)"

definition has_prefix :: "string \<Rightarrow> string \<Rightarrow> bool" where
  "has_prefix p s \<longleftrightarrow> map lower (take (length p) s) = p"

definition is_xdigit :: "char \<Rightarrow> bool" where
  "is_xdigit c \<longleftrightarrow> is_digit c \<or> (let n = of_char (lower c) :: nat in 97 \<le> n \<and> n \<le> 102)"

definition xdigits_value :: "string \<Rightarrow> nat" where
  "xdigits_value ds = fold (\<lambda>c n. 16 * n + (if is_digit c then of_char c - 48 else of_char (lower c) - 87)) ds 0"

text \<open>A sign in front of a number, and the rest.\<close>

definition take_sign :: "string \<Rightarrow> bool \<times> string" where
  "take_sign s = (case s of
     [] \<Rightarrow> (False, [])
   | c # t \<Rightarrow> if c = CHR ''-'' then (True, t) else if c = CHR ''+'' then (False, t) else (False, s))"

text \<open>The exponent after \<open>mark\<close>, zero when there is none.\<close>

definition exponent_of :: "char \<Rightarrow> string \<Rightarrow> int" where
  "exponent_of mark s = (case s of
     [] \<Rightarrow> 0
   | c # t \<Rightarrow> if lower c \<noteq> mark then 0
       else (case take_sign t of (neg, u) \<Rightarrow>
         let n = int (digits_value (takeWhile is_digit u)) in if neg then - n else n))"

text \<open>Digits around a point: the digits, how many are after the point, and the rest.\<close>

definition mantissa :: "(char \<Rightarrow> bool) \<Rightarrow> string \<Rightarrow> string \<times> nat \<times> string" where
  "mantissa dig s = (case dropWhile dig s of
     c # t \<Rightarrow> if c = CHR ''.'' then (takeWhile dig s @ takeWhile dig t, length (takeWhile dig t), dropWhile dig t)
             else (takeWhile dig s, 0, c # t)
   | [] \<Rightarrow> (takeWhile dig s, 0, []))"

definition scaled :: "nat \<Rightarrow> nat \<Rightarrow> int \<Rightarrow> nat" where
  "scaled base m e = (if 0 \<le> e then rmag (m * base ^ nat e * 2 ^ 1074) 1 else rmag (m * 2 ^ 1074) (base ^ nat (- e)))"

text \<open>\<^verbatim>\<open>atof\<close>: the correctly rounded value of the longest number at the start, zero without one.\<close>

definition atof :: "string \<Rightarrow> double" where
  "atof s = (case take_sign (dropWhile is_space s) of (neg, t) \<Rightarrow>
     if has_prefix ''inf'' t then mk neg inf_mag
     else if has_prefix ''nan'' t then mk neg 0x7FF8000000000000
     else case mantissa is_xdigit (drop 2 t) of (hs, hk, hrest) \<Rightarrow>
     if has_prefix ''0x'' t \<and> hs \<noteq> [] then mk neg (scaled 2 (xdigits_value hs) (exponent_of (CHR ''p'') hrest - 4 * int hk))
     else case mantissa is_digit t of (ds, k, rest) \<Rightarrow>
     if ds = [] then 0 else mk neg (scaled 10 (digits_value ds) (exponent_of (CHR ''e'') rest - int k)))"

text \<open>\<^verbatim>\<open>atoi\<close>; a value that does not fit an \<^verbatim>\<open>int\<close> is undefined.\<close>

definition atoi :: "string \<Rightarrow> int option" where
  "atoi s = (case take_sign (dropWhile is_space s) of (neg, t) \<Rightarrow>
     let n = int (digits_value (takeWhile is_digit t)); v = (if neg then - n else n)
     in if - (2 ^ 31) \<le> v \<and> v < 2 ^ 31 then Some v else None)"

section \<open>Workers\<close>

record CommandLine =
  cl_port :: "16 word"
  cl_scenario :: string
  cl_stay :: bool
  cl_args :: WorkerArgs
  cl_flowfile :: string

definition default_command_line :: "u64 \<Rightarrow> CommandLine" where
  "default_command_line cls = \<lparr>cl_port = 0, cl_scenario = [], cl_stay = False,
     cl_args = \<lparr>g_worker = 1, g_boot = 1, g_source = 1, g_sboot = 1, g_domain = 0, g_dgen = 0, g_bytes = 0, g_class = cls,
       g_delta = 0, g_offered = 0, g_serviced = 0, g_capacity = 0, g_idfile = [], g_path = []\<rparr>, cl_flowfile = []\<rparr>"

type_synonym setter = "string \<Rightarrow> CommandLine \<Rightarrow> CommandLine"

abbreviation on_args :: "(string \<Rightarrow> WorkerArgs \<Rightarrow> WorkerArgs) \<Rightarrow> setter" where
  "on_args f \<equiv> (\<lambda>v c. c\<lparr>cl_args := f v (cl_args c)\<rparr>)"

definition common_flags :: "(string \<times> setter) list" where
  "common_flags =
    [(''--port'', \<lambda>v c. c\<lparr>cl_port := ucast (strtoull v)\<rparr>), (''--scenario'', \<lambda>v c. c\<lparr>cl_scenario := v\<rparr>),
     (''--worker'', on_args (\<lambda>v g. g\<lparr>g_worker := strtoull v\<rparr>)), (''--boot'', on_args (\<lambda>v g. g\<lparr>g_boot := strtoull v\<rparr>)),
     (''--source'', on_args (\<lambda>v g. g\<lparr>g_source := strtoull v\<rparr>)), (''--sboot'', on_args (\<lambda>v g. g\<lparr>g_sboot := strtoull v\<rparr>)),
     (''--bytes'', on_args (\<lambda>v g. g\<lparr>g_bytes := strtoull v\<rparr>)), (''--class'', on_args (\<lambda>v g. g\<lparr>g_class := strtoull v\<rparr>)),
     (''--offered'', on_args (\<lambda>v g. g\<lparr>g_offered := atof v\<rparr>)), (''--serviced'', on_args (\<lambda>v g. g\<lparr>g_serviced := atof v\<rparr>)),
     (''--capacity'', on_args (\<lambda>v g. g\<lparr>g_capacity := atof v\<rparr>)), (''--idfile'', on_args (\<lambda>v g. g\<lparr>g_idfile := v\<rparr>))]"

definition worker_flags :: "(string \<times> setter) list" where
  "worker_flags = common_flags @
    [(''--domain'', on_args (\<lambda>v g. g\<lparr>g_domain := strtoull v\<rparr>)), (''--dgen'', on_args (\<lambda>v g. g\<lparr>g_dgen := strtoull v\<rparr>)),
     (''--delta'', on_args (\<lambda>v g. g\<lparr>g_delta := strtoull v\<rparr>)), (''--path'', on_args (\<lambda>v g. g\<lparr>g_path := v\<rparr>))]"

definition cu_flags :: "(string \<times> setter) list" where
  "cu_flags = common_flags @ [(''--flowfile'', \<lambda>v c. c\<lparr>cl_flowfile := v\<rparr>)]"

text \<open>A flag takes the next argument, the empty string when there is none; other arguments are skipped.\<close>

fun arg_scan :: "(string \<times> setter) list \<Rightarrow> string list \<Rightarrow> CommandLine \<Rightarrow> CommandLine" where
  "arg_scan fs [] c = c"
| "arg_scan fs [a] c = (case map_of fs a of
     Some f \<Rightarrow> f [] c
   | None \<Rightarrow> if a = ''--stay'' then c\<lparr>cl_stay := True\<rparr> else c)"
| "arg_scan fs (a # v # rest) c = (case map_of fs a of
     Some f \<Rightarrow> arg_scan fs rest (f v c)
   | None \<Rightarrow> arg_scan fs (v # rest) (if a = ''--stay'' then c\<lparr>cl_stay := True\<rparr> else c))"

definition worker_program :: "bool \<Rightarrow> bool \<Rightarrow> 's exchange \<Rightarrow> ('s \<Rightarrow> 's) \<Rightarrow> string list \<Rightarrow> files \<Rightarrow> 's \<Rightarrow> (int option \<times> files) \<times> 's" where
  "worker_program winsock linked call hang args files s =
    (let c = arg_scan worker_flags args (default_command_line 0)
     in if \<not> winsock \<or> \<not> linked then ((Some 2, files), s)
        else worker_main call hang (cl_scenario c) (cl_args c) files s)"

definition cu_program :: "bool \<Rightarrow> bool \<Rightarrow> 'u Cuda \<Rightarrow> double \<Rightarrow> double \<Rightarrow> 'u \<Rightarrow> 's exchange \<Rightarrow> ('s \<Rightarrow> 's) \<Rightarrow> string list \<Rightarrow> files \<Rightarrow> 's
    \<Rightarrow> (int option \<times> files) \<times> 's" where
  "cu_program winsock linked rt t0 t1 u call hang args files s =
    (if ''--coord'' \<notin> set args then ((cu_standalone rt t0 t1 u (''--hold'' \<in> set args), files), s)
     else let c = arg_scan cu_flags args (default_command_line 1)
       in if cl_port c = 0 \<or> \<not> winsock \<or> \<not> linked then ((Some 2, files), s)
          else cu_main rt t0 t1 u call hang (cl_scenario c) (cl_args c) (cl_flowfile c) files s)"

section \<open>The coordinator\<close>

text \<open>Port and state path; \<^verbatim>\<open>--port\<close> and \<^verbatim>\<open>--state\<close> need a value.\<close>

fun coordinator_args :: "string list \<Rightarrow> 16 word \<times> string \<Rightarrow> (16 word \<times> string) option" where
  "coordinator_args (a # v # rest) (port, state) =
    (if a = ''--port'' then (case atoi v of None \<Rightarrow> None | Some n \<Rightarrow> coordinator_args rest (of_int n, state))
     else if a = ''--state'' then coordinator_args rest (port, v)
     else coordinator_args (v # rest) (port, state))"
| "coordinator_args _ r = Some r"

datatype 'd start = Undefined_arguments | Exit int | Running string "'d System"

definition coordinator_program :: "bool \<Rightarrow> bool \<Rightarrow> (string \<Rightarrow> u8 list option) \<Rightarrow> string list \<Rightarrow> 'd \<Rightarrow> 'd start" where
  "coordinator_program winsock listening get args disk = (case coordinator_args args (0, []) of
     None \<Rightarrow> Undefined_arguments
   | Some (port, state) \<Rightarrow>
       if port = 0 \<or> \<not> winsock \<or> \<not> listening then Exit 2
       else Running state (start_coordinator (if state = [] then None else get state) disk))"

section \<open>Numbers read back\<close>

lemma take_sign_digit: "is_digit c \<Longrightarrow> take_sign (c # t) = (False, c # t)"
  by (auto simp: take_sign_def is_digit_def)

lemma strtoull_text: "strtoull (to_string_nat (unat x)) = x"
proof -
  obtain c ds where c: "to_string_nat (unat x) = c # ds" using to_string_nat_digits [of "unat x"] by (cases "to_string_nat (unat x)") auto
  then have dig: "is_digit c" "list_all is_digit (c # ds)" "digits_value (c # ds) = unat x"
    using to_string_nat_digits [of "unat x"] by simp_all
  then have "\<not> is_space c" "c \<noteq> CHR ''-''" "c \<noteq> CHR ''+''" by (auto simp: is_digit_def is_space_def)
  moreover have "takeWhile is_digit (c # ds) = c # ds" using dig(2) by (simp add: takeWhile_eq_all_conv list_all_iff)
  ultimately show ?thesis using dig(3) unat_u64_bound [of x] by (simp add: strtoull_def c Let_def)
qed

lemma digit_not_letter: "is_digit c \<Longrightarrow> lower c = c \<and> c \<noteq> CHR ''i'' \<and> c \<noteq> CHR ''n'' \<and> c \<noteq> CHR ''x'' \<and> c \<noteq> CHR ''.''"
  by (auto simp: is_digit_def lower_def Let_def)

lemma atof_text: "atof (to_string_nat (unat x)) = double_of_u64 x"
proof -
  obtain c ds where c: "to_string_nat (unat x) = c # ds" using to_string_nat_digits [of "unat x"] by (cases "to_string_nat (unat x)") auto
  then have dig: "is_digit c" "list_all is_digit (c # ds)" "digits_value (c # ds) = unat x"
    using to_string_nat_digits [of "unat x"] by simp_all
  then have "\<not> is_space c" by (auto simp: is_digit_def is_space_def)
  moreover have "dropWhile is_digit (c # ds) = []" "takeWhile is_digit (c # ds) = c # ds"
    using dig(2) by (simp_all add: takeWhile_eq_all_conv dropWhile_eq_Nil_conv list_all_iff)
  then have "mantissa is_digit (c # ds) = (c # ds, 0, [])" by (simp add: mantissa_def)
  moreover have "\<not> has_prefix ''inf'' (c # ds)" "\<not> has_prefix ''nan'' (c # ds)"
    using digit_not_letter [OF dig(1)] by (auto simp: has_prefix_def)
  moreover have "\<not> has_prefix ''0x'' (c # ds)"
    using dig(2) digit_not_letter by (cases ds) (auto simp: has_prefix_def)
  ultimately show ?thesis
    using dig(3) by (simp add: atof_def c take_sign_digit [OF dig(1)] exponent_of_def scaled_def double_of_u64_def split: prod.split)
qed

section \<open>A launched worker\<close>

text \<open>The command line of the drive scenario, as the test scripts give it.\<close>

definition drive_command :: "16 word \<Rightarrow> WorkerArgs \<Rightarrow> u64 \<Rightarrow> u64 \<Rightarrow> u64 \<Rightarrow> string list" where
  "drive_command port g offered serviced capacity =
    [''--port'', to_string_nat (unat port), ''--scenario'', ''drive'', ''--worker'', to_string_nat (unat (g_worker g)),
     ''--boot'', to_string_nat (unat (g_boot g)), ''--source'', to_string_nat (unat (g_source g)),
     ''--sboot'', to_string_nat (unat (g_sboot g)), ''--class'', to_string_nat (unat (g_class g)),
     ''--bytes'', to_string_nat (unat (g_bytes g)), ''--capacity'', to_string_nat (unat capacity),
     ''--offered'', to_string_nat (unat offered), ''--serviced'', to_string_nat (unat serviced), ''--idfile'', g_idfile g]"

definition drive_args :: "WorkerArgs \<Rightarrow> u64 \<Rightarrow> u64 \<Rightarrow> u64 \<Rightarrow> WorkerArgs" where
  "drive_args g offered serviced capacity = g\<lparr>g_domain := 0, g_dgen := 0, g_delta := 0, g_path := [],
     g_offered := double_of_u64 offered, g_serviced := double_of_u64 serviced, g_capacity := double_of_u64 capacity\<rparr>"

lemma strtoull_port: "ucast (strtoull (to_string_nat (unat port))) = (port :: 16 word)"
proof -
  have "unat port < 2 ^ 64" using unsigned_less [of port, where ?'a = nat] by simp
  then have "unat port = unat (ucast port :: u64)" by (simp add: unsigned_ucast_eq take_bit_nat_eq_self)
  then show ?thesis using strtoull_text [of "ucast port"] by (simp add: unsigned_ucast_eq take_bit_word_eq_self)
qed

lemma drive_command_scanned:
  "arg_scan worker_flags (drive_command port g offered serviced capacity) (default_command_line 0) =
    \<lparr>cl_port = port, cl_scenario = ''drive'', cl_stay = False, cl_args = drive_args g offered serviced capacity, cl_flowfile = []\<rparr>"
  by (simp add: drive_command_def drive_args_def worker_flags_def common_flags_def default_command_line_def strtoull_text atof_text strtoull_port)

lemma worker_hello_stub: "hello (coordinator_link put now) (co, ctx) = (True, (co, ctx))"
  using c_str.round [of "''cfworker''" "[]"]
  by (simp add: hello_def coordinator_link_def handle_def dispatch_def reading_def ok_reply_def reply_def str_ok_def)

text \<open>C20: a worker process started with the command line of the drive scenario, its numbers written in decimal,
  against a coordinator that has room and does not know its boots. Until it closes its connection the coordinator has its new
  active flow with the submitted bytes in flight, next to the flows that were there, and the new domain carries the given
  rates. The process exits with zero and leaves an id file that names the domain; the connection it closed on the way out has fenced it:
  the flow is stale with the bytes it had, its boot is superseded, and the flows of other owners are as they were.\<close>

theorem launched_worker_drives:
  assumes "g_worker g \<noteq> 0" "g_boot g \<noteq> 0" "g_source g \<noteq> 0" "g_sboot g \<noteq> 0" "g_idfile g \<noteq> []"
    and "engine_inv (co_engine co)" "newcomer g (co_engine co)" "domain_fits (co_engine co)"
    and "did = cf_next_domain (co_engine co)" "k = cf_next_flow (co_engine co)"
    and "args = drive_command port g offered serviced capacity" "c = arg_scan worker_flags args (default_command_line 0)"
  shows "\<exists>files1 co1 ctx1 f d.
    worker_session (coordinator_link put now) (cl_scenario c) (cl_args c) files (co, ctx) = ((Some 0, files1), (co1, ctx1)) \<and>
    cf_flows (co_engine co1) = cf_flows (co_engine co) @ [(Id k, f)] \<and> fl_state f = FS_ACTIVE \<and>
    in_flight_bytes f = ByteCounter (g_bytes g) \<and> flow_owner f = (Id (g_worker g), Generation (g_boot g), Id (g_source g), Generation (g_sboot g)) \<and>
    domain_of (co_engine co1) (Id did) = Some d \<and> d_flows d = [flow_ref k 1] \<and>
    d_offered_bps d = double_of_u64 offered \<and> d_serviced_bps d = double_of_u64 serviced \<and>
    worker_program True True (coordinator_link put now) coordinator_hangup args files (co, ctx) = ((Some 0, files1), (end_session ctx1 co1, no_context)) \<and>
    files1 (g_idfile g) = Some (id_text did 1) \<and>
    flow_of (co_engine (end_session ctx1 co1)) (Id k) = Some (f\<lparr>fl_state := FS_STALE\<rparr>) \<and>
    um_find (cf_worker_boot (co_engine (end_session ctx1 co1))) (Id (g_worker g)) = Some (gen_next (Generation (g_boot g))) \<and>
    (\<forall>i h. flow_of (co_engine co) i = Some h \<and> \<not> (fl_owner_worker h = Id (g_worker g) \<and> fl_owner_boot h = Generation (g_boot g)) \<longrightarrow>
       flow_of (co_engine (end_session ctx1 co1)) i = Some h)"
proof -
  let ?g = "drive_args g offered serviced capacity"
  let ?ctx = "\<lparr>ctx_wid = Id (g_worker g), ctx_boot = Generation (g_boot g)\<rparr> :: Context"
  have g: "args_ok ?g" "newcomer ?g (co_engine co)" "g_idfile ?g = g_idfile g" "g_bytes ?g = g_bytes g" "g_worker ?g = g_worker g"
      "g_boot ?g = g_boot g" "g_source ?g = g_source g" "g_sboot ?g = g_sboot g" "g_offered ?g = double_of_u64 offered" "g_serviced ?g = double_of_u64 serviced"
    using assms(1-4,7) double_of_u64_fin by (simp_all add: drive_args_def args_ok_def fin_nonneg_def newcomer_def split: option.splits)
  have c: "cl_scenario c = ''drive''" "cl_args c = ?g" using drive_command_scanned assms(11,12) by simp_all
  obtain co1 f d where dr: "drive (coordinator_link put now) ?g (co, ctx) = ((Some (did, 1), Some (Some k)), (co1, ?ctx))"
      "um_find (cf_worker_boot (co_engine co1)) (Id (g_worker g)) = Some (Generation (g_boot g))"
      "cf_flows (co_engine co1) = cf_flows (co_engine co) @ [(Id k, f)]" "fl_state f = FS_ACTIVE"
      "in_flight_bytes f = ByteCounter (g_bytes g)" "flow_owner f = (Id (g_worker g), Generation (g_boot g), Id (g_source g), Generation (g_sboot g))"
      "domain_of (co_engine co1) (Id did) = Some d" "d_flows d = [flow_ref k 1]" "d_offered_bps d = double_of_u64 offered" "d_serviced_bps d = double_of_u64 serviced"
    using driven [OF g(1) assms(6) g(2) assms(8-10), of put now ctx] unfolding g(4-) by blast
  have files: "note_domain ?g (Some (did, 1)) files (g_idfile g) = Some (id_text did 1)"
    using assms(5) g(3) by (simp add: note_domain_def note_ref_def)
  have session: "worker_session (coordinator_link put now) (cl_scenario c) (cl_args c) files (co, ctx) =
      ((Some 0, note_domain ?g (Some (did, 1)) files), (co1, ?ctx))"
    using dr(1) by (simp add: c worker_session_def worker_hello_stub scenario_def)
  then have program: "worker_program True True (coordinator_link put now) coordinator_hangup args files (co, ctx) =
      ((Some 0, note_domain ?g (Some (did, 1)) files), (end_session ?ctx co1, no_context))"
    using assms(12) by (simp add: worker_program_def worker_main_def coordinator_hangup_def Let_def)
  note at = flow_appended [OF _ assms(10) dr(3)]
  have free: "next_flow_free (co_engine co)" using assms(7) by (simp add: newcomer_def)
  have w: "id_valid (Id (g_worker g) :: WorkerId)" using assms(1) by (simp add: id_valid_def)
  note parks = hangup_parks [OF dr(2) w HOL.refl]
  have "fl_owner_worker f = Id (g_worker g)" "fl_owner_boot f = Generation (g_boot g)" using dr(6) by (simp_all add: flow_owner_def)
  note stale = parks(1) [OF at(1) [OF free] this dr(4)] and boot = parks(3) [OF at(1) [OF free]] and kept = parks(2) [OF at(2) [OF free]]
  show ?thesis
    using session program files dr(3-) stale boot kept
    by (intro exI [of _ "note_domain ?g (Some (did, 1)) files"] exI [of _ co1] exI [of _ ?ctx] exI [of _ f] exI [of _ d]) simp
qed

section \<open>Witness\<close>

theorem launched_worker_drives_witness:
  "\<exists>files1 co1 h. worker_program True True (coordinator_link sample_put 9) coordinator_hangup (drive_command 7000 sample_args 120 45 104857600) Map.empty
      (\<lparr>co_engine = new_fabric default_limits, co_stop = False, co_disk = ()\<rparr>, no_context) = ((Some 0, files1), (co1, no_context)) \<and>
    files1 ''ids'' = Some (id_text 1 1) \<and> flow_of (co_engine co1) (Id 1) = Some h \<and> fl_state h = FS_STALE \<and> in_flight_bytes h = ByteCounter 1000"
proof -
  let ?co = "\<lparr>co_engine = new_fabric default_limits, co_stop = False, co_disk = ()\<rparr>"
  have "engine_inv (co_engine ?co)" "newcomer sample_args (co_engine ?co)" "domain_fits (co_engine ?co)"
    using new_fabric_inv by (simp_all add: newcomer_def next_flow_free_def domain_fits_def new_fabric_def default_limits_def)
  moreover have "g_worker sample_args \<noteq> 0" "g_boot sample_args \<noteq> 0" "g_source sample_args \<noteq> 0" "g_sboot sample_args \<noteq> 0"
      "g_idfile sample_args = ''ids''" "g_bytes sample_args = 1000" by (simp_all add: sample_args_def)
  moreover have "1 = cf_next_domain (co_engine ?co)" "1 = cf_next_flow (co_engine ?co)" by (simp_all add: new_fabric_def)
  ultimately show ?thesis
    using launched_worker_drives [of sample_args ?co 1 1 _ 7000 120 45 104857600 _ sample_put 9 Map.empty no_context, OF _ _ _ _ _ _ _ _ _ _ HOL.refl HOL.refl]
    by fastforce
qed

end
