(* ===== verification/Retention.thy ===== *)
theory Retention
  imports Runs ControlProps
begin

text \<open>
  Which runs can be saved and loaded again. \<^verbatim>\<open>load\<close> checks more than the mutating methods do:
  enumerators, rates of unused capacity layers, fairness weights and the times of closed episodes
  are validated only when a file is read. \<open>call_typed\<close> states the missing checks on the arguments
  of a call, \<open>typed_run\<close> are the runs of calls that satisfy them, made at the times of a clock that
  does not go back, with restarts from the saved state. Every state of such a run is loadable.
\<close>

section \<open>Well-typed calls\<close>

definition options_typed :: "FlowOptions \<Rightarrow> bool" where
  "options_typed opts \<longleftrightarrow> TrafficClass_named (o_traffic_class opts) \<and>
     FairnessModel_named (fc_model (o_fairness opts)) \<and> fairness_valid (o_fairness opts) \<and>
     MeasurementProvenance_named (o_provenance opts) \<and> str_ok (o_description opts)"

text \<open>A file is not an argument a caller can type check: loads are restarts, below.\<close>

fun call_typed :: "call \<Rightarrow> bool" where
  "call_typed (CreateDomain kind c) = (DomainKind_named kind \<and> capacity_storable c)"
| "call_typed (DeclareFlow opts) = options_typed opts"
| "call_typed (PublishMeasurement k m w b) = MeasurementProvenance_named (m_provenance m)"
| "call_typed (Load file) = False"
| "call_typed _ = True"

text \<open>The sizes up to which the file format can represent a state.\<close>

definition compact :: "CongestionFabric \<Rightarrow> bool" where
  "compact e \<longleftrightarrow> length (cf_worker_boot e) \<le> 2 ^ 24 \<and> length (cf_source_boot e) \<le> 2 ^ 24 \<and>
     length (cf_domains e) \<le> 2 ^ 24 \<and> length (cf_flows e) \<le> 2 ^ 24 \<and> length (save_file e) \<le> 2 ^ 30 \<and>
     list_all (\<lambda>(k, d). length (d_flows d) \<le> 2 ^ 24 \<and> length (d_episodes d) \<le> 2 ^ 24) (cf_domains e)"

text \<open>\<open>typed_run lims n t e\<close>: \<open>e\<close> is reached after \<open>n\<close> calls, the last one no later than \<open>t\<close>. A
  restart begins a new process on the file the old one saved; its clock goes on from \<open>t\<close>.\<close>

inductive typed_run :: "EngineLimits \<Rightarrow> nat \<Rightarrow> u64 \<Rightarrow> CongestionFabric \<Rightarrow> bool" for lims where
  boot: "typed_run lims 0 t (new_fabric lims)"
| call: "typed_run lims n t e \<Longrightarrow> t \<le> now \<Longrightarrow> call_typed c \<Longrightarrow> exec now c e = Some (r, e') \<Longrightarrow>
    typed_run lims (Suc n) now e'"
| restart: "typed_run lims n t e \<Longrightarrow> compact e \<Longrightarrow>
    typed_run lims n t (snd (load (Some (save_file e)) (new_fabric lims)))"

section \<open>The invariant\<close>

definition episode_kept :: "u64 \<Rightarrow> CongestionEpisode \<Rightarrow> bool" where
  "episode_kept t ep \<longleftrightarrow> str_ok (ep_trigger ep) \<and> ep_affected_flows ep = [] \<and>
     (ep_open ep \<longrightarrow> id_valid (ep_event_id ep) \<and> gen_valid (ep_generation ep) \<and>
        id_valid (ref_id (ep_domain ep)) \<and> ep_start_ms ep \<le> t)"

definition closed_kept :: "CongestionEpisode \<Rightarrow> bool" where
  "closed_kept ep \<longleftrightarrow> str_ok (ep_trigger ep) \<and> ep_affected_flows ep = [] \<and> episode_valid ep"

definition domain_kept :: "u64 \<Rightarrow> CongestionDomain \<Rightarrow> bool" where
  "domain_kept t d \<longleftrightarrow> id_valid (ref_id (d_ref d)) \<and> DomainKind_named (d_kind d) \<and>
     capacity_storable (d_capacity d) \<and> provs_named d \<and>
     FairnessModel_named (fc_model (d_default_fairness d)) \<and> fairness_valid (d_default_fairness d) \<and>
     fin_nonneg (tb_rate (d_shaping d)) \<and> fin_nonneg (tb_capacity (d_shaping d)) \<and>
     isfinite (d_offered_bps d) \<and> isfinite (d_serviced_bps d) \<and>
     list_all closed_kept (d_episodes d) \<and> episode_kept t (d_current_episode d)"

definition flow_kept :: "Flow \<Rightarrow> bool" where
  "flow_kept f \<longleftrightarrow> flow_storable f \<and> fairness_valid (fl_fairness f)"

definition counter_kept :: "nat \<Rightarrow> u64 \<Rightarrow> bool" where
  "counter_kept n x \<longleftrightarrow> 0 < unat x \<and> unat x \<le> n + 1"

definition boots_kept :: "('t Id, 'u Generation) umap \<Rightarrow> bool" where
  "boots_kept m \<longleftrightarrow> (\<forall>w b. um_find m w = Some b \<longrightarrow> id_valid w \<and> gen_valid b)"

definition kept :: "nat \<Rightarrow> u64 \<Rightarrow> CongestionFabric \<Rightarrow> bool" where
  "kept n t e \<longleftrightarrow> gen_valid (cf_epoch e) \<and> boots_kept (cf_worker_boot e) \<and> boots_kept (cf_source_boot e) \<and>
     (\<forall>k d. um_find (cf_domains e) k = Some d \<longrightarrow> id_valid k \<and> domain_kept t d) \<and>
     (\<forall>k f. um_find (cf_flows e) k = Some f \<longrightarrow> id_valid k \<and> flow_kept f) \<and>
     counter_kept n (cf_next_domain e) \<and> counter_kept n (cf_next_flow e) \<and> counter_kept n (cf_next_event e)"

lemma episode_kept_mono: "episode_kept s ep \<Longrightarrow> s \<le> t \<Longrightarrow> episode_kept t ep"
  by (auto simp: episode_kept_def)

lemma domain_kept_mono: "domain_kept s d \<Longrightarrow> s \<le> t \<Longrightarrow> domain_kept t d"
  by (auto simp: domain_kept_def intro: episode_kept_mono)

lemma counter_kept_mono: "counter_kept n x \<Longrightarrow> n \<le> m \<Longrightarrow> counter_kept m x"
  by (simp add: counter_kept_def)

lemma counter_kept_inc: "counter_kept n x \<Longrightarrow> Suc n < 2 ^ 64 - 1 \<Longrightarrow> counter_kept (Suc n) (x + 1)"
proof -
  assume x: "counter_kept n x" "Suc n < 2 ^ 64 - 1"
  then have "x \<noteq> - 1" by (auto simp: counter_kept_def u64_max)
  from unat_u64_inc [OF this] x show ?thesis by (simp add: counter_kept_def)
qed

lemma counter_valid: "counter_kept n x \<Longrightarrow> id_valid (Id x)"
  by (auto simp: counter_kept_def id_valid_def)

lemma boots_kept_assign: "boots_kept m \<Longrightarrow> id_valid w \<Longrightarrow> gen_valid b \<Longrightarrow> boots_kept (um_assign m w b)"
  by (simp add: boots_kept_def)

lemma kept_later:
  assumes "kept n s e" "s \<le> t" "n \<le> m"
  shows "kept m t e"
  using assms domain_kept_mono [OF _ assms(2)] counter_kept_mono [OF _ assms(3)] by (simp add: kept_def)

text \<open>Replacing one flow, one domain, or all of them.\<close>

lemma kept_set_flow:
  "kept n t e \<Longrightarrow> um_find (cf_flows e) k = Some f \<Longrightarrow> flow_kept g = flow_kept f \<Longrightarrow> kept n t (set_flow e k g)"
  by (auto simp: kept_def)

lemma kept_set_domain:
  "kept n t e \<Longrightarrow> um_find (cf_domains e) k = Some d \<Longrightarrow> (domain_kept t d \<Longrightarrow> domain_kept t d') \<Longrightarrow>
   kept n t (set_domain e k d')"
  by (auto simp: kept_def)

lemma kept_flows:
  assumes "kept n t e" "\<And>k g. um_find fm k = Some g \<Longrightarrow> \<exists>f. um_find (cf_flows e) k = Some f \<and> flow_kept g = flow_kept f"
  shows "kept n t (e\<lparr>cf_flows := fm\<rparr>)"
proof -
  have "id_valid k \<and> flow_kept g" if "um_find fm k = Some g" for k g
    using assms(1) assms(2) [OF that] unfolding kept_def by metis
  then show ?thesis using assms(1) by (simp add: kept_def)
qed

lemma kept_domains:
  assumes "kept n t e"
    "\<And>k d'. um_find ds k = Some d' \<Longrightarrow> \<exists>d. um_find (cf_domains e) k = Some d \<and> (domain_kept t d \<longrightarrow> domain_kept t d')"
  shows "kept n t (e\<lparr>cf_domains := ds\<rparr>)"
proof -
  have "id_valid k \<and> domain_kept t d'" if "um_find ds k = Some d'" for k d'
    using assms(1) assms(2) [OF that] unfolding kept_def by metis
  then show ?thesis using assms(1) by (simp add: kept_def)
qed

lemma kept_counters [simp]:
  "kept n t (e\<lparr>cf_active_flows := a\<rparr>) = kept n t e" "kept n t (e\<lparr>cf_flow_history := h\<rparr>) = kept n t e"
  "kept n t (e\<lparr>cf_recovered := b\<rparr>) = kept n t e"
  by (simp_all add: kept_def)

section \<open>Every call keeps it\<close>

lemma flow_kept_cong:
  "fl_traffic_class g = fl_traffic_class f \<Longrightarrow> fl_fairness g = fl_fairness f \<Longrightarrow>
   fl_provenance g = fl_provenance f \<Longrightarrow> fl_description g = fl_description f \<Longrightarrow> flow_kept g = flow_kept f"
  by (simp add: flow_kept_def flow_storable_def)

lemma kept_if: "flow_kept (if c then f else g) = (if c then flow_kept f else flow_kept g)"
  by simp

lemmas body_keep_simps = if_distrib [of snd] case_prod_beta option.case_distrib [of snd] kept_if Let_def
  flow_kept_def flow_storable_def

lemma bodies_keep:
  "flow_kept (snd (admit_body f)) = flow_kept f"
  "flow_kept (snd (start_body b now f)) = flow_kept f"
  "flow_kept (snd (progress_body b n now f)) = flow_kept f"
  "flow_kept (snd (complete_body b now f)) = flow_kept f"
  "flow_kept (snd (cancel_body b n now f)) = flow_kept f"
  "flow_kept (snd (fail_body b now f)) = flow_kept f"
  "flow_kept (snd (revalidate_body b f)) = flow_kept f"
  subgoal by (simp add: admit_body_def body_keep_simps)
  subgoal by (simp add: start_body_def body_keep_simps)
  subgoal by (simp add: progress_body_def body_keep_simps split: option.split)
  subgoal by (simp add: complete_body_def body_keep_simps)
  subgoal by (simp add: cancel_body_def body_keep_simps)
  subgoal by (simp add: fail_body_def body_keep_simps)
  subgoal by (simp add: revalidate_body_def body_keep_simps)
  done

lemma parking_keeps: "flow_kept (fence_flow P f) = flow_kept f" "flow_kept (recover_flow f) = flow_kept f"
  by (rule flow_kept_cong; simp add: fence_flow_def recover_flow_def)+

lemma kept_on_flow:
  assumes "kept n t e" "\<And>f. flow_kept (snd (body f)) = flow_kept f"
  shows "kept n t (snd (on_flow ref body e))"
proof (cases "find_flow (cf_flows e) ref")
  case (Some f)
  have "um_find (cf_flows e) (ref_id ref) = Some f" using find_flow_SomeD [OF Some] by simp
  from kept_set_flow [OF assms(1) this assms(2)] show ?thesis
    by (simp add: on_flow_def Some case_prod_beta)
qed (simp add: on_flow_def assms(1))

lemma kept_release: "kept n t (snd r) \<Longrightarrow> kept n t (snd (release_slot r))"
  by (cases r) (simp add: release_slot_def)

lemma provs_keep:
  "MeasurementProvenance_named MP_UNKNOWN" "MeasurementProvenance_named MP_MEASURED"
  by (simp_all add: MeasurementProvenance_named_def MeasurementProvenance_enum_def)

lemma domain_kept_fence: "domain_kept t d \<Longrightarrow> domain_kept t (snd (fence_domain w b any d))"
  by (simp add: domain_kept_def fence_domain_def drop_evidence_def invalidate_domain_def provs_named_def provs_keep Let_def)

lemma domain_kept_recover: "domain_kept t d \<Longrightarrow> domain_kept t (recover_domain d)"
  by (simp add: domain_kept_def recover_domain_def provs_named_def provs_keep)

lemma domain_kept_clear: "domain_kept t (clear_revalidation d) = domain_kept t d"
  by (simp add: domain_kept_def clear_revalidation_def provs_named_def)

lemma domain_kept_lists: "domain_kept t (d\<lparr>d_flows := rs\<rparr>) = domain_kept t d"
  "domain_kept t (d\<lparr>d_measurements := ms\<rparr>) = domain_kept t d"
  by (simp_all add: domain_kept_def provs_named_def)

lemma domain_kept_record:
  assumes "domain_kept t d" "measurement_valid m" "MeasurementProvenance_named (m_provenance m)"
  shows "domain_kept t (record_rate m w b d)"
  using assms by (cases "m_kind m") (simp_all add: record_rate_def domain_kept_def provs_named_def measurement_valid_def)

lemma domain_kept_merged: "domain_kept t d \<Longrightarrow> MeasurementProvenance_named (merged_provenance d)"
  by (simp add: merged_provenance_def domain_kept_def provs_named_def provs_keep)

lemma classify_prov_named:
  "domain_kept t d \<Longrightarrow> MeasurementProvenance_named (as_provenance (classify d agg fm r))"
  using domain_kept_merged [of t d]
  by (auto simp: classify_def default_assessment_def classify_live_def Let_def provs_keep domain_kept_def
      provs_named_def split: option.split)

lemma closed_kept_end: "episode_kept now ep \<Longrightarrow> ep_open ep \<Longrightarrow> closed_kept (ep\<lparr>ep_end_ms := now, ep_outcome := st, ep_open := False\<rparr>)"
  by (simp add: episode_kept_def closed_kept_def episode_valid_def)

lemma domain_kept_episode:
  assumes "domain_kept now d" "counter_kept n next_event"
  shows "domain_kept now (snd (episode_step lims next_event now st q d))"
proof -
  have ep: "episode_kept now (d_current_episode d)" using assms(1) by (simp add: domain_kept_def)
  have new: "episode_kept now (default_episode\<lparr>ep_event_id := Id next_event, ep_generation := Generation 1,
      ep_domain := d_ref d, ep_start_ms := now, ep_peak_state := st,
      ep_trigger := ''offered load exceeded effective capacity'', ep_open := True\<rparr>)"
    using counter_valid [OF assms(2)] assms(1)
    by (simp add: episode_kept_def default_episode_def str_ok_def gen_valid_def domain_kept_def)
  have none: "episode_kept now default_episode"
    by (simp add: episode_kept_def default_episode_def str_ok_def)
  have closed: "list_all closed_kept (d_episodes d @ [c]) \<and> list_all closed_kept (tl (d_episodes d @ [c]))"
    if "closed_kept c" for c
    using that assms(1) by (cases "d_episodes d") (simp_all add: domain_kept_def)
  show ?thesis
    using assms(1) ep new none closed [OF closed_kept_end [OF ep, of st]]
    by (auto simp: episode_step_def Let_def domain_kept_def provs_named_def episode_kept_def)
qed

lemma inf_deficit:
  assumes "isfinite b" "isinf y" "\<not> dneg y" "\<not> isnan y"
  shows "dmax 0 (dsub b y) = 0"
proof -
  have "dsub b y = dneg_of y" "dkey (dneg_of y) \<le> 0"
    using assms dmag_less [of y]
    by (auto simp: dsub_def dadd_def dneg_of_def isinf_def isnan_def isfinite_def dkey_def)
  then show ?thesis by (simp add: dmax_def dlt_def)
qed

lemma shaping_rate_finite:
  assumes "isfinite (d_offered_bps d)" "isfinite (d_serviced_bps d)"
  shows "fin_nonneg (shaping_rate d)"
proof -
  let ?b = "case effective (d_capacity d) of Some x \<Rightarrow> x | None \<Rightarrow> d_serviced_bps d"
  let ?y = "dmax 0 (dsub (d_offered_bps d) (d_serviced_bps d))"
  have b: "isfinite ?b" using assms(2) effective_SomeD by (auto simp: fin_nonneg_def split: option.splits)
  have y: "\<not> isnan ?y" "0 \<le> dkey ?y"
    using dsub_not_nan [OF assms] by (auto simp: dmax_def dlt_def)
  have zero: "fin_nonneg 0" by (simp add: fin_nonneg_def)
  have "fin_nonneg (dmax 0 (dsub ?b ?y))"
  proof (cases "isfinite ?y")
    case True
    have le: "dkey (dsub ?b ?y) \<le> dkey ?b" "\<not> isnan (dsub ?b ?y)"
      using dsub_le [OF b True y(2)] dsub_not_nan [OF b True] by simp_all
    then show ?thesis using b zero by (auto simp: dmax_def dlt_def fin_nonneg_def isfinite_dkey)
  next
    case False
    then have "isinf ?y" using y(1) by (auto simp: isfinite_def isinf_def isnan_def)
    moreover have "\<not> dneg ?y" using y(2) calculation by (auto simp: dkey_def isinf_def inf_mag_def)
    ultimately show ?thesis using inf_deficit [OF b _ _ y(1)] zero by simp
  qed
  then show ?thesis by (simp add: shaping_rate_def Let_def)
qed

lemma domain_kept_shaping:
  assumes "domain_kept t d"
  shows "domain_kept t (d\<lparr>d_shaping := token_bucket (shaping_rate d) (shaping_rate d), d_backpressure_generation := g\<rparr>)"
  using assms shaping_rate_finite [of d] by (simp add: domain_kept_def provs_named_def token_bucket_def)

text \<open>The calls that allocate an identifier.\<close>

lemma kept_create_domain:
  assumes "kept n t e" "DomainKind_named kind" "capacity_storable c" "Suc n < 2 ^ 64 - 1"
  shows "kept (Suc n) t (snd (create_domain kind c e))"
proof -
  have e: "kept (Suc n) t e" using kept_later [OF assms(1)] by simp
  have "domain_kept t (default_domain\<lparr>d_ref := EntityRef (Id (cf_next_domain e)) (Generation 1), d_kind := kind,
      d_capacity := c, d_queue := default_queue\<lparr>q_generation := Generation 1\<rparr>, d_residual_bps := x\<rparr>)" for x
    using assms counter_valid [of n "cf_next_domain e"]
    by (simp add: kept_def domain_kept_def default_domain_def provs_named_def provs_keep default_fairness_config_def
        FairnessModel_named_def FairnessModel_enum_def fairness_valid_def d_one_def double_eval default_bucket_def
        token_bucket_def fin_nonneg_def episode_kept_def default_episode_def str_ok_def)
  then show ?thesis
    using e counter_valid [of n "cf_next_domain e"] counter_kept_inc [OF _ assms(4)] assms(1)
    by (auto simp: create_domain_def Let_def kept_def split: option.splits if_splits)
qed

lemma kept_declare_flow:
  assumes "kept n t e" "options_typed opts" "Suc n < 2 ^ 64 - 1"
  shows "kept (Suc n) t (snd (declare_flow opts now e))"
proof -
  have e: "kept (Suc n) t e" using kept_later [OF assms(1)] by simp
  have "flow_kept (flow_of_options k now opts)" for k
    using assms(2) by (simp add: options_typed_def flow_kept_def flow_storable_def flow_of_options_def)
  then show ?thesis
    using e counter_valid [of n "cf_next_flow e"] counter_kept_inc [OF _ assms(3)] assms(1)
    by (auto simp: declare_flow_def Let_def kept_def split: option.splits if_splits)
qed

lemma kept_recompute:
  assumes "kept n now e" "Suc n < 2 ^ 64 - 1"
  shows "kept (Suc n) now (snd (recompute_domain k now e))"
proof (cases "um_find (cf_domains e) k")
  case (Some d)
  let ?a = "classify d (aggregate_domain d (cf_flows e)) (cf_flows e) (needs_revalidation d)"
  let ?d1 = "d\<lparr>d_state := as_state ?a, d_state_provenance := as_provenance ?a\<rparr>"
  obtain fresh d2 where step: "episode_step (cf_limits e) (cf_next_event e) now (as_state ?a)
      (ag_queued_bytes (aggregate_domain d (cf_flows e))) ?d1 = (fresh, d2)" by fastforce
  have "domain_kept now ?d1" "counter_kept n (cf_next_event e)"
    using assms(1) Some classify_prov_named [of now d] by (auto simp: kept_def domain_kept_def provs_named_def)
  from domain_kept_episode [OF this, of "cf_limits e" "as_state ?a" "ag_queued_bytes (aggregate_domain d (cf_flows e))"]
  have d2: "domain_kept now d2" by (simp add: step)
  have "kept (Suc n) now (set_domain e k d2)"
    using kept_set_domain [OF kept_later [OF assms(1) order_refl, of "Suc n"] Some] d2 by simp
  then show ?thesis
    using counter_kept_inc [OF _ assms(2), of "cf_next_event e"] assms(1)
    by (simp add: recompute_domain_def Some Let_def step) (simp add: kept_def)
qed (use kept_later [OF assms(1) order_refl, of "Suc n"] in \<open>simp add: recompute_domain_def\<close>)

text \<open>The other domain and flow calls.\<close>

lemma kept_fencing:
  assumes "kept n t e"
  shows "kept n t (snd (fence_worker w b e))" "kept n t (snd (fence_source s c e))" "kept n t (recover_dynamic_evidence e)"
proof -
  have flows: "kept n t (e'\<lparr>cf_flows := um_map g (cf_flows e')\<rparr>)"
    if "kept n t e'" "\<And>f. flow_kept (g f) = flow_kept f" for e' g
    using that by (intro kept_flows) auto
  have fence: "kept n t (e'\<lparr>cf_domains := fence_domains w b any (cf_domains e')\<rparr>)" if "kept n t e'" for e' any
    using that by (intro kept_domains) (auto dest!: find_fence_domains intro: domain_kept_fence)
  show "kept n t (snd (fence_worker w b e))"
  proof (cases "id_valid w")
    case True
    have "kept n t (e\<lparr>cf_worker_boot := um_assign (cf_worker_boot e) w (gen_next v)\<rparr>)" for v
      using assms True by (simp add: kept_def boots_kept_assign)
    from fence [OF flows [OF this parking_keeps(1)]] show ?thesis
      using True assms by (simp add: fence_worker_def split: option.split)
  qed (simp add: fence_worker_def assms)
  show "kept n t (snd (fence_source s c e))"
  proof (cases "id_valid s")
    case True
    have "kept n t (e\<lparr>cf_source_boot := um_assign (cf_source_boot e) s (gen_next v)\<rparr>)" for v
      using assms True by (simp add: kept_def boots_kept_assign)
    from flows [OF this parking_keeps(1)] show ?thesis
      using True assms by (simp add: fence_source_def split: option.split)
  qed (simp add: fence_source_def assms)
  have "kept n t (e\<lparr>cf_recovered := True, cf_domains := um_map recover_domain (cf_domains e)\<rparr>)"
    using kept_domains [of n t "e\<lparr>cf_recovered := True\<rparr>" "um_map recover_domain (cf_domains e)"] assms domain_kept_recover
    by auto
  from flows [OF this parking_keeps(2)] show "kept n t (recover_dynamic_evidence e)"
    by (simp add: recover_dynamic_evidence_def)
qed

lemma kept_registry:
  assumes "kept n t e"
  shows "kept n t (snd (advance_epoch p e))" "kept n t (snd (register_worker w b e))"
    "kept n t (snd (register_source s c e))" "kept n t (snd (remove_domain k e))"
  using assms
  by (auto simp: advance_epoch_def register_worker_def register_source_def remove_domain_def kept_def boots_kept_assign
      split: option.split if_splits)

lemma kept_flow_calls:
  assumes "kept n t e"
  shows "kept n t (snd (admit_flow r e))" "kept n t (snd (queue_flow r e))" "kept n t (snd (start_flow r b now e))"
    "kept n t (snd (advance_flow_generation r g e))"
proof -
  have bound: "kept n t (set_domain (set_flow e (ref_id r) f') j d')"
    if "um_find (cf_flows e) (ref_id r) = Some f" "flow_kept f' = flow_kept f" "um_find (cf_domains e) j = Some d"
      "domain_kept t d' = domain_kept t d" for f f' d d' j
    using that kept_set_domain [OF kept_set_flow [OF assms that(1,2)], of j d d'] by simp
  have found: "um_find (cf_flows e) (ref_id r) = Some f" if "find_flow (cf_flows e) r = Some f" for f
    using find_flow_SomeD [OF that] by simp
  show "kept n t (snd (admit_flow r e))"
    using assms bound [OF found bodies_keep(1)] kept_set_flow [OF assms found bodies_keep(1)]
    by (auto simp: admit_flow_def case_prod_beta domain_kept_lists split: option.split)
  show "kept n t (snd (start_flow r b now e))"
    using assms bound [OF found bodies_keep(2)] kept_set_flow [OF assms found bodies_keep(2)]
    by (auto simp: start_flow_def case_prod_beta domain_kept_clear split: option.split)
  show "kept n t (snd (queue_flow r e))"
    using assms kept_set_flow [OF assms found flow_kept_cong]
    by (auto simp: queue_flow_def split: option.split)
  show "kept n t (snd (advance_flow_generation r g e))"
    using assms kept_set_flow [OF assms _ flow_kept_cong]
    by (auto simp: advance_flow_generation_def split: option.split)
qed

lemma kept_publish:
  assumes "kept n t e" "publish_measurement k m w b e = Some (r, e')" "MeasurementProvenance_named (m_provenance m)"
  shows "kept n t e'"
proof (cases "e' = e")
  case False
  then obtain d ms where d: "um_find (cf_domains e) k = Some d" "measurement_valid m"
      and e': "e' = set_domain e k (record_rate m w b ((clear_revalidation d)\<lparr>d_measurements := ms\<rparr>))"
    using assms(2) by (auto simp: publish_measurement_def Let_def split: if_splits option.splits)
  show ?thesis
    unfolding e' by (rule kept_set_domain [OF assms(1) d(1)])
      (simp add: domain_kept_record d(2) assms(3) domain_kept_lists domain_kept_clear)
qed (use assms(1) in simp)

lemma kept_shaping: "kept n t e \<Longrightarrow> kept n t (snd (apply_local_shaping k a e))"
  by (auto simp: apply_local_shaping_def split: option.split intro: kept_set_domain domain_kept_shaping)

lemma kept_flow_bodies:
  assumes "kept n t e"
  shows "kept n t (snd (flow_progress r b m now e))" "kept n t (snd (flow_complete r b now e))"
    "kept n t (snd (flow_cancel r b m now e))" "kept n t (snd (flow_fail r b now e))" "kept n t (snd (revalidate_flow r b e))"
  using kept_on_flow [OF assms bodies_keep(3)] kept_on_flow [OF assms bodies_keep(4)] kept_on_flow [OF assms bodies_keep(5)]
    kept_on_flow [OF assms bodies_keep(6)] kept_on_flow [OF assms bodies_keep(7)]
  by (simp_all add: flow_progress_def flow_complete_def flow_cancel_def flow_fail_def revalidate_flow_def kept_release)

lemma exec_kept:
  assumes "kept n t e" "t \<le> now" "call_typed c" "exec now c e = Some (r, e')" "Suc n < 2 ^ 64 - 1"
  shows "kept (Suc n) now e'"
proof -
  have k: "kept n now e" and k': "kept (Suc n) now e" using kept_later [OF assms(1,2)] by simp_all
  note calls = kept_registry [OF k'] kept_fencing [OF k'] kept_flow_calls [OF k'] kept_shaping [OF k']
    kept_flow_bodies [OF k'] kept_create_domain [OF k] kept_declare_flow [OF k] kept_recompute [OF k]
  show ?thesis
  proof (cases c)
    case (PublishMeasurement d m w b)
    then show ?thesis using kept_publish [OF k'] assms(3,4) by auto
  qed (use assms(3-5) in \<open>auto simp: ref_result_def prod_eq_iff case_prod_beta intro: calls\<close>)
qed

section \<open>Restarts\<close>

lemma um_all_list:
  assumes "um_wf m" "\<And>k v. um_find m k = Some v \<Longrightarrow> P k v"
  shows "list_all (\<lambda>(k, v). P k v) m"
  using assms um_in_set_find [OF assms(1)] by (auto simp: list_all_iff)

lemma closed_kept_storable:
  "list_all closed_kept eps \<Longrightarrow> list_all (\<lambda>ep. episode_storable ep \<and> episode_valid ep) eps"
  by (simp add: list_all_iff closed_kept_def episode_storable_def)

lemma domain_kept_storable:
  assumes "domain_kept t d" "capacity_valid (d_capacity d)" "length (d_flows d) \<le> 2 ^ 24" "length (d_episodes d) \<le> 2 ^ 24"
  shows "domain_storable d"
  using assms closed_kept_storable [of "d_episodes d"]
  by (simp add: domain_kept_def domain_storable_def fin_nonneg_def dlt_def episode_kept_def episode_storable_def)

lemma flow_kept_acceptable:
  assumes "flow_kept f" "flow_ok f" "ref_id (fl_ref f) = k"
  shows "flow_acceptable k f \<and> flow_storable f"
  using assms TC.valid_named [of "fl_traffic_class f"] FS.valid_named [of "fl_state f"]
  by (simp add: flow_kept_def flow_acceptable_def flow_ok_def flow_storable_def)

lemma kept_storable:
  assumes "engine_inv e" "kept n t e" "compact e"
  shows "storable e"
proof -
  have wf: "um_wf (cf_worker_boot e)" "um_wf (cf_source_boot e)" "um_wf (cf_domains e)" "um_wf (cf_flows e)"
    using assms(1) by (simp_all add: engine_inv_def)
  have size: "length (d_flows d) \<le> 2 ^ 24 \<and> length (d_episodes d) \<le> 2 ^ 24" if "um_find (cf_domains e) k = Some d" for k d
    using assms(3) um_find_in_set [OF that] by (auto simp: compact_def list_all_iff)
  have "list_all (\<lambda>(k, d). id_valid k \<and> ref_id (d_ref d) = k \<and> domain_storable d) (cf_domains e)"
  proof (rule um_all_list [OF wf(3)])
    fix k d assume d: "um_find (cf_domains e) k = Some d"
    then have "domain_ok k d" "id_valid k" "domain_kept t d" using assms(1,2) by (auto simp: engine_inv_def kept_def)
    then show "id_valid k \<and> ref_id (d_ref d) = k \<and> domain_storable d"
      using domain_kept_storable [of t d] size [OF d] by (simp add: domain_ok_def)
  qed
  moreover have "list_all (\<lambda>(k, f). id_valid k \<and> flow_acceptable k f \<and> flow_storable f) (cf_flows e)"
  proof (rule um_all_list [OF wf(4)])
    fix k f assume "um_find (cf_flows e) k = Some f"
    then have "flow_ok f" "ref_id (fl_ref f) = k" "id_valid k" "flow_kept f"
      using assms(1,2) by (auto simp: engine_inv_def kept_def)
    then show "id_valid k \<and> flow_acceptable k f \<and> flow_storable f" using flow_kept_acceptable by simp
  qed
  moreover have "list_all (\<lambda>(w, b). id_valid w \<and> gen_valid b) (cf_worker_boot e)"
    "list_all (\<lambda>(s, b). id_valid s \<and> gen_valid b) (cf_source_boot e)"
    using assms(2) by (auto simp: kept_def boots_kept_def intro: um_all_list [OF wf(1)] um_all_list [OF wf(2)])
  ultimately show ?thesis using wf assms(2,3) by (simp add: storable_def compact_def kept_def)
qed

lemma durable_kept: "domain_kept t d \<Longrightarrow> domain_kept t (durable_domain d)"
  by (simp add: domain_kept_def durable_domain_def provs_named_def token_bucket_def episode_kept_def durable_episode_def
      list_all_iff closed_kept_def episode_valid_def)

lemma restart_kept:
  assumes "engine_inv e" "kept n t e" "compact e"
  shows "kept n t (snd (load (Some (save_file e)) e0))" "engine_inv (snd (load (Some (save_file e)) e0))"
proof -
  have parse: "parse_file (save_file e) = Some (durable_of e)" using parse_save kept_storable [OF assms] .
  then have load: "snd (load (Some (save_file e)) e0) = commit_load (durable_of e) e0" by (simp add: load_def)
  show "engine_inv (snd (load (Some (save_file e)) e0))"
    unfolding load using commit_load_inv parse_file_envelope [OF parse] by blast
  show "kept n t (snd (load (Some (save_file e)) e0))"
    unfolding load using assms(2) durable_kept domain_kept_recover
    by (auto simp: commit_load_def durable_of_def kept_def parking_keeps)
qed

lemma typed_run_kept: "typed_run lims n t e \<Longrightarrow> n < 2 ^ 64 - 1 \<Longrightarrow> engine_inv e \<and> kept n t e"
proof (induction rule: typed_run.induct)
  case (boot t)
  then show ?case
    using new_fabric_inv by (simp add: kept_def new_fabric_def gen_valid_def boots_kept_def counter_kept_def)
next
  case (call n t e now c r e')
  then show ?case using exec_kept [of n t e now c r e'] exec_inv [of now c e r e'] by simp
next
  case (restart n t e)
  then show ?case using restart_kept by blast
qed

text \<open>C9: a state reached by calls whose enumerators, unused rates, fairness weights and texts are
  what the loader accepts, made at the times of a clock that does not go back, across any number
  of restarts, can always be saved and loaded again as long as the file format can represent its
  size (\<open>compact\<close>): \<^verbatim>\<open>load\<close> succeeds and restores every flow, every domain, every worker and source registration and the epoch.\<close>

theorem typed_runs_reload:
  assumes "typed_run lims n t e" "n < 2 ^ 64 - 1" "compact e"
  shows "\<exists>e'. load (Some (save_file e)) e0 = (True, e') \<and>
    (\<forall>k. flow_of e' k = map_option recover_flow (flow_of e k)) \<and>
    (\<forall>k. domain_of e' k = map_option (recover_domain \<circ> durable_domain) (domain_of e k)) \<and>
    (\<forall>w. um_find (cf_worker_boot e') w = um_find (cf_worker_boot e) w) \<and>
    (\<forall>s. um_find (cf_source_boot e') s = um_find (cf_source_boot e) s) \<and> cf_epoch e' = cf_epoch e"
proof -
  have "storable e" using typed_run_kept [OF assms(1,2)] kept_storable assms(3) by blast
  from parse_save [OF this] show ?thesis
    by (auto simp: load_def commit_load_def durable_of_def flow_of_def domain_of_def option.map_comp)
qed

section \<open>Witness\<close>

lemma typed_call:
  "typed_run lims n t e \<Longrightarrow> t \<le> now \<Longrightarrow> call_typed c \<Longrightarrow> exec now c e = Some p \<Longrightarrow> typed_run lims (Suc n) now (snd p)"
  by (cases p) (auto intro: typed_run.call)

lemma sample_options_typed: "options_typed sample_options"
  by (simp add: options_typed_def sample_values TrafficClass_named_def TrafficClass_enum_def FairnessModel_named_def
      FairnessModel_enum_def fairness_valid_def d_one_def double_eval MeasurementProvenance_named_def
      MeasurementProvenance_enum_def str_ok_def)

lemma sample_capacity_typed: "DomainKind_named DK_NIC_TX" "capacity_storable sample_capacity"
  using sample_domain_storable by (simp_all add: domain_storable_def sample_domain_def default_domain_def)

lemma sample_typed_run: "typed_run default_limits 6 6 sample_active"
proof -
  let ?e1 = "snd (register_worker (Id 1) (Generation 1) (new_fabric default_limits))"
  let ?e2 = "snd (register_source (Id 1) (Generation 1) ?e1)"
  have "typed_run default_limits (Suc 0) 0 ?e1"
    using typed_call [OF typed_run.boot order_refl, of "RegisterWorker (Id 1) (Generation 1)" 0] by simp
  from typed_call [OF this order_refl, of "RegisterSource (Id 1) (Generation 1)"]
  have "typed_run default_limits (Suc (Suc 0)) 0 ?e2" by simp
  from typed_call [OF this order_refl, of "CreateDomain DK_NIC_TX sample_capacity"]
  have "typed_run default_limits (Suc (Suc (Suc 0))) 0 sample_engine"
    using sample_capacity_typed by (simp add: sample_engine_def ref_result_def case_prod_beta)
  from typed_call [OF this, of 5 "DeclareFlow sample_options"]
  have "typed_run default_limits (Suc (Suc (Suc (Suc 0)))) 5 sample_declared"
    using sample_options_typed by (simp add: sample_declared_def ref_result_def case_prod_beta)
  from typed_call [OF this order_refl, of "AdmitFlow sample_ref"]
  have "typed_run default_limits 5 5 (snd (admit_flow sample_ref sample_declared))"
    by (simp add: eval_nat_numeral)
  from typed_call [OF this, of 6 "StartFlow sample_ref (Generation 1)"]
  show ?thesis by (simp add: sample_active_def)
qed

lemma sample_compact: "compact sample_active"
  using sample_active_storable by (simp add: storable_def compact_def) (simp add: sample_state sample_domain_def default_domain_def)

theorem typed_runs_reload_witness:
  "\<exists>e'. load (Some (save_file sample_active)) (new_fabric default_limits) = (True, e') \<and>
     map_option fl_state (flow_of e' (Id 1)) = Some FS_REVALIDATION_REQUIRED \<and>
     um_find (cf_worker_boot e') (Id 1) = Some (Generation 1)"
  using typed_runs_reload [OF sample_typed_run _ sample_compact, of "new_fabric default_limits"]
  by (auto simp: flow_of_def sample_state um_find_def recover_flow_def flow_terminal_def flow_state_preds sample_values)

end
