(* ===== verification/Unloadable.thy ===== *)
theory Unloadable
  imports Retention Worker
begin

text \<open>
  Two ways into a state that the engine accepts, saves and can then never load again, both outside
  the well-typed runs of \<open>Retention\<close>: a domain kind byte that is no enumerator, which the
  coordinator casts and stores, and an open episode that outlives a reboot of the host, after
  which the steady clock starts again below the stored start time. In both cases one undecodable
  domain makes \<^verbatim>\<open>load\<close> refuse the whole file.
\<close>

section \<open>One undecodable domain spoils the file\<close>

lemma domains_fail:
  assumes "um_wf (acc @ m)" "\<And>j. um_find gens j \<noteq> None \<Longrightarrow> um_find acc j \<noteq> None"
    and "list_all (\<lambda>(k, d). id_valid k \<and> ref_id (d_ref d) = k \<and> domain_storable d) m"
    and "id_valid k" "\<And>cs. rd_domain k (wr_domain d @ cs) = None" "length m < n"
  shows "rd_domains n gens acc
    (concat (map (\<lambda>(k, d). wr_id k @ wr_domain d) m) @ wr_id k @ wr_domain d @ bs) = None"
  using assms(1-3,6)
proof (induction m arbitrary: acc gens n)
  case Nil
  then show ?case using assms(4,5) by (cases n) (simp_all add: codec_rt)
next
  case (Cons x m)
  obtain j c where x: "x = (j, c)" by fastforce
  let ?acc = "acc @ [(j, durable_domain c)]"
  have fresh: "um_find acc j = None" using Cons.prems(1) by (auto simp: um_fresh_iff um_wf_def x)
  then have gens: "um_find gens j = None" using Cons.prems(2) by blast
  have c: "id_valid j" "rd_domain j (wr_domain c @ cs) = Some (durable_domain c, cs)" for cs
    using Cons.prems(3) domain_round [of c] by (auto simp: x)
  obtain n' where n: "n = Suc n'" "length m < n'" using Cons.prems(4) by (cases n) simp_all
  have "rd_domains n' (um_assign gens j g) ?acc
      (concat (map (\<lambda>(k, d). wr_id k @ wr_domain d) m) @ wr_id k @ wr_domain d @ bs) = None" for g
    by (rule Cons.IH) (use Cons.prems n(2) in \<open>auto simp: um_wf_def x um_find_append um_find_Cons split: option.splits if_splits\<close>)
  then show ?case
    using c gens fresh by (simp add: x n(1) codec_rt gen_regresses_def um_emplace_fresh)
qed

text \<open>\<open>e0\<close> is a storable state with the same epoch and registrations.\<close>

lemma payload_fails:
  assumes "storable e0" "cf_epoch e = cf_epoch e0" "cf_worker_boot e = cf_worker_boot e0" "cf_source_boot e = cf_source_boot e0"
    and m: "cf_domains e = m @ (k, d) # m'" "length (cf_domains e) \<le> 2 ^ 24" "um_wf m"
      "list_all (\<lambda>(k, d). id_valid k \<and> ref_id (d_ref d) = k \<and> domain_storable d) m"
    and "id_valid k" "\<And>cs. rd_domain k (wr_domain d @ cs) = None"
  shows "rd_payload (save_payload e) = None"
proof -
  note parts = assms(1) [unfolded storable_def]
  have boots: "load_boots (wr_boots (cf_worker_boot e0) @ bs) = Some (cf_worker_boot e0, bs)"
    "load_boots (wr_boots (cf_source_boot e0) @ bs) = Some (cf_source_boot e0, bs)" for bs
    using parts by (simp_all add: load_boots_round)
  have epoch: "gen_valid (cf_epoch e0)" using parts by blast
  have fails: "rd_domains (length (cf_domains e)) [] []
      (concat (map (\<lambda>(k, d). wr_id k @ wr_domain d) (cf_domains e)) @ bs) = None" for bs
    using domains_fail [of "[]" m "[]" k d "length (cf_domains e)"] m assms(9,10) by simp
  show ?thesis
    using u32_count [OF m(2)] by (simp add: rd_payload_def save_payload_def codec_rt boots epoch fails assms(2-4))
qed

lemma load_refuses:
  assumes "rd_payload (save_payload e) = None"
  shows "load (Some (save_file e)) x = (False, x)"
proof -
  have "parse_file (save_file e) = None"
    using envelope_round [of "save_payload e"] envelope_length [of "save_payload e"] assms
    by (auto simp: parse_file_def save_file_def)
  then show ?thesis by (simp add: load_def)
qed

section \<open>A kind that is no enumerator\<close>

lemma unnamed_kind_fails:
  assumes "\<not> domain_kind_valid kb" "d_kind d = DomainKind_of_u8 kb" "ref_id (d_ref d) = k"
  shows "rd_domain k (wr_domain d @ cs) = None"
  using assms by (simp add: rd_domain_def wr_domain_def codec_rt rd_domain_kind_def rd_enum_def DomainKind_of_u8_def)

definition kind_request :: "u8 \<Rightarrow> double \<Rightarrow> Frame" where
  "kind_request kb c = \<lparr>frame_type = MT_CREATE_DOMAIN, frame_body = wr_u8 kb @ wr_u8 (BandwidthKind_to_u8 BK_THEORETICAL) @
     wr_u64 c @ wr_u8 (BandwidthKind_to_u8 BK_CONFIGURED) @ wr_u64 c\<rparr>"

text \<open>C29: the coordinator accepts a CREATE_DOMAIN request whatever its kind byte. When the byte is no
  enumerator, the request is answered with a valid domain, and from then on the saved state is
  refused by \<^verbatim>\<open>load\<close>: a coordinator restarted on it begins with an empty engine, whatever flows,
  domains and registrations there were, and overwrites the file with that when it is stopped.\<close>

theorem unchecked_kind_loses_state:
  assumes "storable (co_engine co)" "domain_fits (co_engine co)" "length (cf_domains (co_engine co)) < 2 ^ 24"
    and "fin_nonneg c" "\<not> domain_kind_valid kb"
  shows "\<exists>co1. handle put now (kind_request kb c) co ctx =
      Some (reply MT_DOMAIN_CREATED (wr_u8 1 @ wr_u64 (cf_next_domain (co_engine co)) @ wr_u64 1), co1, ctx) \<and>
    cf_flows (co_engine co1) = cf_flows (co_engine co) \<and>
    sy_co (start_coordinator (Some (save_file (co_engine co1))) disk) =
      \<lparr>co_engine = new_fabric default_limits, co_stop = False, co_disk = disk\<rparr> \<and>
    (path \<noteq> [] \<longrightarrow> co_disk (stop_coordinator put path (sy_co (start_coordinator (Some (save_file (co_engine co1))) disk))) =
      snd (put path (save_file (new_fabric default_limits)) disk))"
proof -
  let ?e = "co_engine co" and ?k = "Id (cf_next_domain (co_engine co)) :: CongestionDomainId"
  define g :: WorkerArgs where "g = sample_args\<lparr>g_capacity := c\<rparr>"
  obtain e1 d where e1: "create_domain (DomainKind_of_u8 kb) (worker_capacity g) ?e = (EntityRef ?k (Generation 1), e1)"
      "cf_flows e1 = cf_flows ?e" "cf_domains e1 = cf_domains ?e @ [(?k, d)]" "d_kind d = DomainKind_of_u8 kb"
      "d_ref d = EntityRef ?k (Generation 1)" "cf_epoch e1 = cf_epoch ?e" "cf_worker_boot e1 = cf_worker_boot ?e"
      "cf_source_boot e1 = cf_source_boot ?e"
    using assms(2,4) worker_capacity_valid [of g]
    by (simp add: g_def domain_fits_def create_domain_def Let_def um_emplace_fresh um_find_append um_find_Cons default_domain_def)
  let ?co1 = "co\<lparr>co_engine := e1\<rparr>"
  have handled: "handle put now (kind_request kb c) co ctx =
      Some (reply MT_DOMAIN_CREATED (wr_u8 1 @ wr_u64 (cf_next_domain ?e) @ wr_u64 1), ?co1, ctx)"
    using e1(1) assms(2)
    by (simp add: kind_request_def handle_def dispatch_def body_readers prim_round last_u64 reading_def
        handle_create_domain_def worker_capacity_def g_def ref_body_def wr_ref_def wr_id_def wr_gen_def id_valid_def domain_fits_def)
  have "rd_payload (save_payload e1) = None"
  proof (rule payload_fails [OF assms(1) e1(6-8)])
    show "cf_domains e1 = cf_domains ?e @ (?k, d) # []" using e1(3) by simp
    show "rd_domain ?k (wr_domain d @ cs) = None" for cs using unnamed_kind_fails [OF assms(5) e1(4)] e1(5) by simp
  qed (use assms(1-3) e1(3) in \<open>auto simp: storable_def domain_fits_def id_valid_def\<close>)
  from load_refuses [OF this]
  have "sy_co (start_coordinator (Some (save_file e1)) disk) =
      \<lparr>co_engine = new_fabric default_limits, co_stop = False, co_disk = disk\<rparr>"
    by (simp add: start_coordinator_def)
  then show ?thesis using handled e1(2) by (intro exI [of _ ?co1]) (simp add: stop_coordinator_def)
qed

section \<open>An episode that outlives a reboot\<close>

lemma rd_many_fails:
  assumes "codec enc dec ok nrm" "list_all ok xs" "\<And>cs. dec (enc b @ cs) = None" "length xs < n"
  shows "rd_many n dec (concat (map enc xs) @ enc b @ bs) = None"
  using assms(2,4)
proof (induction xs arbitrary: n)
  case Nil
  then show ?case using assms(3) by (cases n) simp_all
next
  case (Cons x xs)
  obtain n' where n: "n = Suc n'" "length xs < n'" using Cons.prems(2) by (cases n) simp_all
  show ?case using Cons.IH [OF _ n(2)] Cons.prems(1) codec.round [OF assms(1), of x] by (simp add: n(1))
qed

lemma invalid_episode_fails:
  assumes "domain_storable (d\<lparr>d_episodes := eps\<rparr>)" "d_episodes d = eps @ [b]" "length (d_episodes d) \<le> 2 ^ 24"
    and "episode_storable b" "\<not> episode_valid b" "ref_id (d_ref d) = k"
  shows "rd_domain k (wr_domain d @ cs) = None"
proof -
  have good: "list_all (\<lambda>ep. episode_storable ep \<and> episode_valid ep) eps"
    using assms(1) by (simp_all add: domain_storable_def)
  have "\<not> episode_valid (durable_episode b)" using assms(5) by (simp add: episode_valid_def durable_episode_def)
  then have "rd_closed_episode (wr_episode b @ cs) = None" for cs
    using assms(4) c_episode.round [of b] by (simp add: rd_closed_episode_def)
  from rd_many_fails [OF c_closed.codec_axioms good this, of "length (d_episodes d)"]
  have many: "rd_many (length (d_episodes d)) rd_closed_episode (concat (map wr_episode eps) @ wr_episode b @ cs) = None" for cs
    using assms(2) by simp
  have count: "bounded_count kMaxCollectionCount (wr_u64 (of_nat (length (d_episodes d))) @ cs) =
      Some (of_nat (length (d_episodes d)), cs)" "unat (of_nat (length (d_episodes d)) :: u64) = length (d_episodes d)" for cs
    using bounded_count_round [of "length (d_episodes d)" kMaxCollectionCount] assms(3)
    by (simp_all add: collection_bound unat_u64_of_nat)
  have body: "concat (map wr_episode (d_episodes d)) @ cs = concat (map wr_episode eps) @ wr_episode b @ cs" for cs
    using assms(2) by simp
  note parts = assms(1) [unfolded domain_storable_def provs_named_def, simplified]
  show ?thesis
    using parts assms(6)
    by (simp add: rd_domain_def wr_domain_def rd_domain_kind_def codec_rt refs_round count body many)
qed

text \<open>What the first recompute after a restart does to a domain with an open episode: the state asks
  for revalidation, which is not a congested one, so the episode is closed at the time of the call.\<close>

definition after_reboot :: "EngineLimits \<Rightarrow> u64 \<Rightarrow> CongestionDomain \<Rightarrow> CongestionDomain" where
  "after_reboot lims now d = (let d1 = recover_domain (durable_domain d)
     in snd (episode_step lims 0 now CS_REVALIDATION_REQUIRED 0
          (d1\<lparr>d_state := CS_REVALIDATION_REQUIRED, d_state_provenance := MP_UNKNOWN\<rparr>)))"

lemma after_reboot_closes:
  assumes "ep_open (d_current_episode d)" "0 < unat (max_episode_history_per_domain lims)" "d_state d \<noteq> CS_UNKNOWN"
    and "domain_storable d" "now < ep_start_ms (d_current_episode d)"
    and "unat (max_episode_history_per_domain lims) \<le> 2 ^ 24" "ref_id (d_ref d) = k"
  shows "rd_domain k (wr_domain (after_reboot lims now d) @ cs) = None" "ref_id (d_ref (after_reboot lims now d)) = k"
proof -
  let ?r = "after_reboot lims now d"
  let ?b = "(durable_episode (d_current_episode d))\<lparr>ep_end_ms := now, ep_outcome := CS_REVALIDATION_REQUIRED, ep_open := False\<rparr>"
  let ?es = "map durable_episode (d_episodes d)"
  let ?eps = "if length (?es @ [?b]) > unat (max_episode_history_per_domain lims) then tl ?es else ?es"
  have es: "?es \<noteq> []" if "length (?es @ [?b]) > unat (max_episode_history_per_domain lims)"
    using that assms(2) by auto
  show k: "ref_id (d_ref ?r) = k"
    using assms(7) by (simp add: after_reboot_def Let_def episode_step_keeps recover_domain_def durable_domain_def)
  have eps: "d_episodes ?r = ?eps @ [?b]"
    using assms(1,3) es
    by (auto simp: after_reboot_def Let_def recover_domain_def durable_domain_def durable_episode_def episode_step_def congested_now_def)
  have len: "length (d_episodes ?r) \<le> 2 ^ 24" unfolding eps using assms(4,6) by (auto simp: domain_storable_def)
  have good: "list_all (\<lambda>ep. episode_storable ep \<and> episode_valid ep) ?es"
    using assms(4) by (simp add: domain_storable_def list_all_iff episode_storable_def episode_valid_def durable_episode_def)
  have "list_all (\<lambda>ep. episode_storable ep \<and> episode_valid ep) ?eps"
    using good by (cases ?es) (simp_all add: list_all_iff)
  then have "domain_storable (?r\<lparr>d_episodes := ?eps\<rparr>)"
    using assms(1,3,4) len [unfolded eps]
    by (simp add: after_reboot_def Let_def recover_domain_def durable_domain_def durable_episode_def episode_step_def congested_now_def
        domain_storable_def provs_named_def provs_keep token_bucket_def episode_storable_def default_episode_def str_ok_def)
  moreover have "episode_storable ?b" "\<not> episode_valid ?b"
    using assms(4,5) by (auto simp: domain_storable_def episode_storable_def durable_episode_def episode_valid_def)
  ultimately show "rd_domain k (wr_domain ?r @ cs) = None"
    using invalid_episode_fails [OF _ eps len _ _ k] by blast
qed

lemma um_assign_split:
  assumes "um_find m k = Some v"
  obtains m1 m2 where "m = m1 @ (k, v) # m2" "um_assign m k w = m1 @ (k, w) # m2"
proof -
  have "\<exists>m1 m2. m = m1 @ (k, v) # m2 \<and> um_assign m k w = m1 @ (k, w) # m2"
    using assms
  proof (induction m)
    case (Cons x m)
    obtain j u where x: "x = (j, u)" by fastforce
    show ?case
    proof (cases "j = k")
      case True
      then show ?thesis using Cons.prems by (auto simp: x um_find_def um_assign_def)
    next
      case False
      then obtain m1 m2 where "m = m1 @ (k, v) # m2" "um_assign m k w = m1 @ (k, w) # m2"
        using Cons by (auto simp: x um_find_def)
      then show ?thesis using False by (intro exI [of _ "x # m1"] exI [of _ m2]) (simp add: x um_assign_def)
    qed
  qed simp
  then show thesis using that by blast
qed

lemma recovered_storable: "domain_storable d \<Longrightarrow> domain_storable (recover_domain (durable_domain d))"
  by (simp add: domain_storable_def recover_domain_def durable_domain_def provs_named_def provs_keep token_bucket_def
      list_all_iff episode_storable_def episode_valid_def durable_episode_def)

lemma recovered_all:
  assumes "storable e"
  shows "list_all (\<lambda>(k, d). id_valid k \<and> ref_id (d_ref d) = k \<and> domain_storable d)
    (um_map (\<lambda>d. recover_domain (durable_domain d)) (cf_domains e))"
proof -
  have "d_ref (recover_domain (durable_domain d)) = d_ref d" for d by (simp add: recover_domain_def durable_domain_def)
  then show ?thesis
    using assms recovered_storable by (auto simp: storable_def list_all_iff um_map_def)
qed

lemma recompute_after_reboot:
  assumes "um_find (cf_domains e) k = Some (recover_domain (durable_domain d))" "ep_open (d_current_episode d)" "d_state d \<noteq> CS_UNKNOWN"
  shows "snd (recompute_domain k now e) = set_domain e k (after_reboot (cf_limits e) now d)"
  using assms
  by (simp add: recompute_domain_def Let_def needs_revalidation_def recover_domain_def durable_domain_def durable_episode_def
      classify_def default_assessment_def episode_step_def congested_now_def after_reboot_def)

text \<open>C30: episode times are those of the steady clock, which starts again when the host reboots, and
  they are saved. When a domain is saved with an open episode and the restarted engine recomputes
  it at a time before the stored start, the episode is closed with an end before its start: the
  load after the reboot succeeds, but the state saved from then on is refused by \<^verbatim>\<open>load\<close>.\<close>

theorem reboot_loses_state:
  assumes "storable e" "domain_of e k = Some d" "ep_open (d_current_episode d)" "d_state d \<noteq> CS_UNKNOWN"
    and "now < ep_start_ms (d_current_episode d)"
  shows "\<exists>e1. load (Some (save_file e)) (new_fabric default_limits) = (True, e1) \<and>
    load (Some (save_file (snd (recompute_domain k now e1)))) e0 = (False, e0)"
proof -
  let ?e1 = "commit_load (durable_of e) (new_fabric default_limits)"
  let ?e2 = "snd (recompute_domain k now ?e1)" and ?g = "\<lambda>d. recover_domain (durable_domain d)"
  have load: "load (Some (save_file e)) (new_fabric default_limits) = (True, ?e1)"
    using parse_save [OF assms(1)] by (simp add: load_def)
  have lims: "cf_limits ?e1 = default_limits" by (simp add: commit_load_def new_fabric_def)
  have same: "cf_epoch ?e1 = cf_epoch e" "cf_worker_boot ?e1 = cf_worker_boot e" "cf_source_boot ?e1 = cf_source_boot e"
    by (simp_all add: commit_load_def durable_of_def)
  have doms: "cf_domains ?e1 = um_map ?g (cf_domains e)"
    by (simp add: commit_load_def durable_of_def um_map_def case_prod_beta)
  have d: "um_find (cf_domains e) k = Some d" using assms(2) by (simp add: domain_of_def)
  have find: "um_find (cf_domains ?e1) k = Some (?g d)" using d by (simp add: doms)
  note e2 = recompute_after_reboot [OF find assms(3,4), of now, unfolded lims]
  obtain m1 m2 where m: "cf_domains ?e1 = m1 @ (k, ?g d) # m2"
      "um_assign (cf_domains ?e1) k (after_reboot default_limits now d) = m1 @ (k, after_reboot default_limits now d) # m2"
    using um_assign_split [OF find] by metis
  have wf: "um_wf (m1 @ (k, ?g d) # m2)"
    using assms(1) m(1) um.wf_mapv [of "cf_domains e" ?g] by (simp add: doms storable_def)
  have dk: "id_valid k" "ref_id (d_ref d) = k" "domain_storable d" 
    using assms(1) um_find_in_set [OF d] by (auto simp: storable_def list_all_iff)
  have "rd_payload (save_payload ?e2) = None"
  proof (rule payload_fails [OF assms(1)])
    show "cf_domains ?e2 = m1 @ (k, after_reboot default_limits now d) # m2" using m(2) by (simp add: e2)
    have "length (cf_domains ?e1) \<le> 2 ^ 24" using assms(1) by (simp add: doms storable_def)
    then show "length (cf_domains ?e2) \<le> 2 ^ 24" using m by (simp add: e2)
    show "um_wf m1" using wf by (simp add: um_wf_def)
    show "list_all (\<lambda>(k, d). id_valid k \<and> ref_id (d_ref d) = k \<and> domain_storable d) m1"
      using recovered_all [OF assms(1)] m(1) by (simp add: doms)
    show "rd_domain k (wr_domain (after_reboot default_limits now d) @ cs) = None" for cs
      by (rule after_reboot_closes [OF assms(3) _ assms(4) dk(3) assms(5) _ dk(2)]) (simp_all add: default_limits_def)
  qed (simp_all add: e2 same dk(1))
  from load_refuses [OF this] load show ?thesis by blast
qed

section \<open>Witnesses\<close>

theorem unchecked_kind_loses_state_witness:
  "\<exists>co1. handle (\<lambda>p b d. (True, b)) 7 (kind_request 20 d_one) \<lparr>co_engine = sample_active, co_stop = False, co_disk = []\<rparr> no_context =
      Some (reply MT_DOMAIN_CREATED (wr_u8 1 @ wr_u64 2 @ wr_u64 1), co1, no_context) \<and>
    cf_flows (co_engine co1) \<noteq> [] \<and>
    cf_flows (co_engine (sy_co (start_coordinator (Some (save_file (co_engine co1))) (co_disk co1)))) = []"
proof -
  let ?co = "\<lparr>co_engine = sample_active, co_stop = False, co_disk = []\<rparr> :: u8 list Coordinator"
  have "domain_fits sample_active" "length (cf_domains sample_active) < 2 ^ 24" "cf_next_domain sample_active = 2"
    by (simp_all add: domain_fits_def sample_state default_limits_def um_find_def)
  moreover have "fin_nonneg d_one" by (simp add: fin_nonneg_def dkey_d_one)
  moreover have "\<not> domain_kind_valid 20" by (simp add: domain_kind_valid_def)
  ultimately obtain co1 where "handle (\<lambda>p b d. (True, b)) 7 (kind_request 20 d_one) ?co no_context =
      Some (reply MT_DOMAIN_CREATED (wr_u8 1 @ wr_u64 2 @ wr_u64 1), co1, no_context)"
    "cf_flows (co_engine co1) = cf_flows sample_active"
    "co_engine (sy_co (start_coordinator (Some (save_file (co_engine co1))) ([] :: u8 list))) = new_fabric default_limits"
    using unchecked_kind_loses_state [of ?co d_one 20 "\<lambda>p b d. (True, b)" 7 no_context "[]" "[]"] sample_active_storable by auto
  then show ?thesis by (auto simp: sample_state start_coordinator_def)
qed

definition sample_episode :: CongestionEpisode where
  "sample_episode = default_episode\<lparr>ep_event_id := Id 1, ep_generation := Generation 1, ep_domain := EntityRef (Id 1) (Generation 1),
     ep_start_ms := 1000, ep_peak_state := CS_SATURATED, ep_open := True\<rparr>"

definition sample_congested :: CongestionFabric where
  "sample_congested = set_domain sample_active (Id 1)
     (sample_domain\<lparr>d_flows := [sample_ref], d_state := CS_SATURATED, d_current_episode := sample_episode\<rparr>)"

lemma sample_congested_storable: "storable sample_congested"
proof -
  have d: "domain_storable (sample_domain\<lparr>d_flows := [sample_ref], d_state := CS_SATURATED, d_current_episode := sample_episode\<rparr>)"
    using sample_domain_storable
    by (simp add: domain_storable_def provs_named_def sample_episode_def episode_storable_def default_episode_def str_ok_def)
  have "length (save_file sample_congested) = length (save_file sample_active)"
    by (simp add: save_file_def envelope_length [symmetric] save_payload_def sample_congested_def sample_state um_assign_def wr_id_def
      wr_domain_def wr_episode_def wr_str_def sample_episode_def sample_values wr_lengths wr_gen_def wr_ref_def wr_bool_def)
  then show ?thesis
    using sample_active_storable d by (simp add: storable_def sample_congested_def) (simp add: sample_state um_assign_def sample_domain_def um_wf_def)
qed

theorem reboot_loses_state_witness:
  "\<exists>e1. load (Some (save_file sample_congested)) (new_fabric default_limits) = (True, e1) \<and>
     load (Some (save_file (snd (recompute_domain (Id 1) 10 e1)))) (new_fabric default_limits) = (False, new_fabric default_limits)"
proof -
  let ?d = "sample_domain\<lparr>d_flows := [sample_ref], d_state := CS_SATURATED, d_current_episode := sample_episode\<rparr>"
  have "domain_of sample_congested (Id 1) = Some ?d" by (simp add: domain_of_def sample_congested_def)
  from reboot_loses_state [OF sample_congested_storable this, of 10 "new_fabric default_limits"] show ?thesis
    by (simp add: sample_episode_def)
qed

end
