(* ===== verification/Sockets.thy ===== *)
theory Sockets
  imports Net
begin

text \<open>
  Opening sockets, the first half of \<^verbatim>\<open>include/congestion_fabric/net.hpp\<close>. The operating system's calls are the
  fields of the argument \<open>os\<close>, over a state of any type; a socket is its descriptor, \<open>None\<close> is
  \<^verbatim>\<open>INVALID_SOCKET\<close>, a Boolean result is false for \<^verbatim>\<open>SOCKET_ERROR\<close>. The address is always the loopback
  interface, so the port stands for it.
\<close>

record 'u Sockets =
  os_startup :: "'u \<Rightarrow> bool \<times> 'u"
  os_cleanup :: "'u \<Rightarrow> 'u"
  os_socket :: "'u \<Rightarrow> nat option \<times> 'u"
  os_setsockopt :: "nat \<Rightarrow> 'u \<Rightarrow> 'u"
  os_bind :: "nat \<Rightarrow> u16 \<Rightarrow> 'u \<Rightarrow> bool \<times> 'u"
  os_listen :: "nat \<Rightarrow> 'u \<Rightarrow> bool \<times> 'u"
  os_connect :: "nat \<Rightarrow> u16 \<Rightarrow> 'u \<Rightarrow> bool \<times> 'u"
  os_close :: "nat \<Rightarrow> 'u \<Rightarrow> 'u"

definition net_init :: "'u Sockets \<Rightarrow> 'u \<Rightarrow> bool \<times> 'u" where
  "net_init os u = os_startup os u"

definition net_cleanup :: "'u Sockets \<Rightarrow> 'u \<Rightarrow> 'u" where
  "net_cleanup os u = os_cleanup os u"

definition close_socket :: "'u Sockets \<Rightarrow> nat \<Rightarrow> 'u \<Rightarrow> 'u" where
  "close_socket os s u = os_close os s u"

definition listen_socket :: "'u Sockets \<Rightarrow> u16 \<Rightarrow> 'u \<Rightarrow> nat option \<times> 'u" where
  "listen_socket os port u = (case os_socket os u of
     (None, u) \<Rightarrow> (None, u)
   | (Some s, u) \<Rightarrow> (case os_bind os s port (os_setsockopt os s u) of (ok, u) \<Rightarrow>
       if \<not> ok then (None, close_socket os s u)
       else (case os_listen os s u of (ok, u) \<Rightarrow>
         if \<not> ok then (None, close_socket os s u) else (Some s, u))))"

definition connect_socket :: "'u Sockets \<Rightarrow> u16 \<Rightarrow> 'u \<Rightarrow> nat option \<times> 'u" where
  "connect_socket os port u = (case os_socket os u of
     (None, u) \<Rightarrow> (None, u)
   | (Some s, u) \<Rightarrow> (case os_connect os s port u of (ok, u) \<Rightarrow>
       if \<not> ok then (None, close_socket os s u) else (Some s, u)))"

text \<open>What the operating system promises about descriptors: a new socket is open and was not before, closing
  closes exactly that one, the other calls open and close nothing.\<close>

definition descriptors_ok :: "'u Sockets \<Rightarrow> ('u \<Rightarrow> nat set) \<Rightarrow> bool" where
  "descriptors_ok os opened \<longleftrightarrow>
     (\<forall>u. case os_socket os u of (None, v) \<Rightarrow> opened v = opened u
        | (Some s, v) \<Rightarrow> s \<notin> opened u \<and> opened v = insert s (opened u)) \<and>
     (\<forall>u s p. opened (os_setsockopt os s u) = opened u \<and> opened (snd (os_bind os s p u)) = opened u \<and>
        opened (snd (os_listen os s u)) = opened u \<and> opened (snd (os_connect os s p u)) = opened u \<and>
        opened (os_close os s u) = opened u - {s})"

lemma socket_cases:
  assumes "descriptors_ok os opened"
  obtains (failed) v where "os_socket os u = (None, v)" "opened v = opened u"
    | (opened) s v where "os_socket os u = (Some s, v)" "s \<notin> opened u" "opened v = insert s (opened u)"
proof -
  have "case os_socket os u of (None, v) \<Rightarrow> opened v = opened u
      | (Some s, v) \<Rightarrow> s \<notin> opened u \<and> opened v = insert s (opened u)"
    using assms by (simp add: descriptors_ok_def)
  then show thesis using failed opened by (cases "os_socket os u") (auto split: option.splits)
qed

text \<open>Opening a socket leaks no descriptor: when \<^verbatim>\<open>listen_socket\<close> or \<^verbatim>\<open>connect_socket\<close> fails, at whatever call,
  the open descriptors are those from before; when it succeeds there is one more, the result, until
  \<^verbatim>\<open>close_socket\<close> closes it.\<close>

theorem sockets_not_leaked:
  assumes "descriptors_ok os opened" "open_call = listen_socket os port \<or> open_call = connect_socket os port"
  shows "case open_call u of (None, v) \<Rightarrow> opened v = opened u
    | (Some s, v) \<Rightarrow> s \<notin> opened u \<and> opened v = insert s (opened u) \<and> opened (close_socket os s v) = opened u"
proof -
  have keep: "opened (os_setsockopt os s v) = opened v" "opened (snd (os_bind os s p v)) = opened v"
    "opened (snd (os_listen os s v)) = opened v" "opened (snd (os_connect os s p v)) = opened v"
    "opened (os_close os s v) = opened v - {s}" for s p v
    using assms(1) by (simp_all add: descriptors_ok_def)
  from assms(1) show ?thesis
  proof (cases rule: socket_cases [where u = u])
    case (failed v)
    then show ?thesis using assms(2) by (auto simp: listen_socket_def connect_socket_def)
  next
    case (opened s v)
    then show ?thesis
      using assms(2) by (auto simp: listen_socket_def connect_socket_def close_socket_def case_prod_beta keep)
  qed
qed

text \<open>An operating system that hands out descriptors in order and refuses port zero.\<close>

definition counting_os :: "(nat \<times> nat list) Sockets" where
  "counting_os = \<lparr>os_startup = (\<lambda>u. (True, u)), os_cleanup = id, os_socket = (\<lambda>(n, l). (Some n, (n + 1, n # l))),
     os_setsockopt = (\<lambda>s u. u), os_bind = (\<lambda>s p u. (p \<noteq> 0, u)), os_listen = (\<lambda>s u. (True, u)),
     os_connect = (\<lambda>s p u. (p \<noteq> 0, u)), os_close = (\<lambda>s (n, l). (n, removeAll s l))\<rparr>"

definition listed_sockets :: "nat \<times> nat list \<Rightarrow> nat set" where
  "listed_sockets u = set (filter (\<lambda>s. s < fst u) (snd u))"

lemma counting_os_ok: "descriptors_ok counting_os listed_sockets"
  by (auto simp: descriptors_ok_def counting_os_def listed_sockets_def split: prod.splits)

theorem sockets_not_leaked_witness:
  "listen_socket counting_os 0 (3, []) = (None, (4, [])) \<and> listen_socket counting_os 80 (3, []) = (Some 3, (4, [3])) \<and>
   listed_sockets (close_socket counting_os 3 (4, [3])) = listed_sockets (3, [])"
  using sockets_not_leaked [OF counting_os_ok, of "listen_socket counting_os 80" 80 "(3, [])"]
  by (simp add: listen_socket_def close_socket_def counting_os_def)

end
