(* ===== verification/Cursor.thy ===== *)
theory Cursor
  imports Durability
begin

text \<open>
  The classes \<^verbatim>\<open>Writer\<close> and \<^verbatim>\<open>Reader\<close> of \<^verbatim>\<open>include/congestion_fabric/persistence.hpp\<close> as they are: a growing buffer, and a
  cursor with a length and an offset of 64 bits over bytes it does not own, whose offset stays where it is when a read
  throws. The theory \<open>Bytes\<close> reads from the list of the bytes that are left; the locale \<open>reader_op\<close> says when an
  operation of the cursor implements one on that list. The checks of the file envelope in \<^verbatim>\<open>load\<close>, with their pointer
  into the buffer, are shown to implement \<open>open_envelope\<close>.
\<close>

section \<open>The writer\<close>

type_synonym Writer = "u8 list"

definition writer_u8 :: "u8 \<Rightarrow> Writer \<Rightarrow> Writer" where
  "writer_u8 v buf = buf @ [v]"

definition writer_u16 :: "u16 \<Rightarrow> Writer \<Rightarrow> Writer" where
  "writer_u16 v buf = writer_u8 (ucast (drop_bit 8 v AND 0xFF)) (writer_u8 (ucast (v AND 0xFF)) buf)"

definition writer_u32 :: "u32 \<Rightarrow> Writer \<Rightarrow> Writer" where
  "writer_u32 v buf = fold (\<lambda>i. writer_u8 (ucast (drop_bit (8 * i) v AND 0xFF))) [0..<4] buf"

definition writer_u64 :: "u64 \<Rightarrow> Writer \<Rightarrow> Writer" where
  "writer_u64 v buf = fold (\<lambda>i. writer_u8 (ucast (drop_bit (8 * i) v AND 0xFF))) [0..<8] buf"

definition writer_raw :: "u8 list \<Rightarrow> Writer \<Rightarrow> Writer" where
  "writer_raw d buf = buf @ d"

definition writer_str :: "string \<Rightarrow> Writer \<Rightarrow> Writer" where
  "writer_str s buf = writer_raw (map (\<lambda>c. of_nat (of_char c)) s) (writer_u64 (of_nat (length s)) buf)"

definition writer_crc :: "Writer \<Rightarrow> u32" where
  "writer_crc buf = crc32 buf"

definition writer_clear :: "Writer \<Rightarrow> Writer" where
  "writer_clear buf = []"

lemma fold_writer: "fold (\<lambda>i. writer_u8 (f i)) xs buf = buf @ map f xs"
  by (induction xs arbitrary: buf) (simp_all add: writer_u8_def)

lemma writer_appends:
  "writer_u8 v8 buf = buf @ wr_u8 v8" "writer_u16 v16 buf = buf @ wr_u16 v16" "writer_u32 v32 buf = buf @ wr_u32 v32"
  "writer_u64 v64 buf = buf @ wr_u64 v64" "writer_str s buf = buf @ wr_str s"
  by (simp_all add: writer_u8_def wr_u8_def writer_u16_def wr_u16_def writer_u32_def wr_u32_def writer_u64_def wr_u64_def writer_str_def wr_str_def
      writer_raw_def le_bytes_def fold_writer) (simp add: upt_rec)

section \<open>The reader\<close>

record Reader =
  rd_p :: "u8 list"
  rd_len :: u64
  rd_off :: u64

type_synonym 'a cursor_op = "Reader \<Rightarrow> 'a option \<times> Reader"

text \<open>Sequencing: an exception ends the reading where it is.\<close>

definition give :: "'a \<Rightarrow> 'a cursor_op" where
  "give x r = (Some x, r)"

definition throw_unless :: "bool \<Rightarrow> unit cursor_op" where
  "throw_unless b r = (check b, r)"

definition and_then :: "'a cursor_op \<Rightarrow> ('a \<Rightarrow> 'b cursor_op) \<Rightarrow> 'b cursor_op" where
  "and_then m k r = (case m r of (None, r) \<Rightarrow> (None, r) | (Some x, r) \<Rightarrow> k x r)"

definition reader_of :: "u8 list \<Rightarrow> Reader" where
  "reader_of v = \<lparr>rd_p = v, rd_len = of_nat (length v), rd_off = 0\<rparr>"

definition remaining :: "Reader \<Rightarrow> u64" where
  "remaining r = rd_len r - rd_off r"

definition reader_empty :: "Reader \<Rightarrow> bool" where
  "reader_empty r \<longleftrightarrow> rd_off r \<ge> rd_len r"

definition seek :: "u64 \<Rightarrow> unit cursor_op" where
  "seek o' r = (if o' > rd_len r then (None, r) else (Some (), r\<lparr>rd_off := o'\<rparr>))"

definition need :: "u64 \<Rightarrow> unit cursor_op" where
  "need n r = (if n > rd_len r - rd_off r then (None, r) else (Some (), r))"

definition cursor_u8 :: "u8 cursor_op" where
  "cursor_u8 = and_then (need 1) (\<lambda>_ r. (Some (rd_p r ! unat (rd_off r)), r\<lparr>rd_off := rd_off r + 1\<rparr>))"

fun cursor_le :: "nat \<Rightarrow> nat \<Rightarrow> 'a::len word \<Rightarrow> 'a word cursor_op" where
  "cursor_le i 0 v = give v"
| "cursor_le i (Suc n) v = and_then cursor_u8 (\<lambda>b. cursor_le (Suc i) n (v OR push_bit (8 * i) (ucast b)))"

definition cursor_u16 :: "u16 cursor_op" where
  "cursor_u16 = and_then cursor_u8 (\<lambda>a. and_then cursor_u8 (\<lambda>b. give (ucast a OR push_bit 8 (ucast b))))"

definition cursor_u32 :: "u32 cursor_op" where
  "cursor_u32 = cursor_le 0 4 0"

definition cursor_u64 :: "u64 cursor_op" where
  "cursor_u64 = cursor_le 0 8 0"

definition cursor_bytes :: "u64 \<Rightarrow> u8 list cursor_op" where
  "cursor_bytes n = and_then (need n) (\<lambda>_ r. (Some (take (unat n) (drop (unat (rd_off r)) (rd_p r))), r\<lparr>rd_off := rd_off r + n\<rparr>))"

definition cursor_str :: "string cursor_op" where
  "cursor_str = and_then cursor_u64 (\<lambda>n. and_then (throw_unless (\<not> n > kMaxStringBytes)) (\<lambda>_.
     and_then (cursor_bytes n) (\<lambda>raw. give (map (\<lambda>b. char_of (unat b)) raw))))"

definition cursor_count :: "u64 \<Rightarrow> u64 cursor_op" where
  "cursor_count bnd = and_then cursor_u64 (\<lambda>n. and_then (throw_unless (\<not> n > bnd)) (\<lambda>_. give n))"

text \<open>The part of \<^verbatim>\<open>load\<close> that opens the envelope of a file read into \<open>rd_p\<close>: the checksum is taken over the bytes that the
  pointer \<^verbatim>\<open>pstart\<close> designates, computed back from the offset at the end.\<close>

definition pstart :: "u64 \<Rightarrow> Reader \<Rightarrow> u64" where
  "pstart plen r = rd_off r - plen - 4"

definition cursor_payload :: "u64 \<Rightarrow> u8 list cursor_op" where
  "cursor_payload plen = and_then (cursor_bytes plen) (\<lambda>payload. and_then cursor_u32 (\<lambda>stored_crc.
     and_then (\<lambda>env. throw_unless (remaining env = 0) env) (\<lambda>_.
     and_then (\<lambda>env. throw_unless (crc32 (take (unat plen) (drop (unat (pstart plen env)) (rd_p env))) = stored_crc) env) (\<lambda>_. give payload))))"

definition cursor_envelope :: "u8 list cursor_op" where
  "cursor_envelope = and_then (cursor_bytes 8) (\<lambda>magic. and_then (throw_unless (magic = kMagic)) (\<lambda>_.
     and_then cursor_u32 (\<lambda>version. and_then (throw_unless (version = kVersion)) (\<lambda>_.
     and_then cursor_u64 (\<lambda>plen. and_then (throw_unless (\<not> plen > kMaxPayloadBytes)) (\<lambda>_.
     and_then cursor_u32 (\<lambda>len_crc. and_then (throw_unless (crc32 (le_bytes 8 plen) = len_crc)) (\<lambda>_.
     and_then (\<lambda>env. throw_unless (\<not> remaining env < plen) env) (\<lambda>_. cursor_payload plen)))))))))"

section \<open>The contract of a reading operation\<close>

definition reader_ok :: "Reader \<Rightarrow> bool" where
  "reader_ok r \<longleftrightarrow> length (rd_p r) = unat (rd_len r) \<and> rd_off r \<le> rd_len r"

definition unread :: "Reader \<Rightarrow> u8 list" where
  "unread r = drop (unat (rd_off r)) (rd_p r)"

definition advanced :: "Reader \<Rightarrow> Reader \<Rightarrow> bool" where
  "advanced r r' \<longleftrightarrow> reader_ok r' \<and> rd_p r' = rd_p r \<and> rd_len r' = rd_len r \<and> rd_off r \<le> rd_off r'"

text \<open>The operation keeps the offset within the buffer and never moves it back, throws exactly when the one on lists
  fails, and otherwise gives the same value and leaves the same bytes.\<close>

locale reader_op =
  fixes op :: "'a cursor_op" and spec :: "u8 list \<Rightarrow> ('a \<times> u8 list) option"
  assumes sim: "reader_ok r \<Longrightarrow> op r = (v, r') \<Longrightarrow>
    advanced r r' \<and> spec (unread r) = (case v of None \<Rightarrow> None | Some x \<Rightarrow> Some (x, unread r'))"
begin

lemma result: "reader_ok r \<Longrightarrow> spec (unread r) = map_option (\<lambda>x. (x, unread (snd (op r)))) (fst (op r))"
  using sim [of r "fst (op r)" "snd (op r)"] by (simp split: option.split)

lemma reads: "reader_ok r \<Longrightarrow> spec (unread r) = Some (x, bs) \<Longrightarrow> \<exists>r'. op r = (Some x, r') \<and> unread r' = bs \<and> advanced r r'"
  using sim [of r "fst (op r)" "snd (op r)"] by (auto simp: prod_eq_iff split: option.splits)

lemma throws_iff: "reader_ok r \<Longrightarrow> fst (op r) = None \<longleftrightarrow> spec (unread r) = None"
  by (simp add: result)

lemma stays_inside: "reader_ok r \<Longrightarrow> reader_ok (snd (op r)) \<and> rd_p (snd (op r)) = rd_p r"
  using sim [of r "fst (op r)" "snd (op r)"] by (simp add: advanced_def)

lemma unread_shrinks: "reader_ok r \<Longrightarrow> length (unread (snd (op r))) \<le> length (unread r)"
  using sim [of r "fst (op r)" "snd (op r)"] by (auto simp: advanced_def unread_def word_le_nat_alt)

end

lemma advanced_refl: "reader_ok r \<Longrightarrow> advanced r r"
  by (simp add: advanced_def)

lemma advanced_trans: "advanced r s \<Longrightarrow> advanced s t \<Longrightarrow> advanced r t"
  by (auto simp: advanced_def)

lemma give_op: "reader_op (give x) (\<lambda>bs. Some (x, bs))"
  by unfold_locales (auto simp: give_def advanced_refl)

lemma throw_unless_op: "reader_op (throw_unless b) (\<lambda>bs. map_option (\<lambda>u. (u, bs)) (check b))"
  by unfold_locales (auto simp: throw_unless_def advanced_refl split: option.splits)

lemma and_then_op:
  assumes "reader_op m f" "\<And>x. reader_op (k x) (g x)"
  shows "reader_op (and_then m k) (\<lambda>bs. case f bs of None \<Rightarrow> None | Some (x, bs) \<Rightarrow> g x bs)"
proof
  fix r v r' assume r: "reader_ok r" "and_then m k r = (v, r')"
  obtain w s where w: "m r = (w, s)" by fastforce
  note first = reader_op.sim [OF assms(1) r(1) w]
  show "advanced r r' \<and> (case f (unread r) of None \<Rightarrow> None | Some (x, bs) \<Rightarrow> g x bs) =
      (case v of None \<Rightarrow> None | Some x \<Rightarrow> Some (x, unread r'))"
  proof (cases w)
    case None
    then show ?thesis using first r(2) w by (simp add: and_then_def)
  next
    case (Some x)
    then have "k x s = (v, r')" "reader_ok s" using r(2) w first by (simp_all add: and_then_def advanced_def)
    from reader_op.sim [OF assms(2) this(2,1)] show ?thesis using first Some advanced_trans by auto
  qed
qed

section \<open>The operations meet the contract\<close>

lemma need_iff: "reader_ok r \<Longrightarrow> need n r = (if unat n > length (unread r) then (None, r) else (Some (), r))"
  by (auto simp: need_def reader_ok_def unread_def word_less_nat_alt word_le_nat_alt unat_sub)

lemma moved:
  assumes "reader_ok r" "unat n \<le> length (unread r)"
  shows "unat (rd_off r + n) = unat (rd_off r) + unat n" "advanced r (r\<lparr>rd_off := rd_off r + n\<rparr>)"
proof -
  have le: "unat (rd_off r) + unat n \<le> unat (rd_len r)" using assms by (auto simp: reader_ok_def unread_def word_le_nat_alt)
  then show sum: "unat (rd_off r + n) = unat (rd_off r) + unat n"
    using unat_u64_bound [of "rd_len r"] by (simp add: unat_word_ariths)
  then show "advanced r (r\<lparr>rd_off := rd_off r + n\<rparr>)"
    using assms(1) le by (simp add: advanced_def reader_ok_def word_le_nat_alt)
qed

lemma cursor_bytes_cases:
  assumes "reader_ok r"
  shows "cursor_bytes n r = (if unat n > length (unread r) then (None, r) else (Some (take (unat n) (unread r)), r\<lparr>rd_off := rd_off r + n\<rparr>))"
  by (simp add: cursor_bytes_def and_then_def need_iff [OF assms] unread_def)

interpretation cu_bytes: reader_op "cursor_bytes n" "rd_raw (unat n)" for n
proof
  fix r v r' assume r: "reader_ok r" "cursor_bytes n r = (v, r')"
  show "advanced r r' \<and> rd_raw (unat n) (unread r) = (case v of None \<Rightarrow> None | Some x \<Rightarrow> Some (x, unread r'))"
  proof (cases "unat n > length (unread r)")
    case True
    then show ?thesis using r cursor_bytes_cases [OF r(1), of n] by (auto simp: rd_raw_def advanced_refl)
  next
    case False
    then have "v = Some (take (unat n) (unread r))" "r' = r\<lparr>rd_off := rd_off r + n\<rparr>"
      using r(2) cursor_bytes_cases [OF r(1), of n] by simp_all
    moreover have "unread (r\<lparr>rd_off := rd_off r + n\<rparr>) = drop (unat n) (unread r)"
      using moved(1) [OF r(1), of n] False by (simp add: unread_def add.commute)
    ultimately show ?thesis using moved(2) [OF r(1), of n] False by (simp add: rd_raw_def)
  qed
qed

lemma cursor_u8_cases:
  assumes "reader_ok r"
  shows "cursor_u8 r = (case unread r of [] \<Rightarrow> (None, r) | b # bs \<Rightarrow> (Some b, r\<lparr>rd_off := rd_off r + 1\<rparr>))"
proof (cases "unread r")
  case (Cons b bs)
  then have "rd_p r ! unat (rd_off r) = b" unfolding unread_def by (metis drop_eq_Nil hd_drop_conv_nth leI list.distinct(1) list.sel(1))
  then show ?thesis using Cons need_iff [OF assms, of 1] by (simp add: cursor_u8_def and_then_def)
qed (use need_iff [OF assms, of 1] in \<open>simp add: cursor_u8_def and_then_def\<close>)

interpretation cu_u8: reader_op cursor_u8 rd_u8
proof
  fix r v r' assume r: "reader_ok r" "cursor_u8 r = (v, r')"
  show "advanced r r' \<and> rd_u8 (unread r) = (case v of None \<Rightarrow> None | Some x \<Rightarrow> Some (x, unread r'))"
  proof (cases "unread r")
    case Nil
    then show ?thesis using r cursor_u8_cases [OF r(1)] by (auto simp: advanced_refl)
  next
    case (Cons b bs)
    then have c: "unat (1 :: u64) \<le> length (unread r)" by simp
    have "unread (r\<lparr>rd_off := rd_off r + 1\<rparr>) = bs"
      using Cons moved(1) [OF r(1) c] by (simp add: unread_def) (metis drop_Suc drop_tl list.sel(3))
    then show ?thesis using r cursor_u8_cases [OF r(1)] moved(2) [OF r(1) c] Cons by auto
  qed
qed

lemma cursor_le_op: "reader_op (cursor_le i n v) (rd_le i n v)"
proof (induction n arbitrary: i v)
  case 0
  have "rd_le i 0 v = (\<lambda>bs. Some (v, bs))" by (rule ext) simp
  then show ?case using give_op [of v] by simp
next
  case (Suc n)
  have "rd_le i (Suc n) v = (\<lambda>bs. case rd_u8 bs of None \<Rightarrow> None | Some (b, bs) \<Rightarrow> rd_le (Suc i) n (v OR push_bit (8 * i) (ucast b)) bs)"
    by (rule ext) simp
  then show ?case using and_then_op [OF cu_u8.reader_op_axioms Suc] by simp
qed

lemma cursor_u16_le: "cursor_u16 = cursor_le 0 2 0"
  by (simp add: cursor_u16_def eval_nat_numeral)

interpretation cu_u16: reader_op cursor_u16 rd_u16
  using cursor_le_op [of 0 2 0] by (simp add: cursor_u16_le rd_u16_def [abs_def])

interpretation cu_u32: reader_op cursor_u32 rd_u32
  using cursor_le_op [of 0 4 0] by (simp add: cursor_u32_def rd_u32_def [abs_def])

interpretation cu_u64: reader_op cursor_u64 rd_u64
  using cursor_le_op [of 0 8 0] by (simp add: cursor_u64_def rd_u64_def [abs_def])

lemma throw_then_op:
  assumes "reader_op k g"
  shows "reader_op (and_then (throw_unless b) (\<lambda>_. k)) (\<lambda>bs. if b then g bs else None)"
  using and_then_op [OF throw_unless_op assms, of b] by (cases b) simp_all

interpretation cu_str: reader_op cursor_str rd_str
proof -
  have "reader_op cursor_str (\<lambda>bs. case rd_u64 bs of None \<Rightarrow> None | Some (n, bs) \<Rightarrow>
      if \<not> n > kMaxStringBytes then case rd_raw (unat n) bs of None \<Rightarrow> None | Some (raw, bs) \<Rightarrow> Some (map (\<lambda>b. char_of (unat b)) raw, bs) else None)"
    unfolding cursor_str_def by (intro and_then_op throw_then_op give_op cu_u64.reader_op_axioms cu_bytes.reader_op_axioms)
  also have "(\<lambda>bs. case rd_u64 bs of None \<Rightarrow> None | Some (n, bs) \<Rightarrow>
      if \<not> n > kMaxStringBytes then case rd_raw (unat n) bs of None \<Rightarrow> None | Some (raw, bs) \<Rightarrow> Some (map (\<lambda>b. char_of (unat b)) raw, bs) else None) = rd_str"
    by (rule ext) (auto simp: rd_str_def split: option.splits)
  finally show "reader_op cursor_str rd_str" .
qed

interpretation cu_count: reader_op "cursor_count bnd" "bounded_count bnd" for bnd
proof -
  have "reader_op (cursor_count bnd) (\<lambda>bs. case rd_u64 bs of None \<Rightarrow> None | Some (n, bs) \<Rightarrow> if \<not> n > bnd then Some (n, bs) else None)"
    unfolding cursor_count_def by (intro and_then_op throw_then_op give_op cu_u64.reader_op_axioms)
  also have "(\<lambda>bs. case rd_u64 bs of None \<Rightarrow> None | Some (n, bs) \<Rightarrow> if \<not> n > bnd then Some (n, bs) else None) = bounded_count bnd"
    by (rule ext) (auto simp: bounded_count_def split: option.splits)
  finally show "reader_op (cursor_count bnd) (bounded_count bnd)" .
qed

section \<open>The envelope\<close>

lemma unat_remaining: "reader_ok r \<Longrightarrow> unat (remaining r) = length (unread r)"
  by (simp add: reader_ok_def remaining_def unread_def unat_sub word_le_nat_alt)

lemma cursor_le_offset:
  assumes "reader_ok r" "cursor_le i n v r = (Some x, r')"
  shows "rd_off r' = rd_off r + of_nat n"
  using assms
proof (induction n arbitrary: i v r)
  case (Suc n)
  then obtain b s where s: "cursor_u8 r = (Some b, s)" "cursor_le (Suc i) n (v OR push_bit (8 * i) (ucast b)) s = (Some x, r')"
    by (auto simp: and_then_def split: prod.splits option.splits)
  have "reader_ok s" using cu_u8.sim [OF Suc.prems(1) s(1)] by (simp add: advanced_def)
  moreover have "rd_off s = rd_off r + 1" using s(1) cursor_u8_cases [OF Suc.prems(1)] by (auto split: list.splits)
  ultimately show ?case using Suc.IH [OF _ s(2)] by (simp add: algebra_simps)
qed (simp add: give_def)

text \<open>The pointer computed back from the end designates the payload that was read.\<close>

lemma payload_designated:
  assumes "reader_ok r" "cursor_bytes plen r = (Some payload, s)" "cursor_u32 s = (Some c, env)"
  shows "take (unat plen) (drop (unat (pstart plen env)) (rd_p env)) = payload"
proof -
  have s: "reader_ok s" "rd_p s = rd_p r" using cu_bytes.sim [OF assms(1,2)] by (simp_all add: advanced_def)
  then have "rd_p env = rd_p r" using cu_u32.sim [OF s(1) assms(3)] by (simp add: advanced_def)
  moreover have "payload = take (unat plen) (unread r)" "rd_off s = rd_off r + plen"
    using assms(2) cursor_bytes_cases [OF assms(1), of plen] by (auto split: if_splits)
  moreover have "rd_off env = rd_off s + 4" using cursor_le_offset [OF s(1), of 0 4 0 c env] assms(3) by (simp add: cursor_u32_def)
  ultimately show ?thesis by (simp add: pstart_def unread_def)
qed

definition payload_spec :: "u64 \<Rightarrow> u8 list \<Rightarrow> (u8 list \<times> u8 list) option" where
  "payload_spec plen bs = do {
     (payload, bs) \<leftarrow> rd_raw (unat plen) bs;
     (stored_crc, bs) \<leftarrow> rd_u32 bs;
     check (bs = []);
     check (crc32 payload = stored_crc);
     Some (payload, bs) }"

lemma cursor_payload_op: "reader_op (cursor_payload plen) (payload_spec plen)"
proof
  fix r v r' assume r: "reader_ok r" "cursor_payload plen r = (v, r')"
  obtain v1 s where b: "cursor_bytes plen r = (v1, s)" by fastforce
  note first = cu_bytes.sim [OF r(1) b]
  show "advanced r r' \<and> payload_spec plen (unread r) = (case v of None \<Rightarrow> None | Some x \<Rightarrow> Some (x, unread r'))"
  proof (cases v1)
    case None
    then show ?thesis using first b r(2) by (auto simp: cursor_payload_def payload_spec_def and_then_def)
  next
    case (Some payload)
    then have s: "reader_ok s" using first by (simp add: advanced_def)
    obtain v2 env where c: "cursor_u32 s = (v2, env)" by fastforce
    note second = cu_u32.sim [OF s c]
    have adv: "advanced r env" using first second advanced_trans by blast
    show ?thesis
    proof (cases v2)
      case None
      then show ?thesis using first second Some adv b c r(2) by (auto simp: cursor_payload_def payload_spec_def and_then_def)
    next
      case (Some stored)
      have env: "remaining env = 0 \<longleftrightarrow> unread env = []" using unat_remaining [of env] second by (auto simp: advanced_def unat_eq_zero)
      note slice = payload_designated [OF r(1) b [unfolded \<open>v1 = Some payload\<close>] c [unfolded Some]]
      have "cursor_payload plen r = ((if unread env = [] \<and> crc32 payload = stored then Some payload else None), env)"
        using b c \<open>v1 = Some payload\<close> Some slice env
        by (auto simp: cursor_payload_def and_then_def throw_unless_def give_def check_def)
      then show ?thesis
        using r(2) adv first second \<open>v1 = Some payload\<close> Some by (auto simp: payload_spec_def check_def)
    qed
  qed
qed

lemma room_then_op:
  assumes "reader_op k g"
  shows "reader_op (and_then (\<lambda>env. throw_unless (\<not> remaining env < n) env) (\<lambda>_. k)) (\<lambda>bs. if \<not> length bs < unat n then g bs else None)"
proof
  fix r v r' assume r: "reader_ok r" "and_then (\<lambda>env. throw_unless (\<not> remaining env < n) env) (\<lambda>_. k) r = (v, r')"
  then show "advanced r r' \<and> (if \<not> length (unread r) < unat n then g (unread r) else None) =
      (case v of None \<Rightarrow> None | Some x \<Rightarrow> Some (x, unread r'))"
    using unat_remaining [OF r(1)] reader_op.sim [OF assms r(1)]
    by (auto simp: and_then_def throw_unless_def check_def word_less_nat_alt advanced_refl split: if_splits)
qed

lemma cursor_envelope_op: "reader_op cursor_envelope (\<lambda>bs. map_option (\<lambda>payload. (payload, [])) (open_envelope bs))"
proof -
  let ?g = "\<lambda>bs. case rd_raw (unat (8 :: u64)) bs of None \<Rightarrow> None | Some (magic, bs) \<Rightarrow> if magic = kMagic then
      case rd_u32 bs of None \<Rightarrow> None | Some (version, bs) \<Rightarrow> if version = kVersion then
      case rd_u64 bs of None \<Rightarrow> None | Some (plen, bs) \<Rightarrow> if \<not> plen > kMaxPayloadBytes then
      case rd_u32 bs of None \<Rightarrow> None | Some (len_crc, bs) \<Rightarrow> if crc32 (le_bytes 8 plen) = len_crc then
      if \<not> length bs < unat plen then payload_spec plen bs else None else None else None else None else None"
  have "reader_op cursor_envelope ?g"
    unfolding cursor_envelope_def
    by (intro and_then_op throw_then_op room_then_op cursor_payload_op cu_u32.reader_op_axioms cu_u64.reader_op_axioms cu_bytes.reader_op_axioms)
  also have "?g = (\<lambda>bs. map_option (\<lambda>payload. (payload, [])) (open_envelope bs))"
    by (rule ext) (auto simp: open_envelope_def payload_spec_def check_def split: option.splits bind_splits)
  finally show ?thesis .
qed

lemma reader_of_ok: "length buf < 2 ^ 64 \<Longrightarrow> reader_ok (reader_of buf) \<and> unread (reader_of buf) = buf"
  by (simp add: reader_ok_def reader_of_def unread_def unat_of_nat)

text \<open>C26: opening a file with the cursor of 64-bit offsets gives exactly the payload of the model that works on lists, or
  throws exactly when that rejects the bytes: the offset never leaves the buffer, and the bytes whose checksum is compared
  are those of the payload.\<close>

theorem cursor_opens_envelope:
  assumes "length buf < 2 ^ 64"
  shows "fst (cursor_envelope (reader_of buf)) = open_envelope buf \<and> rd_p (snd (cursor_envelope (reader_of buf))) = buf \<and>
    unat (rd_off (snd (cursor_envelope (reader_of buf)))) \<le> length buf"
proof -
  note ok = reader_of_ok [OF assms]
  have sim: "map_option (\<lambda>payload. (payload, [])) (open_envelope buf) =
      map_option (\<lambda>x. (x, unread (snd (cursor_envelope (reader_of buf))))) (fst (cursor_envelope (reader_of buf)))"
    using reader_op.result [OF cursor_envelope_op, of "reader_of buf"] ok by simp
  then have same: "fst (cursor_envelope (reader_of buf)) = open_envelope buf"
    by (cases "open_envelope buf"; cases "fst (cursor_envelope (reader_of buf))") simp_all
  have inside: "reader_ok (snd (cursor_envelope (reader_of buf)))" "rd_p (snd (cursor_envelope (reader_of buf))) = rd_p (reader_of buf)"
    using reader_op.stays_inside [OF cursor_envelope_op] ok by blast+
  then have p: "rd_p (snd (cursor_envelope (reader_of buf))) = buf" by (simp add: reader_of_def)
  then show ?thesis using same inside(1) by (simp add: reader_ok_def word_le_nat_alt)
qed

theorem cursor_opens_envelope_witness:
  "fst (cursor_envelope (reader_of (envelope [1, 2, 3]))) = Some [1, 2, 3]"
proof -
  have "length (envelope [1, 2, 3]) < 2 ^ 64" by (simp add: envelope_length [symmetric])
  from cursor_opens_envelope [OF this] show ?thesis by (simp add: envelope_round)
qed

section \<open>Writing and reading back\<close>

lemma seek_reads:
  assumes "reader_ok r" "n \<le> rd_len r"
  shows "seek n r = (Some (), r\<lparr>rd_off := n\<rparr>)" "reader_ok (r\<lparr>rd_off := n\<rparr>)" "unread (r\<lparr>rd_off := n\<rparr>) = drop (unat n) (rd_p r)"
  using assms by (auto simp: seek_def reader_ok_def unread_def)

text \<open>What a writer has written is read back by a cursor over its buffer, also after seeking to where it begins.\<close>

lemma writer_reader_round:
  assumes "str_ok s" "length buf + 8 + length s < 2 ^ 64"
  shows "fst (and_then (seek (of_nat (length buf))) (\<lambda>_. cursor_str) (reader_of (writer_str s buf))) = Some s"
proof -
  let ?r = "reader_of (writer_str s buf)"
  have len: "length (writer_str s buf) = length buf + 8 + length s" by (simp add: writer_appends wr_str_def wr_u64_def le_bytes_def)
  then have ok: "reader_ok ?r" "n \<le> length buf + 8 + length s \<Longrightarrow> unat (of_nat n :: u64) = n" for n
    using assms(2) reader_of_ok [of "writer_str s buf"] by (simp_all add: unat_of_nat)
  have k: "of_nat (length buf) \<le> rd_len ?r" "unat (of_nat (length buf) :: u64) = length buf"
    using ok(2) [of "length buf"] ok(2) [of "length buf + 8 + length s"] by (simp_all add: reader_of_def len word_le_nat_alt)
  note sk = seek_reads [OF ok(1) k(1)]
  have "rd_p ?r = buf @ wr_str s" by (simp add: reader_of_def writer_appends)
  then have "rd_str (unread (?r\<lparr>rd_off := of_nat (length buf)\<rparr>)) = Some (s, [])"
    using sk(3) k(2) c_str.round [OF assms(1), of "[]"] by simp
  from cu_str.reads [OF sk(2) this] show ?thesis using sk(1) by (auto simp: and_then_def)
qed

end
