(* ===== verification/Labels.thy ===== *)
theory Labels
  imports Scenarios
begin

text \<open>
  What \<^verbatim>\<open>include/congestion_fabric/identities.hpp\<close> has beside the identities themselves: their decimal text, their hashes
  for the unordered maps, and the checked arithmetic of its namespace \<^verbatim>\<open>detail\<close>, which is a second copy of the one in
  \<^verbatim>\<open>checked.hpp\<close>. The hash of a 64-bit number is the argument \<open>h\<close>.
\<close>

definition id_str :: "'tag Id \<Rightarrow> string" where
  "id_str x = to_string_nat (unat (idv x))"

definition gen_str :: "'tag Generation \<Rightarrow> string" where
  "gen_str g = to_string_nat (unat (genv g))"

definition id_hash :: "(u64 \<Rightarrow> u64) \<Rightarrow> 'tag Id \<Rightarrow> u64" where
  "id_hash h x = h (idv x)"

definition gen_hash :: "(u64 \<Rightarrow> u64) \<Rightarrow> 'tag Generation \<Rightarrow> u64" where
  "gen_hash h g = h (genv g)"

definition detail_checked_add :: "u64 \<Rightarrow> u64 \<Rightarrow> u64 option" where
  "detail_checked_add a b = (if a > - 1 - b then None else Some (a + b))"

definition detail_checked_sub :: "u64 \<Rightarrow> u64 \<Rightarrow> u64 option" where
  "detail_checked_sub a b = (if b > a then None else Some (a - b))"

text \<open>The text of an identity determines it, and the tools read the number back.\<close>

lemma id_str_read: "strtoull (id_str x @ '' '' @ t) = idv x"
  by (simp only: id_str_def strtoull_number)

lemma gen_str_read: "strtoull (gen_str g @ '' '' @ t) = genv g"
  by (simp only: gen_str_def strtoull_number)

lemma id_str_inj: "id_str x = id_str y \<longleftrightarrow> x = y"
  using id_str_read [of x "[]"] id_str_read [of y "[]"] by (metis Id.expand)

lemma gen_str_inj: "gen_str x = gen_str y \<longleftrightarrow> x = y"
  using gen_str_read [of x "[]"] gen_str_read [of y "[]"] by (metis Generation.expand)

lemma hash_inj: "inj h \<Longrightarrow> inj (id_hash h)" "inj h \<Longrightarrow> inj (gen_hash h)"
  unfolding inj_def id_hash_def gen_hash_def by (blast intro: Id.expand Generation.expand)+

lemma detail_copies: "detail_checked_add = checked_add" "detail_checked_sub = checked_sub"
  by (auto simp: fun_eq_iff detail_checked_add_def checked_add_def detail_checked_sub_def checked_sub_def)

end
