(* ===== verification/Inspect.thy ===== *)
theory Inspect
  imports Opening Overload Durability
begin

text \<open>
  The inspection tool \<^verbatim>\<open>tools/cfcli.cpp\<close>: what it writes to standard output and its exit code, for a saved
  state or for its demo engine. A \<^verbatim>\<open>printf\<close> with \<^verbatim>\<open>%.2f\<close> prints the exact value rounded half to even;
  \<^verbatim>\<open>%s\<close> stops at a zero byte. \<open>get\<close> reads a file.
\<close>

section \<open>Formatting\<close>

definition format_fixed :: "nat \<Rightarrow> double \<Rightarrow> string" where
  "format_fixed k x = (if dneg x then ''-'' else '''') @
    (if isnan x then nan_text x else if isinf x then ''inf''
     else let n = rhe (vmag (dmag x) * 10 ^ k) (2 ^ 1074)
       in to_string_nat (n div 10 ^ k) @ ''.'' @ fixed_digits k (n mod 10 ^ k))"

abbreviation fmt_u64 :: "u64 \<Rightarrow> string" where
  "fmt_u64 x \<equiv> to_string_nat (unat x)"

definition fmt_flag :: "bool \<Rightarrow> string" where
  "fmt_flag b = (if b then ''1'' else ''0'')"

definition c_str :: "string \<Rightarrow> string" where
  "c_str s = takeWhile (\<lambda>c. c \<noteq> CHR 0x00) s"

abbreviation nl :: string where
  "nl \<equiv> [CHR 0x0A]"

definition state_name :: "CongestionState \<Rightarrow> string" where
  "state_name s = (let i = unat (CongestionState_to_u8 s) in
     if i < 13 then [''UNKNOWN'', ''IDLE'', ''HEALTHY'', ''BUSY'', ''APPROACHING_SATURATION'', ''SATURATED'',
       ''QUEUEING'', ''CONGESTED'', ''SEVERELY_CONGESTED'', ''BACKPRESSURED'', ''RECOVERING'',
       ''STALE'', ''REVALIDATION_REQUIRED''] ! i else ''?'')"

definition prov_name :: "MeasurementProvenance \<Rightarrow> string" where
  "prov_name p = (let i = unat (MeasurementProvenance_to_u8 p) in
     if i < 7 then [''MEASURED'', ''REPORTED'', ''DERIVED'', ''ESTIMATED'', ''SYNTHETIC'', ''RECONSTRUCTED'', ''UNKNOWN''] ! i
     else ''?'')"

section \<open>The dump\<close>

definition dump_header :: "CongestionFabric \<Rightarrow> bool \<Rightarrow> string" where
  "dump_header e demo = ''=== Congestion Fabric inspection ==='' @ nl @
     (if demo then ''mode: demo'' else ''mode: loaded state'') @ nl @
     ''epoch='' @ fmt_u64 (genv (cf_epoch e)) @ '' domains='' @ to_string_nat (domain_count e) @
     '' live_flows='' @ fmt_u64 (live_flow_count e) @ nl"

definition dump_title :: "DomainSnapshot \<Rightarrow> string" where
  "dump_title s = nl @ ''[domain '' @ fmt_u64 (idv (ref_id (sn_ref s))) @ '' gen '' @ fmt_u64 (genv (ref_gen (sn_ref s))) @
     '' kind='' @ to_string_nat (unat (DomainKind_to_u8 (sn_kind s))) @ ''] state='' @ state_name (sn_state s) @
     '' ('' @ prov_name (sn_provenance s) @ '')'' @ nl"

definition dump_share :: "FairnessShare \<Rightarrow> string" where
  "dump_share sh = ''  fairness flow='' @ fmt_u64 (idv (fsh_flow sh)) @ '' target='' @ format_fixed 2 (fsh_target_share_bps sh) @
     '' observed='' @ format_fixed 2 (fsh_observed_share_bps sh) @ '' deficit='' @ format_fixed 2 (fsh_fairness_deficit_bps sh) @
     '' starved='' @ fmt_flag (fsh_starved sh) @ nl"

definition dump_episode :: "CongestionEpisode \<Rightarrow> string" where
  "dump_episode ep = ''  episode id='' @ fmt_u64 (idv (ep_event_id ep)) @ '' gen='' @ fmt_u64 (genv (ep_generation ep)) @
     '' peak='' @ state_name (ep_peak_state ep) @ '' start='' @ fmt_u64 (ep_start_ms ep) @ '' end='' @ fmt_u64 (ep_end_ms ep) @
     '' open='' @ fmt_flag (ep_open ep) @ nl"

definition dump_domain :: "CongestionFabric \<Rightarrow> CongestionDomainId \<Rightarrow> string" where
  "dump_domain e k = (let s = snapshot k e; bp = eval_backpressure k e in
     dump_title s @
     ''  offered='' @ format_fixed 2 (sn_offered_bps s) @ '' serviced='' @ format_fixed 2 (sn_serviced_bps s) @
     '' effective='' @ format_fixed 2 (sn_effective_bps s) @ '' residual='' @ format_fixed 2 (sn_residual_bps s) @
     '' utilization='' @ format_fixed 3 (sn_utilization s) @ nl @
     ''  queued_bytes='' @ fmt_u64 (sn_queued_bytes s) @ '' queued_ops='' @ fmt_u64 (sn_queued_ops s) @
     '' in_flight_bytes='' @ fmt_u64 (sn_in_flight_bytes s) @ nl @
     ''  dominant_contributor='' @ fmt_u64 (idv (sn_dominant_contributor s)) @
     '' dominant_class='' @ to_string_nat (unat (TrafficClass_to_u8 (sn_dominant_class s))) @
     '' upstream_bottleneck='' @ fmt_u64 (idv (sn_upstream_bottleneck s)) @ nl @
     ''  '' @ c_str (sn_summary s) @ nl @
     concat (map dump_share (fr_shares (evaluate_fairness k e))) @
     ''  backpressure intent='' @ to_string_nat (unat (ActionIntent_to_u8 (ba_intent bp))) @ '' cause='' @ c_str (ba_cause bp) @ nl @
     concat (map dump_episode (episode_history e k)))"

definition dump :: "CongestionFabric \<Rightarrow> bool \<Rightarrow> string" where
  "dump e demo = dump_header e demo @ concat (map (dump_domain e) (domain_ids e)) @
     nl @ ''(inspection of individual flows uses the engine API; count reported above)'' @ nl"

section \<open>The demo and main\<close>

definition d_100e6 :: double where
  "d_100e6 = 0x4197D78400000000"

definition d_130e6 :: double where
  "d_130e6 = 0x419EFE9200000000"

definition d_60e6 :: double where
  "d_60e6 = 0x418C9C3800000000"

definition demo_capacity :: CapacityProfile where
  "demo_capacity = default_capacity\<lparr>
     theoretical := default_rate\<lparr>rate_bps := d_100e6, rate_kind := BK_THEORETICAL, rate_prov := MP_MEASURED\<rparr>,
     configured := default_rate\<lparr>rate_bps := d_100e6, rate_kind := BK_CONFIGURED, rate_prov := MP_REPORTED\<rparr>\<rparr>"

definition demo_options :: "DomainRef \<Rightarrow> FlowOptions" where
  "demo_options dref = default_options\<lparr>o_owner_worker := Id 1, o_owner_boot := Generation 1, o_source := Id 1,
     o_source_boot := Generation 1, o_domain := dref, o_traffic_class := TC_BULK_TRANSFER, o_submitted_bytes := 52428800\<rparr>"

definition demo_measurement :: "MeasurementKind \<Rightarrow> double \<Rightarrow> Measurement" where
  "demo_measurement kind v = default_measurement\<lparr>m_kind := kind, m_value := v, m_provenance := MP_REPORTED\<rparr>"

text \<open>The result of a publication is not looked at; it is defined for the two kinds the demo publishes.\<close>

definition published :: "CongestionDomainId \<Rightarrow> Measurement \<Rightarrow> CongestionFabric \<Rightarrow> CongestionFabric" where
  "published k m e = (case publish_unowned k m e of None \<Rightarrow> e | Some (_, e1) \<Rightarrow> e1)"

definition demo_engine :: "u64 \<Rightarrow> CongestionFabric" where
  "demo_engine now =
    (case create_domain DK_GPU_HOST_TRANSFER demo_capacity (new_fabric default_limits) of (dref, e) \<Rightarrow>
     let e = snd (register_worker (Id 1) (Generation 1) e);
         e = snd (register_source (Id 1) (Generation 1) e)
     in case declare_flow (demo_options dref) now e of (fl, e) \<Rightarrow>
     let e = snd (admit_flow fl e);
         e = snd (start_flow fl (Generation 1) now e);
         e = published (ref_id dref) (demo_measurement MK_OFFERED_BYTES_PER_SEC d_130e6) e;
         e = published (ref_id dref) (demo_measurement MK_COMPLETED_BYTES_PER_SEC d_60e6) e
     in snd (recompute_domain (ref_id dref) now e))"

fun state_arg :: "string \<Rightarrow> string list \<Rightarrow> string" where
  "state_arg st (a # v # rest) = (if a = ''--state'' then state_arg v rest else state_arg st (v # rest))"
| "state_arg st _ = st"

text \<open>The exit code and the standard output; the arguments without the program name.\<close>

definition cfcli_main :: "(string \<Rightarrow> u8 list option) \<Rightarrow> u64 \<Rightarrow> string list \<Rightarrow> int \<times> string" where
  "cfcli_main get now args = (let state = state_arg [] args in
     if state = [] then (0, dump (demo_engine now) True)
     else case load (get state) (new_fabric default_limits) of (ok, e) \<Rightarrow>
       if \<not> ok then (2, []) else (0, dump e False))"

section \<open>Inspecting a saved state\<close>

lemma revalidation_snapshot:
  assumes "domain_of e k = Some d" "d_state d = CS_REVALIDATION_REQUIRED"
  shows "sn_state (snapshot k e) = CS_REVALIDATION_REQUIRED \<and> sn_provenance (snapshot k e) = MP_UNKNOWN \<and>
    sn_ref (snapshot k e) = d_ref d \<and> sn_kind (snapshot k e) = d_kind d"
  using assms by (simp add: domain_of_def snapshot_def classify_def needs_revalidation_def default_assessment_def Let_def)

lemma dump_contains:
  assumes "domain_of e k = Some d"
  shows "\<exists>pre post. dump e demo = pre @ dump_title (snapshot k e) @ post"
proof -
  have "k \<in> set (domain_ids e)"
    using assms um_find_in_set by (force simp: domain_of_def domain_ids_def)
  then obtain xs ys where "domain_ids e = xs @ k # ys" by (meson split_list)
  then have "dump e demo = (dump_header e demo @ concat (map (dump_domain e) xs)) @ dump_domain e k @
      (concat (map (dump_domain e) ys) @ nl @ ''(inspection of individual flows uses the engine API; count reported above)'' @ nl)"
    by (simp add: dump_def)
  moreover obtain rest where "dump_domain e k = dump_title (snapshot k e) @ rest" unfolding dump_domain_def Let_def by blast
  ultimately show ?thesis by (metis append.assoc)
qed

text \<open>C31: inspecting the saved file of a \<open>storable\<close> state: the tool exits with zero and reports the epoch and the number of domains
  of the engine that was saved, with no live flows whatever the engine had; every domain that had been
  assessed is shown as requiring revalidation, never as healthy. A file that cannot be read or is rejected
  gives exit code two and no report.\<close>

theorem inspect_saved_state:
  assumes "path \<noteq> []" "storable e"
  shows "(get path = Some (save_file e) \<longrightarrow> (\<exists>out rest. cfcli_main get now [''--state'', path] = (0, out) \<and>
      out = ''=== Congestion Fabric inspection ==='' @ nl @ ''mode: loaded state'' @ nl @ ''epoch='' @ fmt_u64 (genv (cf_epoch e)) @
        '' domains='' @ to_string_nat (domain_count e) @ '' live_flows=0'' @ nl @ rest \<and>
      (\<forall>k d. domain_of e k = Some d \<and> d_state d \<noteq> CS_UNKNOWN \<longrightarrow>
         (\<exists>pre post. out = pre @ ''[domain '' @ fmt_u64 (idv (ref_id (d_ref d))) @ '' gen '' @ fmt_u64 (genv (ref_gen (d_ref d))) @
            '' kind='' @ to_string_nat (unat (DomainKind_to_u8 (d_kind d))) @ ''] state=REVALIDATION_REQUIRED (UNKNOWN)'' @ post)))) \<and>
    ((case get path of None \<Rightarrow> True | Some bs \<Rightarrow> parse_file bs = None) \<longrightarrow> cfcli_main get now [''--state'', path] = (2, []))"
proof (intro conjI impI)
  assume "get path = Some (save_file e)"
  then have load: "load (get path) (new_fabric default_limits) = (True, commit_load (durable_of e) (new_fabric default_limits))"
    using parse_save [OF assms(2)] by (simp add: load_def)
  let ?e = "commit_load (durable_of e) (new_fabric default_limits)" and ?out = "dump (commit_load (durable_of e) (new_fabric default_limits)) False"
  have main: "cfcli_main get now [''--state'', path] = (0, ?out)" using load assms(1) by (simp add: cfcli_main_def)
  have head: "cf_epoch ?e = cf_epoch e" "domain_count ?e = domain_count e" "live_flow_count ?e = 0"
    by (simp_all add: commit_load_def durable_of_def domain_count_def um_map_def live_flow_count_def new_fabric_def)
  have zero: "to_string_nat 0 = ''0''" by (simp add: to_string_nat.simps [of 0] digit_char_def char_of_def bit_0)
  obtain rest where "?out = ''=== Congestion Fabric inspection ==='' @ nl @ ''mode: loaded state'' @ nl @ ''epoch='' @ fmt_u64 (genv (cf_epoch e)) @
        '' domains='' @ to_string_nat (domain_count e) @ '' live_flows=0'' @ nl @ rest"
    by (simp add: dump_def dump_header_def head zero)
  moreover have "\<exists>pre post. ?out = pre @ ''[domain '' @ fmt_u64 (idv (ref_id (d_ref d))) @ '' gen '' @ fmt_u64 (genv (ref_gen (d_ref d))) @
            '' kind='' @ to_string_nat (unat (DomainKind_to_u8 (d_kind d))) @ ''] state=REVALIDATION_REQUIRED (UNKNOWN)'' @ post"
    if "domain_of e k = Some d" "d_state d \<noteq> CS_UNKNOWN" for k d
  proof -
    let ?d = "recover_domain (durable_domain d)"
    have d: "domain_of ?e k = Some ?d" "d_state ?d = CS_REVALIDATION_REQUIRED" "d_ref ?d = d_ref d" "d_kind ?d = d_kind d"
      using that by (simp_all add: domain_of_def commit_load_def durable_of_def recover_domain_def durable_domain_def)
    have "dump_title (snapshot k ?e) = nl @ ''[domain '' @ fmt_u64 (idv (ref_id (d_ref d))) @ '' gen '' @ fmt_u64 (genv (ref_gen (d_ref d))) @
        '' kind='' @ to_string_nat (unat (DomainKind_to_u8 (d_kind d))) @ ''] state=REVALIDATION_REQUIRED (UNKNOWN)'' @ nl"
      using revalidation_snapshot [OF d(1,2)] d(3,4) by (simp add: dump_title_def state_name_def prov_name_def)
    then show ?thesis using dump_contains [OF d(1), of False] by (metis append.assoc)
  qed
  ultimately show "\<exists>out rest. cfcli_main get now [''--state'', path] = (0, out) \<and>
      out = ''=== Congestion Fabric inspection ==='' @ nl @ ''mode: loaded state'' @ nl @ ''epoch='' @ fmt_u64 (genv (cf_epoch e)) @
        '' domains='' @ to_string_nat (domain_count e) @ '' live_flows=0'' @ nl @ rest \<and>
      (\<forall>k d. domain_of e k = Some d \<and> d_state d \<noteq> CS_UNKNOWN \<longrightarrow>
         (\<exists>pre post. out = pre @ ''[domain '' @ fmt_u64 (idv (ref_id (d_ref d))) @ '' gen '' @ fmt_u64 (genv (ref_gen (d_ref d))) @
            '' kind='' @ to_string_nat (unat (DomainKind_to_u8 (d_kind d))) @ ''] state=REVALIDATION_REQUIRED (UNKNOWN)'' @ post))"
    using main by blast
next
  assume "case get path of None \<Rightarrow> True | Some bs \<Rightarrow> parse_file bs = None"
  then show "cfcli_main get now [''--state'', path] = (2, [])"
    using assms(1) by (auto simp: cfcli_main_def load_def split: option.splits)
qed

section \<open>The demo\<close>

lemmas rate_values = d_100e6_def d_130e6_def d_60e6_def

lemma demo_capacity_facts: "capacity_valid demo_capacity" "effective demo_capacity = Some d_100e6"
  by (simp_all add: demo_capacity_def capacity_eval rate_values)

definition demo_domain :: CongestionDomain where
  "demo_domain = snd (hd (cf_domains (snd (create_domain DK_GPU_HOST_TRANSFER demo_capacity (new_fabric default_limits)))))"

lemma demo_created:
  "create_domain DK_GPU_HOST_TRANSFER demo_capacity (new_fabric default_limits) = (EntityRef (Id 1) (Generation 1),
     (new_fabric default_limits)\<lparr>cf_next_domain := 2, cf_domains := [(Id 1, demo_domain)]\<rparr>)"
  "d_capacity demo_domain = demo_capacity" "d_flows demo_domain = []" "d_state demo_domain = CS_UNKNOWN"
  "length (d_measurements demo_domain) = 20"
  by (simp_all add: demo_domain_def create_domain_def new_fabric_def default_limits_def demo_capacity_facts um_emplace_def um_find_def Let_def
      default_domain_def empty_measurements_def)

definition demo_started :: "u64 \<Rightarrow> CongestionFabric" where
  "demo_started now = (let e = snd (create_domain DK_GPU_HOST_TRANSFER demo_capacity (new_fabric default_limits));
     e = snd (register_source (Id 1) (Generation 1) (snd (register_worker (Id 1) (Generation 1) e)));
     e = snd (admit_flow (flow_ref 1 1) (snd (declare_flow (demo_options (EntityRef (Id 1) (Generation 1))) now e)))
     in snd (start_flow (flow_ref 1 1) (Generation 1) now e))"

lemma demo_started_eval:
  "cf_domains (demo_started now) = [(Id 1, demo_domain\<lparr>d_flows := [flow_ref 1 1]\<rparr>)]"
  "cf_flows (demo_started now) = [(Id 1, opened_with (demo_options (EntityRef (Id 1) (Generation 1))) now now 1)]"
  "demo_engine now = snd (recompute_domain (Id 1) now (published (Id 1) (demo_measurement MK_COMPLETED_BYTES_PER_SEC d_60e6)
     (published (Id 1) (demo_measurement MK_OFFERED_BYTES_PER_SEC d_130e6) (demo_started now))))"
proof -
  let ?opts = "demo_options (EntityRef (Id 1) (Generation 1))"
  define e where "e = snd (register_source (Id 1) (Generation 1) (snd (register_worker (Id 1) (Generation 1)
    (snd (create_domain DK_GPU_HOST_TRANSFER demo_capacity (new_fabric default_limits))))))"
  have e: "e = (new_fabric default_limits)\<lparr>cf_next_domain := 2, cf_domains := [(Id 1, demo_domain)],
      cf_worker_boot := [(Id 1, Generation 1)], cf_source_boot := [(Id 1, Generation 1)]\<rparr>"
    unfolding e_def demo_created(1)
    by (simp add: register_worker_def register_source_def new_fabric_def id_valid_def gen_valid_def um_find_def um_assign_def)
  have "declare_allowed ?opts e" "next_flow_free e" "domain_of e (ref_id (o_domain ?opts)) = Some demo_domain" "1 = cf_next_flow e"
    by (simp_all add: e declare_allowed_def demo_options_def default_options_def new_fabric_def default_limits_def id_valid_def gen_valid_def
        um_find_def next_flow_free_def domain_of_def)
  from engine_opens_flow [OF this, of now now] obtain e1 e2 e3 where s: "declare_flow ?opts now e = (flow_ref 1 1, e1)"
      "admit_flow (flow_ref 1 1) e1 = (True, e2)" "start_flow (flow_ref 1 1) (o_owner_boot ?opts) now e2 = (True, e3)"
      "cf_flows e3 = cf_flows e @ [(Id 1, opened_with ?opts now now 1)]"
      "cf_domains e3 = um_assign (cf_domains e) (ref_id (o_domain ?opts)) (clear_revalidation (demo_domain\<lparr>d_flows := d_flows demo_domain @ [flow_ref 1 1]\<rparr>))"
    by auto
  have "o_owner_boot ?opts = Generation 1" by (simp add: demo_options_def)
  then have "demo_started now = e3" using s(1-3) by (simp add: demo_started_def Let_def flip: e_def)
  moreover have "demo_engine now = snd (recompute_domain (Id 1) now (published (Id 1) (demo_measurement MK_COMPLETED_BYTES_PER_SEC d_60e6)
     (published (Id 1) (demo_measurement MK_OFFERED_BYTES_PER_SEC d_130e6) e3)))"
    using s(1-3) \<open>o_owner_boot ?opts = Generation 1\<close>
    by (simp add: demo_engine_def demo_created(1) Let_def flip: e_def [unfolded demo_created(1), simplified])
  ultimately show "cf_domains (demo_started now) = [(Id 1, demo_domain\<lparr>d_flows := [flow_ref 1 1]\<rparr>)]"
    "cf_flows (demo_started now) = [(Id 1, opened_with ?opts now now 1)]"
    "demo_engine now = snd (recompute_domain (Id 1) now (published (Id 1) (demo_measurement MK_COMPLETED_BYTES_PER_SEC d_60e6)
     (published (Id 1) (demo_measurement MK_OFFERED_BYTES_PER_SEC d_130e6) (demo_started now))))"
    using s(4,5) by (simp_all add: e new_fabric_def um_assign_def clear_revalidation_def demo_created demo_options_def)
qed

lemma published_rate:
  assumes "um_find (cf_domains e) k = Some d" "length (d_measurements d) = 20" "d_state d = CS_UNKNOWN" "isfinite v"
    and "kind = MK_OFFERED_BYTES_PER_SEC \<or> kind = MK_COMPLETED_BYTES_PER_SEC"
  shows "\<exists>ms. length ms = 20 \<and> published k (demo_measurement kind v) e =
    set_domain e k (record_rate (demo_measurement kind v) (Id 0) (Generation 0) (d\<lparr>d_measurements := ms\<rparr>))"
proof -
  have v: "measurement_valid (demo_measurement kind v)" "m_kind (demo_measurement kind v) = kind"
    using assms(4) by (simp_all add: demo_measurement_def measurement_valid_def default_measurement_def dle_def dkey_d_one)
  obtain ms where "publish_measurement k (demo_measurement kind v) (Id 0) (Generation 0) e = Some (True, set_domain e k
      (record_rate (demo_measurement kind v) (Id 0) (Generation 0) ((clear_revalidation d)\<lparr>d_measurements := ms\<rparr>)))" "length ms = 20"
    using publish_accepted [OF assms(1) v(1) _ _ assms(2), of "Id 0" "Generation 0"] assms(5) v(2)
    by (auto simp: id_valid_def MeasurementKind_named_def MeasurementKind_enum_def)
  then show ?thesis using assms(3) by (auto simp: published_def publish_unowned_def clear_revalidation_def)
qed

lemma demo_rates:
  "\<exists>d. demo_engine now = snd (recompute_domain (Id 1) now (set_domain (demo_started now) (Id 1) d)) \<and>
     d_capacity d = demo_capacity \<and> d_offered_bps d = d_130e6 \<and> d_serviced_bps d = d_60e6 \<and> d_state d = CS_UNKNOWN \<and>
     d_flows d = [flow_ref 1 1] \<and> d_offered_provenance d = MP_REPORTED \<and> d_serviced_provenance d = MP_REPORTED \<and>
     d_ref d = d_ref demo_domain"
proof -
  let ?o = "demo_measurement MK_OFFERED_BYTES_PER_SEC d_130e6" and ?s = "demo_measurement MK_COMPLETED_BYTES_PER_SEC d_60e6"
  have fin: "isfinite d_130e6" "isfinite d_60e6" by (simp_all add: rate_values double_eval)
  let ?d0 = "demo_domain\<lparr>d_flows := [flow_ref 1 1]\<rparr>"
  have "um_find (cf_domains (demo_started now)) (Id 1) = Some ?d0" by (simp add: demo_started_eval um_find_def)
  from published_rate [OF this _ _ fin(1), of MK_OFFERED_BYTES_PER_SEC] obtain ms where ms: "length ms = 20"
      "published (Id 1) ?o (demo_started now) = set_domain (demo_started now) (Id 1) (record_rate ?o (Id 0) (Generation 0) (?d0\<lparr>d_measurements := ms\<rparr>))"
    using demo_created by auto
  let ?d1 = "record_rate ?o (Id 0) (Generation 0) (?d0\<lparr>d_measurements := ms\<rparr>)"
  have d1: "length (d_measurements ?d1) = 20" "d_state ?d1 = CS_UNKNOWN" "d_capacity ?d1 = demo_capacity" "d_offered_bps ?d1 = d_130e6"
      "d_flows ?d1 = [flow_ref 1 1]" "d_offered_provenance ?d1 = MP_REPORTED" "d_ref ?d1 = d_ref demo_domain"
    using ms(1) demo_created by (simp_all add: record_rate_def demo_measurement_def)
  let ?e = "set_domain (demo_started now) (Id 1) ?d1"
  have "um_find (cf_domains ?e) (Id 1) = Some ?d1" by simp
  from published_rate [OF this d1(1,2) fin(2), of MK_COMPLETED_BYTES_PER_SEC] obtain ms2 where
      "published (Id 1) ?s ?e = set_domain ?e (Id 1) (record_rate ?s (Id 0) (Generation 0) (?d1\<lparr>d_measurements := ms2\<rparr>))" by auto
  then have "demo_engine now = snd (recompute_domain (Id 1) now (set_domain (demo_started now) (Id 1)
      (record_rate ?s (Id 0) (Generation 0) (?d1\<lparr>d_measurements := ms2\<rparr>))))"
    by (simp add: demo_started_eval(3) ms(2) um_assign_twice)
  moreover have kind: "m_kind ?s = MK_COMPLETED_BYTES_PER_SEC" "m_value ?s = d_60e6" "m_provenance ?s = MP_REPORTED" by (simp_all add: demo_measurement_def)
  ultimately show ?thesis
    using d1(2-) by (intro exI [of _ "record_rate ?s (Id 0) (Generation 0) (?d1\<lparr>d_measurements := ms2\<rparr>)"]) (simp add: record_rate_def [of ?s] kind)
qed

lemma demo_no_backlog: "d_flows d = [flow_ref 1 1] \<Longrightarrow> ag_queued_bytes (aggregate_domain d (cf_flows (demo_started now))) = 0"
  by (simp add: aggregate_domain_def demo_started_eval resolve_def find_flow_def um_find_def flow_ref_def List.map_filter_simps
      opened_with_def flow_of_options_def aggregate_flow_def default_aggregate_def flow_state_preds Let_def)

text \<open>Without a state file the tool shows the congestion its demo sets up: it exits with zero and reports the
  demo domain, offered 130 against a capacity of 100, as saturated from reported rates, with the
  recommendation to limit admission.\<close>

theorem demo_reports_overload:
  "\<exists>pre post. cfcli_main get now [] = (0, pre @ ''state=SATURATED (REPORTED)'' @ post) \<and>
     ba_intent (eval_backpressure (Id 1) (demo_engine now)) = AI_ADMIT_LIMITED"
proof -
  obtain d where d: "demo_engine now = snd (recompute_domain (Id 1) now (set_domain (demo_started now) (Id 1) d))"
      "d_capacity d = demo_capacity" "d_offered_bps d = d_130e6" "d_serviced_bps d = d_60e6" "d_state d = CS_UNKNOWN"
      "d_flows d = [flow_ref 1 1]" "d_offered_provenance d = MP_REPORTED" "d_serviced_provenance d = MP_REPORTED"
    using demo_rates by blast
  let ?e = "set_domain (demo_started now) (Id 1) d"
  have rates: "dlt 0 d_100e6" "isfinite d_130e6" "isfinite d_60e6" "dlt d_100e6 d_130e6" "dlt d_60e6 d_130e6" "\<not> dle d_130e6 0"
    by (simp_all add: rate_values double_eval)
  note sat = saturated_iff [OF _ rates(1), unfolded needs_revalidation_def]
  obtain d1 where d1: "domain_of (demo_engine now) (Id 1) = Some d1" "d_state d1 = as_state (assess_domain d (cf_flows ?e))"
      "d_offered_bps d1 = d_130e6" "d_serviced_bps d1 = d_60e6" "d_flows d1 = [flow_ref 1 1]" "d_capacity d1 = demo_capacity"
      "d_offered_provenance d1 = MP_REPORTED" "d_serviced_provenance d1 = MP_REPORTED"
    using recompute_fields [of ?e "Id 1" d now] d by (auto simp: domain_of_def)
  have st: "d_state d1 = CS_SATURATED"
    using d1(2) sat [of d "cf_flows (demo_started now)"] d demo_capacity_facts(2) rates demo_no_backlog [OF d(6), of now] by simp
  have flows: "cf_flows (demo_engine now) = cf_flows (demo_started now)" using d(1) by (simp add: recompute_flows)
  have a: "as_state (assess_domain d1 (cf_flows (demo_engine now))) = CS_SATURATED"
    using sat [of d1 "cf_flows (demo_started now)"] d1 demo_capacity_facts(2) rates demo_no_backlog [OF d1(5), of now] st flows by simp
  have "as_provenance (assess_domain d1 (cf_flows (demo_engine now))) = MP_REPORTED"
    using d1 st rates(6) demo_capacity_facts(2)
    by (simp add: assess_domain_def classify_def needs_revalidation_def no_traffic_def classify_live_def merged_provenance_def Let_def)
  with a have "sn_state (snapshot (Id 1) (demo_engine now)) = CS_SATURATED" "sn_provenance (snapshot (Id 1) (demo_engine now)) = MP_REPORTED"
    using d1(1) by (simp_all add: snapshot_def domain_of_def assess_domain_def Let_def)
  then have "dump_title (snapshot (Id 1) (demo_engine now)) = (nl @ ''[domain '' @ fmt_u64 (idv (ref_id (sn_ref (snapshot (Id 1) (demo_engine now))))) @
      '' gen '' @ fmt_u64 (genv (ref_gen (sn_ref (snapshot (Id 1) (demo_engine now))))) @
      '' kind='' @ to_string_nat (unat (DomainKind_to_u8 (sn_kind (snapshot (Id 1) (demo_engine now))))) @ ''] '') @ ''state=SATURATED (REPORTED)'' @ nl"
    by (simp add: dump_title_def state_name_def prov_name_def)
  then obtain t where t: "dump_title (snapshot (Id 1) (demo_engine now)) = t @ ''state=SATURATED (REPORTED)'' @ nl" by blast
  obtain pre post where "dump (demo_engine now) True = pre @ dump_title (snapshot (Id 1) (demo_engine now)) @ post"
    using dump_contains [OF d1(1), of True] by blast
  then have "cfcli_main get now [] = (0, (pre @ t) @ ''state=SATURATED (REPORTED)'' @ (nl @ post))" unfolding t by (simp add: cfcli_main_def)
  moreover have "ba_intent (eval_backpressure (Id 1) (demo_engine now)) = AI_ADMIT_LIMITED"
    using d1 st dsub_pos_iff [OF rates(2,3)] rates(5) by (auto simp: eval_backpressure_def domain_of_def Let_def dle_def dlt_def)
  ultimately show ?thesis by blast
qed

section \<open>Witness\<close>

theorem inspect_saved_state_witness:
  "\<exists>rest. cfcli_main [''state'' \<mapsto> save_file sample_active] 9 [''--state'', ''state''] =
     (0, ''=== Congestion Fabric inspection ==='' @ nl @ ''mode: loaded state'' @ nl @ ''epoch=1 domains=1 live_flows=0'' @ nl @ rest)"
proof -
  have "genv (cf_epoch sample_active) = 1" "domain_count sample_active = 1"
    by (simp_all add: domain_count_def sample_active_eval sample_declared_eval sample_engine_eval new_fabric_def)
  moreover have "to_string_nat 1 = ''1''" by (simp add: to_string_nat.simps [of "Suc 0"] digit_char_def char_of_def bit_0)
  ultimately show ?thesis
    using inspect_saved_state [of "''state''" sample_active "[''state'' \<mapsto> save_file sample_active]" 9] sample_active_storable by auto
qed

end
