(* ===== verification/Example.thy ===== *)
theory Example
  imports Inspect Retention
begin

text \<open>
  The example program \<^verbatim>\<open>examples/basic.cpp\<close>, which uses the engine in one process: its helpers, the
  sections of its \<^verbatim>\<open>main\<close>, and the lines they print. The readings of the clock within a section are the sequence
  \<open>now\<close>; the file system is the arguments \<open>put\<close>, \<open>get\<close> and \<open>del\<close>. The theorem is its whole output.
\<close>

section \<open>Helpers of the program\<close>

definition example_capacity :: "double \<Rightarrow> CapacityProfile" where
  "example_capacity c = default_capacity\<lparr>
     theoretical := default_rate\<lparr>rate_bps := c, rate_kind := BK_THEORETICAL, rate_prov := MP_MEASURED\<rparr>,
     configured := default_rate\<lparr>rate_bps := c, rate_kind := BK_CONFIGURED, rate_prov := MP_REPORTED\<rparr>\<rparr>"

definition enrol :: "u64 \<Rightarrow> CongestionFabric \<Rightarrow> CongestionFabric" where
  "enrol w e = snd (register_source (Id w) (Generation 1) (snd (register_worker (Id w) (Generation 1) e)))"

definition make_engine :: "double \<Rightarrow> CongestionDomainId \<times> CongestionFabric" where
  "make_engine capacity = (case create_domain DK_NETWORK_PATH (example_capacity capacity) (new_fabric default_limits) of (dref, e) \<Rightarrow>
     (ref_id dref, enrol 1 e))"

definition flow_options :: "CongestionDomainId \<Rightarrow> u64 \<Rightarrow> u64 \<Rightarrow> TrafficClass \<Rightarrow> u64 \<Rightarrow> FlowOptions" where
  "flow_options k w boot tc bytes = default_options\<lparr>o_owner_worker := Id w, o_owner_boot := Generation boot, o_source := Id w,
     o_source_boot := Generation boot, o_domain := EntityRef k (Generation 1), o_traffic_class := tc,
     o_submitted_bytes := bytes, o_expected_bytes := bytes\<rparr>"

definition addFlow :: "CongestionDomainId \<Rightarrow> u64 \<Rightarrow> u64 \<Rightarrow> TrafficClass \<Rightarrow> u64 \<Rightarrow> u64 \<Rightarrow> u64 \<Rightarrow> CongestionFabric
    \<Rightarrow> FlowRef \<times> CongestionFabric" where
  "addFlow k w boot tc bytes t0 t1 e = (case declare_flow (flow_options k w boot tc bytes) t0 e of (fl, e) \<Rightarrow>
     (fl, snd (start_flow fl (Generation boot) t1 (snd (admit_flow fl e)))))"

definition publish :: "CongestionDomainId \<Rightarrow> double \<Rightarrow> double \<Rightarrow> CongestionFabric \<Rightarrow> CongestionFabric" where
  "publish k offered serviced e = published k (demo_measurement MK_COMPLETED_BYTES_PER_SEC serviced)
     (published k (demo_measurement MK_OFFERED_BYTES_PER_SEC offered) e)"

abbreviation show_state :: "CongestionState \<Rightarrow> string" where
  "show_state s \<equiv> to_string_nat (unat (CongestionState_to_u8 s))"

section \<open>The sections of main\<close>

definition d_90e6 :: double where "d_90e6 = 0x4195752A00000000"
definition d_140e6 :: double where "d_140e6 = 0x41A0B07600000000"
definition d_50e6 :: double where "d_50e6 = 0x4187D78400000000"
definition d_160e6 :: double where "d_160e6 = 0x41A312D000000000"
definition d_120e6 :: double where "d_120e6 = 0x419C9C3800000000"
definition d_25e6 :: double where "d_25e6 = 0x4177D78400000000"
definition d_20e6 :: double where "d_20e6 = 0x417312D000000000"
definition d_12e6 :: double where "d_12e6 = 0x4166E36000000000"

definition healthy_vs_congested :: "(nat \<Rightarrow> u64) \<Rightarrow> string" where
  "healthy_vs_congested now =
    (case make_engine d_100e6 of (k, e) \<Rightarrow>
     let e = snd (addFlow k 1 1 TC_THROUGHPUT 0xA00000 (now 0) (now 1) e);
         (a, e) = recompute_domain k (now 2) (publish k d_90e6 d_90e6 e);
         (a2, e) = recompute_domain k (now 3) (publish k d_140e6 d_50e6 e)
     in ''HEALTHY_HIGH_UTIL: offered=90% serviced=90% -> state='' @ show_state (as_state a) @ '' (healthy if no queue)'' @ nl @
        ''REAL_CONGESTION: offered=140% serviced=50% -> state='' @ show_state (as_state a2) @ nl)"

definition competing_flows :: "(nat \<Rightarrow> u64) \<Rightarrow> string" where
  "competing_flows now =
    (case make_engine d_100e6 of (k, e) \<Rightarrow>
     let e = enrol 2 e;
         e = snd (addFlow k 1 1 TC_BULK_TRANSFER 0x1400000 (now 0) (now 1) e);
         e = snd (addFlow k 2 1 TC_LATENCY_CRITICAL 0x1400000 (now 2) (now 3) e);
         (a, e) = recompute_domain k (now 4) (publish k d_160e6 d_60e6 e)
     in ''COMPETING_FLOWS: state='' @ show_state (as_state a) @
        '' fair_share='' @ to_string_nat (length (fr_shares (evaluate_fairness k e))) @
        '' backpressure='' @ to_string_nat (unat (ActionIntent_to_u8 (ba_intent (eval_backpressure k e)))) @
        '' dominant='' @ fmt_u64 (idv (sn_dominant_contributor (snapshot k e))) @ nl)"

definition cancellation :: "(nat \<Rightarrow> u64) \<Rightarrow> string" where
  "cancellation now =
    (case make_engine d_100e6 of (k, e) \<Rightarrow>
     case addFlow k 1 1 TC_CHECKPOINT 1000 (now 0) (now 1) e of (fl, e) \<Rightarrow>
     let e = snd (flow_progress fl (Generation 1) 400 (now 2) e);
         e = snd (flow_cancel fl (Generation 1) 600 (now 3) e)
     in case flow_of e (ref_id fl) of None \<Rightarrow> []
      | Some f \<Rightarrow> ''CANCEL: completed='' @ fmt_u64 (bc_value (completed_bytes f)) @ '' cancelled='' @ fmt_u64 (bc_value (cancelled_bytes f)) @
          '' admitted='' @ fmt_u64 (bc_value (admitted_bytes f)) @ '' state='' @ to_string_nat (unat (FlowState_to_u8 (fl_state f))) @ nl)"

definition overcommitted :: CapacityProfile where
  "overcommitted = default_capacity\<lparr>
     theoretical := default_rate\<lparr>rate_bps := d_50e6, rate_kind := BK_THEORETICAL, rate_prov := MP_REPORTED\<rparr>,
     reserved := default_rate\<lparr>rate_bps := d_60e6, rate_kind := BK_RESERVED, rate_prov := MP_REPORTED\<rparr>\<rparr>"

definition capacity_shrink :: "(nat \<Rightarrow> u64) \<Rightarrow> string" where
  "capacity_shrink now =
    (case make_engine d_100e6 of (k, e) \<Rightarrow>
     let e = snd (addFlow k 1 1 TC_BULK_TRANSFER 0x5000000 (now 0) (now 1) e);
         (a, e) = recompute_domain k (now 2) (publish k d_120e6 d_60e6 e)
     in ''CAPACITY_SHRINK: state_on_initial='' @ show_state (as_state a) @ '', reservation-exceeding-capacity valid='' @
        fmt_flag (id_valid (ref_id (fst (create_domain DK_NETWORK_PATH overcommitted e)))) @ nl)"

text \<open>The flow is looked up before the rejected progress, but the pointer is read when the line is printed.\<close>

definition worker_death :: "(nat \<Rightarrow> u64) \<Rightarrow> string" where
  "worker_death now =
    (case make_engine d_100e6 of (k, e) \<Rightarrow>
     case addFlow k 1 1 TC_RECOVERY 1000 (now 0) (now 1) e of (fl, e) \<Rightarrow>
     let e = snd (flow_progress fl (Generation 1) 300 (now 2) e);
         (fenced, e) = fence_worker (Id 1) (Generation 1) e;
         (progressed, e) = flow_progress fl (Generation 1) 100 (now 3) e;
         f = flow_of e (ref_id fl);
         staleRejected = (\<not> progressed)
     in ''WORKER_DEATH: fenced='' @ fmt_flag fenced @ '' flow_state='' @
        (case f of Some f \<Rightarrow> to_string_nat (unat (FlowState_to_u8 (fl_state f))) | None \<Rightarrow> ''-1'') @
        '' stale_progress_rejected='' @ fmt_flag staleRejected @ nl)"

definition example_path :: string where
  "example_path = ''example_state.bin''"

definition persistence :: "(string \<Rightarrow> u8 list \<Rightarrow> 'd \<Rightarrow> bool \<times> 'd) \<Rightarrow> (string \<Rightarrow> 'd \<Rightarrow> u8 list option) \<Rightarrow> (string \<Rightarrow> 'd \<Rightarrow> 'd)
    \<Rightarrow> (nat \<Rightarrow> u64) \<Rightarrow> 'd \<Rightarrow> string \<times> 'd" where
  "persistence put get del now disk =
    (case make_engine d_100e6 of (k, e) \<Rightarrow>
     let e = snd (addFlow k 1 1 TC_MODEL_LOAD 2000 (now 0) (now 1) e)
     in case put example_path (save_file e) disk of (saved, disk) \<Rightarrow>
       (if saved
        then let (loaded, e2) = load (get example_path disk) (new_fabric default_limits); _ = recover_dynamic_evidence e2
          in ''PERSISTENCE: saved+loaded='' @ fmt_flag loaded @ ''; dynamic evidence revalidated after recovery'' @ nl
        else [], del example_path disk))"

definition collective :: "(nat \<Rightarrow> u64) \<Rightarrow> string" where
  "collective now =
    (case create_domain DK_COLLECTIVE_PATH (default_capacity\<lparr>theoretical := default_rate\<lparr>rate_bps := d_25e6,
         rate_kind := BK_THEORETICAL, rate_prov := MP_SYNTHETIC\<rparr>\<rparr>) (new_fabric default_limits) of (dref, e) \<Rightarrow>
     let e = enrol 1 e;
         e = snd (addFlow (ref_id dref) 1 1 TC_COLLECTIVE 0x1E00000 (now 0) (now 1) e);
         (a, e) = recompute_domain (ref_id dref) (now 2) (publish (ref_id dref) d_20e6 d_12e6 e)
     in ''SYNTHETIC_COLLECTIVE: state='' @ show_state (as_state a) @ '' (synthetic; no physical multi-GPU)'' @ nl)"

text \<open>The exit code, the standard output and the disk; section \<open>i\<close> reads the clock \<open>now i\<close>.\<close>

definition example_main :: "(string \<Rightarrow> u8 list \<Rightarrow> 'd \<Rightarrow> bool \<times> 'd) \<Rightarrow> (string \<Rightarrow> 'd \<Rightarrow> u8 list option) \<Rightarrow> (string \<Rightarrow> 'd \<Rightarrow> 'd)
    \<Rightarrow> (nat \<Rightarrow> nat \<Rightarrow> u64) \<Rightarrow> 'd \<Rightarrow> (int \<times> string) \<times> 'd" where
  "example_main put get del now disk = (case persistence put get del (now 5) disk of (p, disk) \<Rightarrow>
     ((0, healthy_vs_congested (now 0) @ competing_flows (now 1) @ cancellation (now 2) @ capacity_shrink (now 3) @
          worker_death (now 4) @ p @ collective (now 6) @ ''example done'' @ nl), disk))"

section \<open>An engine in use\<close>

text \<open>Domain 1 has current evidence and no flow is queued.\<close>

definition in_use :: "CongestionFabric \<Rightarrow> CongestionDomain \<Rightarrow> bool" where
  "in_use e d \<longleftrightarrow> domain_of e (Id 1) = Some d \<and> length (d_measurements d) = 20 \<and> \<not> needs_revalidation d \<and>
     list_all (\<lambda>(k, f). fl_state f \<noteq> FS_QUEUED) (cf_flows e)"

lemma nothing_queued:
  assumes "list_all (\<lambda>(k, f). fl_state f \<noteq> FS_QUEUED) fm"
  shows "ag_queued_bytes (aggregate_domain d fm) = 0"
proof -
  have "fl_state f \<noteq> FS_QUEUED" if "find_flow fm r = Some f" for r f
    using assms um_find_in_set [of fm "ref_id r" f] find_flow_SomeD [OF that] by (auto simp: list_all_iff)
  then have "\<forall>f\<in>set (resolve fm rs). fl_state f \<noteq> FS_QUEUED" for rs
    by (auto simp: resolve_def List.map_filter_def)
  moreover have "ag_queued_bytes (fold aggregate_flow fs agg) = ag_queued_bytes agg" if "\<forall>f\<in>set fs. fl_state f \<noteq> FS_QUEUED" for fs agg
    using that by (induction fs arbitrary: agg) (simp_all add: aggregate_flow_def Let_def)
  ultimately show ?thesis by (simp add: aggregate_domain_def default_aggregate_def)
qed

lemma published_current:
  assumes "in_use e d" "measurement_valid m" "m_kind m = MK_OFFERED_BYTES_PER_SEC \<or> m_kind m = MK_COMPLETED_BYTES_PER_SEC"
  obtains ms where "length ms = 20"
    "published (Id 1) m e = set_domain e (Id 1) (record_rate m (Id 0) (Generation 0) (d\<lparr>d_measurements := ms\<rparr>))"
proof -
  have d: "um_find (cf_domains e) (Id 1) = Some d" "length (d_measurements d) = 20" "clear_revalidation d = d"
    using assms(1) by (simp_all add: in_use_def domain_of_def needs_revalidation_def clear_revalidation_def)
  obtain ms where "publish_measurement (Id 1) m (Id 0) (Generation 0) e = Some (True, set_domain e (Id 1)
      (record_rate m (Id 0) (Generation 0) ((clear_revalidation d)\<lparr>d_measurements := ms\<rparr>)))" "length ms = 20"
    using publish_accepted [OF d(1) assms(2) _ _ d(2), of "Id 0" "Generation 0"] assms(3)
    by (auto simp: id_valid_def MeasurementKind_named_def MeasurementKind_enum_def)
  then show thesis using that d(3) by (auto simp: published_def publish_unowned_def)
qed

lemma published_pair:
  assumes "in_use e d" "measurement_valid mo" "m_kind mo = MK_OFFERED_BYTES_PER_SEC" "measurement_valid ms" "m_kind ms = MK_COMPLETED_BYTES_PER_SEC"
  obtains d' where "published (Id 1) ms (published (Id 1) mo e) = set_domain e (Id 1) d'" "in_use (set_domain e (Id 1) d') d'"
    "d_capacity d' = d_capacity d" "d_offered_bps d' = m_value mo" "d_serviced_bps d' = m_value ms" "d_flows d' = d_flows d" "d_ref d' = d_ref d"
proof -
  obtain xs where xs: "length xs = 20" "published (Id 1) mo e =
      set_domain e (Id 1) (record_rate mo (Id 0) (Generation 0) (d\<lparr>d_measurements := xs\<rparr>))"
    using published_current [OF assms(1,2)] assms(3) by blast
  let ?d1 = "record_rate mo (Id 0) (Generation 0) (d\<lparr>d_measurements := xs\<rparr>)"
  have d1: "in_use (set_domain e (Id 1) ?d1) ?d1" "d_capacity ?d1 = d_capacity d" "d_offered_bps ?d1 = m_value mo"
      "d_flows ?d1 = d_flows d" "d_ref ?d1 = d_ref d"
    using assms(1,3) xs(1) by (simp_all add: in_use_def domain_of_def needs_revalidation_def record_rate_def)
  obtain ys where ys: "length ys = 20" "published (Id 1) ms (set_domain e (Id 1) ?d1) =
      set_domain (set_domain e (Id 1) ?d1) (Id 1) (record_rate ms (Id 0) (Generation 0) (?d1\<lparr>d_measurements := ys\<rparr>))"
    using published_current [OF d1(1) assms(4)] assms(5) by blast
  let ?d2 = "record_rate ms (Id 0) (Generation 0) (?d1\<lparr>d_measurements := ys\<rparr>)"
  show thesis
  proof (rule that [of ?d2])
    show "published (Id 1) ms (published (Id 1) mo e) = set_domain e (Id 1) ?d2" using xs(2) ys(2) by (simp add: um_assign_twice)
    show "in_use (set_domain e (Id 1) ?d2) ?d2"
      using d1(1) ys(1) assms(5) by (simp add: in_use_def domain_of_def needs_revalidation_def record_rate_def [of ms])
  qed (use d1 assms(5) in \<open>simp_all add: record_rate_def [of ms]\<close>)
qed

lemma recompute_eval:
  assumes "in_use e d"
  obtains e1 d1 where "recompute_domain (Id 1) now e = (assess_domain d (cf_flows e), e1)" "cf_flows e1 = cf_flows e"
    "domain_of e1 (Id 1) = Some d1" "d_state d1 = as_state (assess_domain d (cf_flows e))" "d_capacity d1 = d_capacity d"
    "d_offered_bps d1 = d_offered_bps d" "d_serviced_bps d1 = d_serviced_bps d" "d_flows d1 = d_flows d"
    "length (d_measurements d1) = 20" "d_ref d1 = d_ref d" "cf_limits e1 = cf_limits e" "length (cf_domains e1) = length (cf_domains e)"
proof -
  have d: "um_find (cf_domains e) (Id 1) = Some d" "length (d_measurements d) = 20" using assms by (simp_all add: in_use_def domain_of_def)
  have len: "length (um_assign (cf_domains e) (Id 1) x) = length (cf_domains e)" for x
    using um_assign_keys [of "cf_domains e" "Id 1" x] d(1) by (metis length_map option.discI)
  define d2 where "d2 = snd (episode_step (cf_limits e) (cf_next_event e) now (as_state (assess_domain d (cf_flows e)))
    (ag_queued_bytes (aggregate_domain d (cf_flows e)))
    (d\<lparr>d_state := as_state (assess_domain d (cf_flows e)), d_state_provenance := as_provenance (assess_domain d (cf_flows e))\<rparr>))"
  have rates: "d_offered_bps d2 = d_offered_bps d" "d_serviced_bps d2 = d_serviced_bps d"
    by (simp_all add: d2_def episode_step_def Let_def)
  show thesis
    using that [of "snd (recompute_domain (Id 1) now e)" d2] d len rates
    by (auto simp: recompute_domain_def domain_of_def Let_def case_prod_beta episode_step_keeps d2_def assess_domain_def)
qed

lemma open_eval:
  assumes "in_use e d" "declare_allowed opts e" "ref_id (o_domain opts) = Id 1" "next_flow_free e" "k = cf_next_flow e"
  obtains e0 e1 d1 where "declare_flow opts t0 e = (flow_ref k 1, e0)"
    "snd (start_flow (flow_ref k 1) (o_owner_boot opts) t1 (snd (admit_flow (flow_ref k 1) e0))) = e1"
    "cf_flows e1 = cf_flows e @ [(Id k, opened_with opts t0 t1 k)]"
    "in_use e1 d1" "d_capacity d1 = d_capacity d" "d_flows d1 = d_flows d @ [flow_ref k 1]"
    "cf_worker_boot e1 = cf_worker_boot e" "cf_source_boot e1 = cf_source_boot e" "cf_limits e1 = cf_limits e"
    "cf_next_flow e1 = k + 1" "cf_active_flows e1 = cf_active_flows e + 1" "cf_domains e1 = um_assign (cf_domains e) (Id 1) d1"
    "d_episodes d1 = d_episodes d" "d_current_episode d1 = d_current_episode d"
proof -
  let ?d = "d\<lparr>d_flows := d_flows d @ [flow_ref k 1]\<rparr>"
  have d: "domain_of e (Id 1) = Some d" "clear_revalidation ?d = ?d" "length (d_measurements d) = 20" "\<not> needs_revalidation d"
    using assms(1) by (simp_all add: in_use_def needs_revalidation_def clear_revalidation_def)
  from engine_opens_flow [OF assms(2,4) _ assms(5), of d t0 t1] obtain e1 e2 e3 where
      s: "declare_flow opts t0 e = (flow_ref k 1, e1)" "admit_flow (flow_ref k 1) e1 = (True, e2)"
        "start_flow (flow_ref k 1) (o_owner_boot opts) t1 e2 = (True, e3)"
      and e3: "cf_flows e3 = cf_flows e @ [(Id k, opened_with opts t0 t1 k)]" "cf_domains e3 = um_assign (cf_domains e) (Id 1) ?d"
        "cf_worker_boot e3 = cf_worker_boot e" "cf_source_boot e3 = cf_source_boot e" "cf_limits e3 = cf_limits e"
        "cf_next_flow e3 = k + 1" "cf_active_flows e3 = cf_active_flows e + 1"
    using assms(3) d by auto
  show thesis
  proof (rule that [OF s(1)])
    show "snd (start_flow (flow_ref k 1) (o_owner_boot opts) t1 (snd (admit_flow (flow_ref k 1) e1))) = e3" using s by simp
    show "in_use e3 ?d"
      using assms(1) d e3(1,2) by (simp add: in_use_def domain_of_def needs_revalidation_def opened_with_def)
  qed (use e3 in simp_all)
qed

lemma addFlow_eval:
  assumes "in_use e d" "um_find (cf_worker_boot e) (Id w) = Some (Generation boot)" "um_find (cf_source_boot e) (Id w) = Some (Generation boot)"
    and "w \<noteq> 0" "boot \<noteq> 0" "next_flow_free e" "cf_active_flows e < max_active_flows (cf_limits e)" "k = cf_next_flow e"
  obtains e1 d1 where "addFlow (Id 1) w boot tc bytes t0 t1 e = (flow_ref k 1, e1)"
    "cf_flows e1 = cf_flows e @ [(Id k, opened_with (flow_options (Id 1) w boot tc bytes) t0 t1 k)]"
    "in_use e1 d1" "d_capacity d1 = d_capacity d" "d_flows d1 = d_flows d @ [flow_ref k 1]"
    "cf_worker_boot e1 = cf_worker_boot e" "cf_source_boot e1 = cf_source_boot e" "cf_limits e1 = cf_limits e"
    "cf_next_flow e1 = k + 1" "cf_active_flows e1 = cf_active_flows e + 1" "cf_domains e1 = um_assign (cf_domains e) (Id 1) d1"
    "d_episodes d1 = d_episodes d" "d_current_episode d1 = d_current_episode d"
proof -
  let ?o = "flow_options (Id 1) w boot tc bytes"
  have o: "o_owner_boot ?o = Generation boot" "ref_id (o_domain ?o) = Id 1" by (simp_all add: flow_options_def)
  have allowed: "declare_allowed ?o e"
    using assms(1-5,7) by (simp add: declare_allowed_def flow_options_def id_valid_def gen_valid_def domain_of_def in_use_def)
  show thesis
    by (rule open_eval [OF assms(1) allowed o(2) assms(6,8), of t0 t1]) (use that o(1) in \<open>auto simp: addFlow_def\<close>)
qed

lemma started_engine:
  assumes "capacity_valid cap"
  obtains d where "fst (create_domain kind cap (new_fabric default_limits)) = EntityRef (Id 1) (Generation 1)"
    "in_use (enrol 1 (snd (create_domain kind cap (new_fabric default_limits)))) d" "d_capacity d = cap" "d_flows d = []"
    "enrol 1 (snd (create_domain kind cap (new_fabric default_limits))) = (new_fabric default_limits)\<lparr>cf_next_domain := 2,
       cf_domains := [(Id 1, d)], cf_worker_boot := [(Id 1, Generation 1)], cf_source_boot := [(Id 1, Generation 1)]\<rparr>"
    "d_episodes d = []" "d_current_episode d = default_episode"
proof -
  let ?d = "default_domain\<lparr>d_ref := EntityRef (Id 1) (Generation 1), d_kind := kind, d_capacity := cap,
      d_queue := default_queue\<lparr>q_generation := Generation 1\<rparr>, d_residual_bps := (case residual cap 0 of Some r \<Rightarrow> r | None \<Rightarrow> 0)\<rparr>"
  have c: "create_domain kind cap (new_fabric default_limits) = (EntityRef (Id 1) (Generation 1),
      (new_fabric default_limits)\<lparr>cf_next_domain := 2, cf_domains := [(Id 1, ?d)]\<rparr>)"
    using assms by (simp add: create_domain_def new_fabric_def default_limits_def um_emplace_def um_find_def Let_def)
  show thesis
  proof (rule that [of ?d])
    let ?e = "enrol 1 (snd (create_domain kind cap (new_fabric default_limits)))"
    show e: "?e = (new_fabric default_limits)\<lparr>cf_next_domain := 2,
       cf_domains := [(Id 1, ?d)], cf_worker_boot := [(Id 1, Generation 1)], cf_source_boot := [(Id 1, Generation 1)]\<rparr>"
      unfolding c by (simp add: enrol_def register_worker_def register_source_def new_fabric_def id_valid_def gen_valid_def
          um_find_def um_assign_def)
    show "in_use ?e ?d"
      unfolding e by (simp add: new_fabric_def in_use_def um_find_def domain_of_def default_domain_def empty_measurements_def needs_revalidation_def)
    show "fst (create_domain kind cap (new_fabric default_limits)) = EntityRef (Id 1) (Generation 1)" by (simp add: c)
  qed (simp_all add: default_domain_def)
qed

lemma one_flow:
  assumes "capacity_valid cap"
  obtains e d where "snd (addFlow (Id 1) 1 1 tc bytes t0 t1 (enrol 1 (snd (create_domain kind cap (new_fabric default_limits))))) = e"
    "fst (addFlow (Id 1) 1 1 tc bytes t0 t1 (enrol 1 (snd (create_domain kind cap (new_fabric default_limits))))) = flow_ref 1 1"
    "in_use e d" "d_capacity d = cap" "cf_flows e = [(Id 1, opened_with (flow_options (Id 1) 1 1 tc bytes) t0 t1 1)]"
    "cf_worker_boot e = [(Id 1, Generation 1)]" "cf_limits e = default_limits" "length (cf_domains e) = 1" "cf_domains e = [(Id 1, d)]"
    "d_flows d = [flow_ref 1 1]" "cf_source_boot e = [(Id 1, Generation 1)]" "d_episodes d = []" "d_current_episode d = default_episode"
proof -
  obtain d where d: "in_use (enrol 1 (snd (create_domain kind cap (new_fabric default_limits)))) d" "d_capacity d = cap" "d_flows d = []"
      "enrol 1 (snd (create_domain kind cap (new_fabric default_limits))) = (new_fabric default_limits)\<lparr>cf_next_domain := 2,
       cf_domains := [(Id 1, d)], cf_worker_boot := [(Id 1, Generation 1)], cf_source_boot := [(Id 1, Generation 1)]\<rparr>"
      "d_episodes d = []" "d_current_episode d = default_episode"
    using started_engine [OF assms] by metis
  show thesis
    by (rule addFlow_eval [OF d(1), of 1 1 1 tc bytes t0 t1])
      (use d(2-) that in \<open>auto simp: new_fabric_def default_limits_def next_flow_free_def um_find_def um_assign_def\<close>)
qed

section \<open>Assessments\<close>

lemma rmag_eval:
  assumes "2 ^ (s + 52) \<le> p div q" "p div q < 2 ^ (s + 53)"
  shows "rmag p q = min inf_mag (s * 2 ^ 52 + rhe p (q * 2 ^ s))"
proof -
  have "floorlog 2 (p div q) \<le> s + 53" "\<not> floorlog 2 (p div q) \<le> s + 52"
    using assms floorlog2_less [of "p div q" "s + 53"] floorlog2_less [of "p div q" "s + 52"] by simp_all
  then have "floorlog 2 (p div q) - 53 = s" by linarith
  then show ?thesis by (simp add: rmag_def Let_def)
qed

text \<open>A quotient between one half and one, correctly rounded.\<close>

lemma ddiv_eval:
  assumes "isfinite x" "isfinite y" "\<not> dneg x" "\<not> dneg y" "vmag (dmag x) = mx * 2 ^ i" "vmag (dmag y) = my * 2 ^ i"
    and "my \<le> 2 * mx" "mx < my" "1021 * 2 ^ 52 + rhe (mx * 2 ^ 53) my \<le> inf_mag"
  shows "ddiv x y = mk False (1021 * 2 ^ 52 + rhe (mx * 2 ^ 53) my)"
proof -
  let ?p = "vmag (dmag x) * 2 ^ 1074" and ?q = "vmag (dmag y)"
  have pq: "?p div ?q = (mx * 2 ^ 1074) div my"
    unfolding assms(5,6) using div_mult_mult2 [of "2 ^ i" "mx * 2 ^ 1074" my] by (simp only: ac_simps) simp
  have my: "0 < my" using assms(8) by simp
  have "(2 * mx) * 2 ^ 1073 = mx * (2 ^ 1074 :: nat)" by (simp only: power_Suc [of 2 1073, simplified] ac_simps) 
  then have "2 ^ 1073 * my \<le> mx * 2 ^ 1074" using mult_le_mono1 [OF assms(7), of "2 ^ 1073"] by (simp only: ac_simps)
  then have lo: "2 ^ (1021 + 52) \<le> ?p div ?q"
    unfolding pq using my div_le_mono [of "2 ^ 1073 * my" "mx * 2 ^ 1074" my] by (simp only: nonzero_mult_div_cancel_right) simp
  have "mx * 2 ^ 1074 < my * (2 ^ 1074 :: nat)" using assms(8) by (simp only: mult_less_cancel2) simp
  then have hi: "?p div ?q < 2 ^ (1021 + 53)"
    unfolding pq using my less_mult_imp_div_less [of "mx * 2 ^ 1074" "2 ^ 1074" my] by (simp only: ac_simps) simp
  have eqs: "?p = (mx * 2 ^ 53) * (2 ^ i * 2 ^ 1021)" "?q * 2 ^ 1021 = my * (2 ^ i * 2 ^ 1021)"
    unfolding assms(5,6) by (simp_all only: ac_simps power_add [symmetric] arith_simps)
  have "rhe ?p (?q * 2 ^ 1021) = rhe (mx * 2 ^ 53) my" unfolding eqs by (rule rhe_scale) simp
  then have "rmag ?p ?q = 1021 * 2 ^ 52 + rhe (mx * 2 ^ 53) my" using rmag_eval [OF lo hi] assms(9) by (simp only: min.absorb2)
  moreover have "dmag y \<noteq> 0" using my assms(6) by (intro notI) (simp add: vmag_def)
  ultimately show ?thesis unfolding ddiv_def using assms(1-4) by (simp only: isfinite_not_nan isfinite_not_inf simp_thms if_False)
qed

lemma ratios:
  "ddiv d_90e6 d_100e6 = 0x3FECCCCCCCCCCCCD" "ddiv d_20e6 d_25e6 = 0x3FE999999999999A"
  subgoal
    using ddiv_eval [of d_90e6 d_100e6 "2 ^ 52 + 0x5752A00000000" 1048 "2 ^ 52 + 0x7D78400000000"]
    by (simp add: d_90e6_def d_100e6_def double_eval vmag_def rhe_def mk_def)
  subgoal
    using ddiv_eval [of d_20e6 d_25e6 "2 ^ 52 + 0x312D000000000" 1046 "2 ^ 52 + 0x7D78400000000"]
    by (simp add: d_20e6_def d_25e6_def double_eval vmag_def rhe_def mk_def)
  done

lemma assessed_saturated:
  assumes "in_use e d" "effective (d_capacity d) = Some eff" "dlt 0 eff" "isfinite (d_offered_bps d)" "dlt eff (d_offered_bps d)"
  shows "as_state (assess_domain d (cf_flows e)) = CS_SATURATED"
  using saturated_iff [OF assms(2-4)] nothing_queued [of "cf_flows e" d] assms(1,5) by (simp add: in_use_def)

lemma assessed_busy:
  assumes "in_use e d" "effective (d_capacity d) = Some eff" "dlt 0 eff" "dlt 0 (d_offered_bps d)"
    and "dle 0x3FE999999999999A (ddiv (d_offered_bps d) eff)" "\<not> dlt d_one (ddiv (d_offered_bps d) eff)"
    and "\<not> dle 0x3FECCCCCCCCCCCCD (ddiv (d_offered_bps d) eff) \<or> \<not> dle 0x3FEE666666666666 (ddiv (d_serviced_bps d) eff)"
  shows "as_state (assess_domain d (cf_flows e)) = CS_BUSY"
proof -
  have "\<not> no_traffic d (aggregate_domain d (cf_flows e))"
    using assms(4) by (auto simp: no_traffic_def dle_def dlt_def)
  then show ?thesis
    using assms nothing_queued [of "cf_flows e" d]
    by (auto simp: in_use_def assess_domain_def classify_def classify_live_def pick_state_def Let_def)
qed

lemma example_capacity_facts:
  "capacity_valid (example_capacity d_100e6)" "effective (example_capacity d_100e6) = Some d_100e6"
  by (simp_all add: example_capacity_def capacity_eval rate_values)

lemmas example_rates = d_90e6_def d_140e6_def d_50e6_def d_160e6_def d_120e6_def d_25e6_def d_20e6_def d_12e6_def rate_values

lemma shown_numbers:
  "to_string_nat 0 = ''0''" "to_string_nat 1 = ''1''" "to_string_nat 2 = ''2''" "to_string_nat 3 = ''3''" "to_string_nat 5 = ''5''"
  "to_string_nat 9 = ''9''" "to_string_nat 11 = ''11''" "to_string_nat 400 = ''400''" "to_string_nat 600 = ''600''" "to_string_nat 1000 = ''1000''"
  "to_string_nat (Suc 0) = ''1''"
  by (simp_all add: to_string_nat.simps [of 0] to_string_nat.simps [of "Suc 0"] to_string_nat.simps [of 2] to_string_nat.simps [of 3]
      to_string_nat.simps [of 5] to_string_nat.simps [of 9] to_string_nat.simps [of 11] to_string_nat.simps [of 400] to_string_nat.simps [of 40]
      to_string_nat.simps [of 4] to_string_nat.simps [of 600] to_string_nat.simps [of 60] to_string_nat.simps [of 6] to_string_nat.simps [of 1000]
      to_string_nat.simps [of 100] to_string_nat.simps [of 10] digit_char_def char_of_def bit_0 bit_Suc)

text \<open>One domain of capacity 100 MB/s with one flow, at the given rates: the assessment.\<close>

lemma make_engine_eval:
  "make_engine c = (ref_id (fst (create_domain DK_NETWORK_PATH (example_capacity c) (new_fabric default_limits))),
     enrol 1 (snd (create_domain DK_NETWORK_PATH (example_capacity c) (new_fabric default_limits))))"
  by (simp add: make_engine_def case_prod_beta)

lemma make_engine_domain: "fst (make_engine d_100e6) = Id 1"
  using started_engine [OF example_capacity_facts(1), of DK_NETWORK_PATH] by (metis EntityRef.sel(1) fst_conv make_engine_eval)

lemma loaded_pair:
  assumes "in_use e d" "d_capacity d = cap" "measurement_valid mo" "m_kind mo = MK_OFFERED_BYTES_PER_SEC"
    and "measurement_valid ms" "m_kind ms = MK_COMPLETED_BYTES_PER_SEC" "x = m_value mo" "y = m_value ms"
  obtains e1 d1 a where "recompute_domain (Id 1) now (published (Id 1) ms (published (Id 1) mo e)) = (a, e1)" "cf_flows e1 = cf_flows e"
    "domain_of e1 (Id 1) = Some d1" "d_state d1 = as_state a" "d_capacity d1 = cap" "d_offered_bps d1 = x" "d_serviced_bps d1 = y"
    "length (d_measurements d1) = 20" "d_flows d1 = d_flows d" "cf_limits e1 = cf_limits e" "length (cf_domains e1) = length (cf_domains e)"
    "\<And>eff. effective cap = Some eff \<Longrightarrow> dlt 0 eff \<Longrightarrow> dlt eff x \<Longrightarrow> as_state a = CS_SATURATED"
    "\<And>eff. effective cap = Some eff \<Longrightarrow> dlt 0 eff \<Longrightarrow> dlt 0 x \<Longrightarrow> dle 0x3FE999999999999A (ddiv x eff) \<Longrightarrow> \<not> dlt d_one (ddiv x eff) \<Longrightarrow>
       \<not> dle 0x3FECCCCCCCCCCCCD (ddiv x eff) \<or> \<not> dle 0x3FEE666666666666 (ddiv y eff) \<Longrightarrow> as_state a = CS_BUSY"
proof -
  obtain d' where d': "published (Id 1) ms (published (Id 1) mo e) = set_domain e (Id 1) d'" "in_use (set_domain e (Id 1) d') d'"
    "d_capacity d' = d_capacity d" "d_offered_bps d' = x" "d_serviced_bps d' = y" "d_flows d' = d_flows d"
    using published_pair [OF assms(1,3-6)] assms(7,8) by metis
  have finite: "isfinite x" using assms(3,7) by (simp add: measurement_valid_def)
  have len: "length (um_assign (cf_domains e) (Id 1) d') = length (cf_domains e)"
    using um_assign_keys [of "cf_domains e" "Id 1" d'] assms(1) by (metis domain_of_def in_use_def length_map option.discI)
  obtain e1 d1 where r: "recompute_domain (Id 1) now (set_domain e (Id 1) d') = (assess_domain d' (cf_flows (set_domain e (Id 1) d')), e1)"
      "cf_flows e1 = cf_flows e" "domain_of e1 (Id 1) = Some d1" "d_state d1 = as_state (assess_domain d' (cf_flows (set_domain e (Id 1) d')))"
      "d_capacity d1 = d_capacity d'" "d_offered_bps d1 = x" "d_serviced_bps d1 = y" "d_flows d1 = d_flows d" "length (d_measurements d1) = 20"
      "cf_limits e1 = cf_limits e" "length (cf_domains e1) = length (um_assign (cf_domains e) (Id 1) d')"
    using recompute_eval [OF d'(2), of now] d'(4-) by simp metis
  show thesis
    by (rule that [OF _ r(2,3,4) _ r(6,7,9,8,10)])
      (use r(1,5,11) d' assms(2) finite len assessed_saturated [OF d'(2)] assessed_busy [OF d'(2)] in simp_all)
qed

lemma demo_valid: "isfinite v \<Longrightarrow> measurement_valid (demo_measurement kind v)"
  by (simp add: demo_measurement_def measurement_valid_def default_measurement_def dle_def dkey_d_one)

lemma demo_fields: "m_kind (demo_measurement kind v) = kind" "v = m_value (demo_measurement kind v)"
  by (simp_all add: demo_measurement_def)

lemmas loaded_domain =
  loaded_pair [OF _ _ demo_valid demo_fields(1) demo_valid demo_fields(1) demo_fields(2) demo_fields(2), folded publish_def]

section \<open>What each section prints\<close>

abbreviation example_start :: CongestionFabric where
  "example_start \<equiv> enrol 1 (snd (create_domain DK_NETWORK_PATH (example_capacity d_100e6) (new_fabric default_limits)))"

lemma make_engine_100: "make_engine d_100e6 = (Id 1, example_start)"
  using make_engine_domain by (simp add: make_engine_eval)

lemma rate_facts:
  "isfinite d_90e6" "isfinite d_140e6" "isfinite d_50e6" "isfinite d_160e6" "isfinite d_60e6" "isfinite d_120e6" "isfinite d_20e6" "isfinite d_12e6"
  "dlt 0 d_100e6" "dlt d_100e6 d_140e6" "dlt d_100e6 d_160e6" "dlt d_100e6 d_120e6" "dlt 0 d_90e6" "dlt 0 d_20e6" "dlt 0 d_25e6" "dlt d_60e6 d_160e6"
  "dle 0x3FE999999999999A (0x3FECCCCCCCCCCCCD :: double)" "\<not> dlt d_one 0x3FECCCCCCCCCCCCD" "\<not> dle 0x3FEE666666666666 (0x3FECCCCCCCCCCCCD :: double)"
  "dle 0x3FE999999999999A (0x3FE999999999999A :: double)" "\<not> dlt d_one 0x3FE999999999999A" "\<not> dle 0x3FECCCCCCCCCCCCD (0x3FE999999999999A :: double)"
  by (simp_all add: example_rates double_eval d_one_def)

lemma healthy_line:
  "healthy_vs_congested now = ''HEALTHY_HIGH_UTIL: offered=90% serviced=90% -> state=3 (healthy if no queue)'' @ nl @
     ''REAL_CONGESTION: offered=140% serviced=50% -> state=5'' @ nl"
proof -
  obtain e d where e: "snd (addFlow (Id 1) 1 1 TC_THROUGHPUT 0xA00000 (now 0) (now 1) example_start) = e" "in_use e d"
      "d_capacity d = example_capacity d_100e6"
    using one_flow [OF example_capacity_facts(1), where tc = TC_THROUGHPUT and bytes = "0xA00000" and ?t0.0 = "now 0" and ?t1.0 = "now 1" and kind = DK_NETWORK_PATH] by metis
  obtain e1 d1 a where r: "recompute_domain (Id 1) (now 2) (publish (Id 1) d_90e6 d_90e6 e) = (a, e1)" "cf_flows e1 = cf_flows e"
      "domain_of e1 (Id 1) = Some d1" "d_state d1 = as_state a" "d_capacity d1 = example_capacity d_100e6" "length (d_measurements d1) = 20"
      "as_state a = CS_BUSY"
    using loaded_domain [OF e(2,3) rate_facts(1,1), of "now 2"] example_capacity_facts(2) rate_facts ratios by metis
  have "in_use e1 d1" using e(2) r(2,3,4,6,7) by (simp add: in_use_def needs_revalidation_def)
  then obtain e2 b where "recompute_domain (Id 1) (now 3) (publish (Id 1) d_140e6 d_50e6 e1) = (b, e2)" "as_state b = CS_SATURATED"
    using loaded_domain [OF _ r(5) rate_facts(2,3), of e1 "now 3"] example_capacity_facts(2) rate_facts by metis
  then show ?thesis
    using e(1) r(1,7) by (simp add: healthy_vs_congested_def make_engine_100 Let_def shown_numbers)
qed

lemma shrink_line:
  "capacity_shrink now = ''CAPACITY_SHRINK: state_on_initial=5, reservation-exceeding-capacity valid=0'' @ nl"
proof -
  obtain e d where e: "snd (addFlow (Id 1) 1 1 TC_BULK_TRANSFER 0x5000000 (now 0) (now 1) example_start) = e" "in_use e d"
      "d_capacity d = example_capacity d_100e6"
    using one_flow [OF example_capacity_facts(1), where tc = TC_BULK_TRANSFER and bytes = "0x5000000" and ?t0.0 = "now 0" and ?t1.0 = "now 1" and kind = DK_NETWORK_PATH] by metis
  obtain e1 a where r: "recompute_domain (Id 1) (now 2) (publish (Id 1) d_120e6 d_60e6 e) = (a, e1)" "as_state a = CS_SATURATED"
    using loaded_domain [OF e(2,3) rate_facts(6,5), of "now 2"] example_capacity_facts(2) rate_facts by metis
  have "\<not> capacity_valid overcommitted" by (simp add: overcommitted_def capacity_eval example_rates)
  then have "fst (create_domain DK_NETWORK_PATH overcommitted e1) = invalid_ref" by (simp add: create_domain_def)
  then show ?thesis
    using e(1) r by (simp add: capacity_shrink_def make_engine_100 Let_def shown_numbers fmt_flag_def invalid_ref_def id_valid_def)
qed

lemma collective_line:
  "collective now = ''SYNTHETIC_COLLECTIVE: state=3 (synthetic; no physical multi-GPU)'' @ nl"
proof -
  let ?cap = "default_capacity\<lparr>theoretical := default_rate\<lparr>rate_bps := d_25e6, rate_kind := BK_THEORETICAL, rate_prov := MP_SYNTHETIC\<rparr>\<rparr>"
  have cap: "capacity_valid ?cap" "effective ?cap = Some d_25e6" by (simp_all add: capacity_eval example_rates)
  have ref: "ref_id (fst (create_domain DK_COLLECTIVE_PATH ?cap (new_fabric default_limits))) = Id 1"
    using started_engine [OF cap(1), of DK_COLLECTIVE_PATH] by (metis EntityRef.sel(1))
  obtain e d where e: "snd (addFlow (Id 1) 1 1 TC_COLLECTIVE 0x1E00000 (now 0) (now 1)
      (enrol 1 (snd (create_domain DK_COLLECTIVE_PATH ?cap (new_fabric default_limits))))) = e" "in_use e d" "d_capacity d = ?cap"
    using one_flow [OF cap(1), where tc = TC_COLLECTIVE and bytes = "0x1E00000" and ?t0.0 = "now 0" and ?t1.0 = "now 1" and kind = DK_COLLECTIVE_PATH] by metis
  obtain e1 a where r: "recompute_domain (Id 1) (now 2) (publish (Id 1) d_20e6 d_12e6 e) = (a, e1)" "as_state a = CS_BUSY"
    using loaded_domain [OF e(2,3) rate_facts(7,8), of "now 2"] cap(2) rate_facts ratios by metis
  then show ?thesis
    using e(1) ref by (simp add: collective_def case_prod_beta Let_def shown_numbers)
qed

lemmas opened_simps = opened_with_def flow_of_options_def flow_options_def default_options_def flow_state_preds

lemma flow_ref_id: "ref_id (flow_ref k g) = Id k"
  by (simp add: flow_ref_def)

lemma cancel_line:
  "cancellation now = ''CANCEL: completed=400 cancelled=600 admitted=1000 state=9'' @ nl"
proof -
  let ?f = "opened_with (flow_options (Id 1) 1 1 TC_CHECKPOINT 1000) (now 0) (now 1) 1"
  obtain e where e: "addFlow (Id 1) 1 1 TC_CHECKPOINT 1000 (now 0) (now 1) example_start = (flow_ref 1 1, e)" "cf_flows e = [(Id 1, ?f)]"
    using one_flow [OF example_capacity_facts(1), where tc = TC_CHECKPOINT and bytes = 1000 and ?t0.0 = "now 0" and ?t1.0 = "now 1" and kind = DK_NETWORK_PATH]
    by (metis prod.collapse)
  have p: "progress_body (Generation 1) 400 (now 2) ?f = (True, ?f\<lparr>completed_bytes := ByteCounter 400, in_flight_bytes := ByteCounter 600,
      fl_last_progress_ms := now 2\<rparr>)" (is "_ = (True, ?g)")
    by (simp add: progress_body_def opened_simps checked_add_def checked_sub_def Let_def)
  have c: "cancel_body (Generation 1) 600 (now 3) ?g = (True, ?g\<lparr>cancelled_bytes := ByteCounter 600, in_flight_bytes := ByteCounter 0,
      fl_state := FS_CANCELLED, fl_last_progress_ms := now 3\<rparr>)"
    by (simp add: cancel_body_def opened_simps bc_add_def checked_add_def Let_def)
  have refs: "fl_ref ?f = flow_ref 1 1" "fl_ref ?g = flow_ref 1 1" by (simp_all add: opened_simps flow_ref_def)
  have "flow_of (snd (flow_cancel (flow_ref 1 1) (Generation 1) 600 (now 3) (snd (flow_progress (flow_ref 1 1) (Generation 1) 400 (now 2) e)))) (Id 1) =
      Some (?g\<lparr>cancelled_bytes := ByteCounter 600, in_flight_bytes := ByteCounter 0, fl_state := FS_CANCELLED, fl_last_progress_ms := now 3\<rparr>)"
    using e(2) p c refs
    by (simp add: flow_progress_def flow_cancel_def on_flow_def find_flow_def flow_ref_def um_find_def um_assign_def release_slot_def flow_of_def)
  then show ?thesis
    unfolding cancellation_def make_engine_100 prod.case e(1) Let_def by (simp add: flow_ref_id) (simp add: shown_numbers opened_simps)
qed

lemma death_line:
  "worker_death now = ''WORKER_DEATH: fenced=1 flow_state=11 stale_progress_rejected=1'' @ nl"
proof -
  let ?f = "opened_with (flow_options (Id 1) 1 1 TC_RECOVERY 1000) (now 0) (now 1) 1"
  obtain e where e: "addFlow (Id 1) 1 1 TC_RECOVERY 1000 (now 0) (now 1) example_start = (flow_ref 1 1, e)" "cf_flows e = [(Id 1, ?f)]"
      "cf_worker_boot e = [(Id 1, Generation 1)]"
    using one_flow [OF example_capacity_facts(1), where tc = TC_RECOVERY and bytes = 1000 and ?t0.0 = "now 0" and ?t1.0 = "now 1" and kind = DK_NETWORK_PATH]
    by (metis prod.collapse)
  let ?g = "?f\<lparr>completed_bytes := ByteCounter 300, in_flight_bytes := ByteCounter 700, fl_last_progress_ms := now 2\<rparr>"
  have p: "progress_body (Generation 1) 300 (now 2) ?f = (True, ?g)"
    by (simp add: progress_body_def opened_simps checked_add_def checked_sub_def Let_def)
  have refs: "fl_ref ?f = flow_ref 1 1" "fl_ref ?g = flow_ref 1 1" by (simp_all add: opened_simps flow_ref_def)
  let ?e1 = "snd (flow_progress (flow_ref 1 1) (Generation 1) 300 (now 2) e)"
  have e1: "cf_flows ?e1 = [(Id 1, ?g)]" "cf_worker_boot ?e1 = [(Id 1, Generation 1)]"
    using e(2,3) p refs by (simp_all add: flow_progress_def on_flow_def find_flow_def flow_ref_def um_find_def um_assign_def)
  have fenced: "fst (fence_worker (Id 1) (Generation 1) ?e1)" "cf_flows (snd (fence_worker (Id 1) (Generation 1) ?e1)) = [(Id 1, ?g\<lparr>fl_state := FS_STALE\<rparr>)]"
    using e1 by (simp_all add: fence_worker_def id_valid_def um_find_def um_map_def fence_flow_def flow_terminal_def opened_simps)
  obtain e2 where e2: "fence_worker (Id 1) (Generation 1) ?e1 = (True, e2)" "cf_flows e2 = [(Id 1, ?g\<lparr>fl_state := FS_STALE\<rparr>)]"
    using fenced by (cases "fence_worker (Id 1) (Generation 1) ?e1") simp
  have stale: "flow_progress (flow_ref 1 1) (Generation 1) 100 (now 3) e2 = (False, e2)"
    using e2(2) refs by (simp add: flow_progress_def on_flow_def find_flow_def flow_ref_def um_find_def progress_body_def flow_state_preds um_assign_def)
  show ?thesis
    unfolding worker_death_def make_engine_100 prod.case e(1) Let_def e2(1) stale
    using e2(2) by (simp add: flow_of_def um_find_def fmt_flag_def shown_numbers flow_ref_id)
qed

lemma competing_line:
  "competing_flows now = ''COMPETING_FLOWS: state=5 fair_share=2 backpressure=1 dominant=1'' @ nl"
proof -
  let ?f = "opened_with (flow_options (Id 1) 1 1 TC_BULK_TRANSFER 0x1400000) (now 0) (now 1) 1"
    and ?g = "opened_with (flow_options (Id 1) 2 1 TC_LATENCY_CRITICAL 0x1400000) (now 2) (now 3) 2"
  obtain d where d: "in_use example_start d" "d_capacity d = example_capacity d_100e6" "d_flows d = []"
      "example_start = (new_fabric default_limits)\<lparr>cf_next_domain := 2,
       cf_domains := [(Id 1, d)], cf_worker_boot := [(Id 1, Generation 1)], cf_source_boot := [(Id 1, Generation 1)]\<rparr>"
    using started_engine [OF example_capacity_facts(1), of DK_NETWORK_PATH] by metis
  let ?e0 = "enrol 2 example_start"
  have e0: "?e0 = example_start\<lparr>cf_worker_boot := [(Id 1, Generation 1), (Id 2, Generation 1)],
      cf_source_boot := [(Id 1, Generation 1), (Id 2, Generation 1)]\<rparr>"
    unfolding d(4) by (simp add: enrol_def register_worker_def register_source_def new_fabric_def id_valid_def gen_valid_def um_find_def um_assign_def)
  have use0: "in_use ?e0 d" using d(1) by (simp add: e0 in_use_def domain_of_def)
  have fields: "cf_worker_boot ?e0 = [(Id 1, Generation 1), (Id 2, Generation 1)]" "cf_source_boot ?e0 = [(Id 1, Generation 1), (Id 2, Generation 1)]"
      "cf_flows ?e0 = []" "cf_limits ?e0 = default_limits" "cf_next_flow ?e0 = 1" "cf_active_flows ?e0 = 0"
    unfolding e0 unfolding d(4) by (simp_all add: new_fabric_def)
  obtain e1 d1 where e1: "addFlow (Id 1) 1 1 TC_BULK_TRANSFER 0x1400000 (now 0) (now 1) ?e0 = (flow_ref 1 1, e1)" "cf_flows e1 = [(Id 1, ?f)]"
      "in_use e1 d1" "d_capacity d1 = d_capacity d" "d_flows d1 = [flow_ref 1 1]" "cf_worker_boot e1 = cf_worker_boot ?e0"
      "cf_source_boot e1 = cf_source_boot ?e0" "cf_limits e1 = default_limits" "cf_next_flow e1 = 2" "cf_active_flows e1 = 1"
    by (rule addFlow_eval [OF use0, of 1 1 1 TC_BULK_TRANSFER "0x1400000" "now 0" "now 1"])
      (use fields d(3) in \<open>auto simp: um_find_def next_flow_free_def default_limits_def\<close>)
  obtain e2 d2 where e2: "addFlow (Id 1) 2 1 TC_LATENCY_CRITICAL 0x1400000 (now 2) (now 3) e1 = (flow_ref 2 1, e2)" "cf_flows e2 = [(Id 1, ?f), (Id 2, ?g)]"
      "in_use e2 d2" "d_capacity d2 = d_capacity d1" "d_flows d2 = [flow_ref 1 1, flow_ref 2 1]"
    by (rule addFlow_eval [OF e1(3), of 2 1 2 TC_LATENCY_CRITICAL "0x1400000" "now 2" "now 3"])
      (use fields e1 in \<open>auto simp: um_find_def next_flow_free_def default_limits_def\<close>)
  have cap: "d_capacity d2 = example_capacity d_100e6" using d(2) e1(4) e2(4) by simp
  obtain e3 d3 a where r: "recompute_domain (Id 1) (now 4) (publish (Id 1) d_160e6 d_60e6 e2) = (a, e3)" "cf_flows e3 = cf_flows e2"
      "domain_of e3 (Id 1) = Some d3" "d_state d3 = as_state a" "d_offered_bps d3 = d_160e6" "d_serviced_bps d3 = d_60e6"
      "d_flows d3 = d_flows d2" "as_state a = CS_SATURATED"
    using loaded_domain [OF e2(3) cap rate_facts(4,5), of "now 4"] example_capacity_facts(2) rate_facts by metis
  have res: "resolve (cf_flows e3) (d_flows d3) = [?f, ?g]"
    using r(2,7) e2(2,5) by (simp add: resolve_def List.map_filter_simps find_flow_def um_find_def flow_ref_def opened_simps)
  have live: "live ?f" "live ?g" "\<not> flow_terminal ?f" "\<not> flow_terminal ?g"
    by (simp_all add: live_def flow_terminal_def opened_simps)
  have "length (fr_shares (evaluate_fairness (Id 1) e3)) = 2"
    using r(3) res live by (simp add: evaluate_fairness_def domain_of_def Let_def)
  moreover have "ba_intent (eval_backpressure (Id 1) e3) = AI_ADMIT_LIMITED"
    using r dsub_pos_iff [OF rate_facts(4,5)] rate_facts(16) by (auto simp: eval_backpressure_def domain_of_def Let_def dle_def dlt_def)
  moreover have "sn_dominant_contributor (snapshot (Id 1) e3) = Id 1"
    using r(3) res live by (simp add: snapshot_def domain_of_def Let_def dominant_flow_def dominant_step_def) (simp add: opened_simps)
  ultimately show ?thesis
    unfolding competing_flows_def make_engine_100 prod.case Let_def using e1(1) e2(1) r(1,8) by (simp add: shown_numbers)
qed

lemma example_typed_run:
  assumes "t \<le> u"
  shows "typed_run default_limits 6 u (snd (addFlow (Id 1) 1 1 TC_MODEL_LOAD 2000 t u example_start))"
proof -
  let ?cap = "example_capacity d_100e6"
  let ?e1 = "snd (create_domain DK_NETWORK_PATH ?cap (new_fabric default_limits))"
  let ?e2 = "snd (register_worker (Id 1) (Generation 1) ?e1)" and ?o = "flow_options (Id 1) 1 1 TC_MODEL_LOAD 2000"
  have cap: "DomainKind_named DK_NETWORK_PATH" "capacity_storable ?cap"
    by (simp_all add: DomainKind_named_def DomainKind_enum_def capacity_storable_def rate_storable_def example_capacity_def
        BandwidthKind_named_def BandwidthKind_enum_def MeasurementProvenance_named_def MeasurementProvenance_enum_def capacity_eval example_rates)
  have o: "options_typed ?o"
    by (simp add: options_typed_def flow_options_def sample_values TrafficClass_named_def TrafficClass_enum_def FairnessModel_named_def
        FairnessModel_enum_def fairness_valid_def d_one_def double_eval provs_keep str_ok_def)
  have "typed_run default_limits (Suc 0) t ?e1"
    using typed_call [OF typed_run.boot order_refl, of "CreateDomain DK_NETWORK_PATH ?cap" t] cap by (simp add: ref_result_def case_prod_beta)
  from typed_call [OF this order_refl, of "RegisterWorker (Id 1) (Generation 1)"]
  have "typed_run default_limits (Suc (Suc 0)) t ?e2" by simp
  from typed_call [OF this order_refl, of "RegisterSource (Id 1) (Generation 1)"]
  have "typed_run default_limits (Suc (Suc (Suc 0))) t example_start" by (simp add: enrol_def)
  from typed_call [OF this order_refl, of "DeclareFlow ?o"]
  have d: "typed_run default_limits 4 t (snd (declare_flow ?o t example_start))" using o by (simp add: ref_result_def case_prod_beta eval_nat_numeral)
  from typed_call [OF d order_refl, of "AdmitFlow (fst (declare_flow ?o t example_start))"]
  have "typed_run default_limits 5 t (snd (admit_flow (fst (declare_flow ?o t example_start)) (snd (declare_flow ?o t example_start))))" by simp
  from typed_call [OF this assms, of "StartFlow (fst (declare_flow ?o t example_start)) (Generation 1)"]
  show ?thesis by (simp add: addFlow_def case_prod_beta)
qed

lemma persistence_line:
  assumes "\<And>p bs d. fst (put p bs d) \<and> get p (snd (put p bs d)) = Some bs" "now 0 \<le> now 1"
  shows "fst (persistence put get del now disk) = ''PERSISTENCE: saved+loaded=1; dynamic evidence revalidated after recovery'' @ nl"
proof -
  let ?e = "snd (addFlow (Id 1) 1 1 TC_MODEL_LOAD 2000 (now 0) (now 1) example_start)"
  have "compact ?e"
    by (rule one_flow [OF example_capacity_facts(1), where tc = TC_MODEL_LOAD and bytes = 2000 and ?t0.0 = "now 0" and ?t1.0 = "now 1" and kind = DK_NETWORK_PATH])
      (simp add: compact_def save_file_def envelope_length [symmetric] save_payload_def wr_boots_def wr_id_def wr_gen_def wr_domain_def
        wr_flow_def wr_ref_def wr_bytes_def wr_bool_def wr_str_def wr_capacity_def wr_rate_def wr_fairness_def wr_measured_def wr_episode_def
        wr_lengths default_episode_def opened_simps)
  moreover have "engine_inv ?e \<and> kept 6 (now 1) ?e" using typed_run_kept [OF example_typed_run [OF assms(2)]] by simp
  ultimately have "storable ?e" using kept_storable by blast
  from parse_save [OF this] have "fst (load (Some (save_file ?e)) x)" for x by (simp add: load_def)
  then show ?thesis
    using assms(1) [of example_path "save_file ?e" disk]
    by (simp add: persistence_def make_engine_100 Let_def case_prod_beta fmt_flag_def)
qed

section \<open>The whole program\<close>

text \<open>C33: the example always prints the same thing, whatever the times at which it runs, and exits with zero: on a disk
  that keeps what is written, and with a clock that does not go back.\<close>

theorem example_output:
  assumes "\<And>p bs d. fst (put p bs d) \<and> get p (snd (put p bs d)) = Some bs" "\<And>i j k. j \<le> k \<Longrightarrow> now i j \<le> now i k"
  shows "fst (example_main put get del now disk) = (0,
    ''HEALTHY_HIGH_UTIL: offered=90% serviced=90% -> state=3 (healthy if no queue)'' @ nl @
    ''REAL_CONGESTION: offered=140% serviced=50% -> state=5'' @ nl @
    ''COMPETING_FLOWS: state=5 fair_share=2 backpressure=1 dominant=1'' @ nl @
    ''CANCEL: completed=400 cancelled=600 admitted=1000 state=9'' @ nl @
    ''CAPACITY_SHRINK: state_on_initial=5, reservation-exceeding-capacity valid=0'' @ nl @
    ''WORKER_DEATH: fenced=1 flow_state=11 stale_progress_rejected=1'' @ nl @
    ''PERSISTENCE: saved+loaded=1; dynamic evidence revalidated after recovery'' @ nl @
    ''SYNTHETIC_COLLECTIVE: state=3 (synthetic; no physical multi-GPU)'' @ nl @
    ''example done'' @ nl)"
proof -
  have p: "fst (persistence put get del (now 5) disk) = ''PERSISTENCE: saved+loaded=1; dynamic evidence revalidated after recovery'' @ nl"
    using persistence_line [of put get "now 5" del disk] assms by simp
  show ?thesis
    unfolding example_main_def case_prod_beta fst_conv p healthy_line competing_line cancel_line shrink_line death_line collective_line
    by simp
qed

theorem example_output_witness:
  "fst (fst (example_main (\<lambda>p b d. (True, d(p \<mapsto> b))) (\<lambda>p d. d p) (\<lambda>p d. d(p := None)) (\<lambda>i j. 7) Map.empty)) = 0"
  using example_output [of "\<lambda>p b d. (True, d(p \<mapsto> b))" "\<lambda>p d. d p" "\<lambda>i j. 7" "\<lambda>p d. d(p := None)" Map.empty] by simp

end
