(* ===== verification/CudaProof.thy ===== *)
theory CudaProof
  imports Example CudaWorker
begin

text \<open>
  The device check program \<^verbatim>\<open>cuda/cu_proof.cu\<close>: transfers over a CUDA device, the pressure they put on an engine, and
  the stale worker scenarios. The CUDA runtime is the argument \<open>rt\<close>, over a device state of any type; \<open>t i\<close> is
  the \<open>i\<close>-th reading of \<^verbatim>\<open>now_s\<close>, \<open>now i\<close> the \<open>i\<close>-th reading of the engine's clock. A failed check is counted, as
  \<^verbatim>\<open>chk\<close> does; what is printed is left out. The theorem states under which conditions the program reports
  success.
\<close>

section \<open>The runtime and the checks\<close>

record 'u Device =
  dv_count :: "'u \<Rightarrow> bool \<times> int"
  dv_major :: "'u \<Rightarrow> bool \<times> int"
  dv_malloc :: "nat \<Rightarrow> 'u \<Rightarrow> (bool \<times> nat) \<times> 'u"
  dv_malloc_host :: "nat \<Rightarrow> 'u \<Rightarrow> (bool \<times> nat) \<times> 'u"
  dv_h2d :: "nat \<Rightarrow> u8 list \<Rightarrow> 'u \<Rightarrow> bool \<times> 'u"
  dv_d2d :: "nat \<Rightarrow> nat \<Rightarrow> nat \<Rightarrow> 'u \<Rightarrow> bool \<times> 'u"
  dv_d2h :: "nat \<Rightarrow> nat \<Rightarrow> u8 list \<Rightarrow> 'u \<Rightarrow> (bool \<times> u8 list) \<times> 'u"
  dv_sync :: "'u \<Rightarrow> bool \<times> 'u"
  dv_last_error :: "'u \<Rightarrow> bool \<times> 'u"
  dv_stream_create :: "'u \<Rightarrow> nat \<times> 'u"
  dv_h2d_async :: "nat \<Rightarrow> u8 list \<Rightarrow> nat \<Rightarrow> 'u \<Rightarrow> 'u"
  dv_d2h_async :: "nat \<Rightarrow> nat \<Rightarrow> nat \<Rightarrow> 'u \<Rightarrow> 'u"
  dv_stream_destroy :: "nat \<Rightarrow> 'u \<Rightarrow> 'u"
  dv_free :: "nat \<Rightarrow> 'u \<Rightarrow> 'u"
  dv_free_host :: "nat \<Rightarrow> 'u \<Rightarrow> 'u"

definition chk :: "bool \<Rightarrow> nat \<Rightarrow> nat" where
  "chk c g_fails = (if c then g_fails else g_fails + 1)"

definition kProofBytes :: nat where
  "kProofBytes = 32 * 2 ^ 20"

definition hsrc :: "u8 list" where
  "hsrc = replicate kProofBytes 120"

definition rate_over :: "nat \<Rightarrow> double \<Rightarrow> double" where
  "rate_over completed dt = (if dlt 0 dt then ddiv (double_of_u64 (of_nat completed)) dt else 0)"

section \<open>Transfers\<close>

definition scenario_A :: "'u Device \<Rightarrow> nat \<times> 'u \<Rightarrow> nat \<times> 'u" where
  "scenario_A rt s = (case s of (n, u) \<Rightarrow>
     case dv_malloc rt kProofBytes u of ((e, dsrc), u) \<Rightarrow> let n = chk e n in
     case dv_malloc rt kProofBytes u of ((e, ddst), u) \<Rightarrow> let n = chk e n in
     case dv_h2d rt dsrc hsrc u of (e, u) \<Rightarrow> let n = chk e n in
     case dv_d2d rt ddst dsrc kProofBytes u of (e, u) \<Rightarrow> let n = chk e n in
     case dv_d2h rt ddst kProofBytes (replicate kProofBytes 0) u of ((e, hdst), u) \<Rightarrow> let n = chk e n in
     case dv_sync rt u of (e, u) \<Rightarrow> let n = chk e n;
       n = chk (hdst ! 0 = 120 \<and> hdst ! (kProofBytes - 1) = 120) n in
     case dv_last_error rt (dv_free rt ddst (dv_free rt dsrc u)) of (e, u) \<Rightarrow> (chk e n, u))"

text \<open>\<open>None\<close> when the pinned buffer was not allocated: the copy into it is undefined. The first component is the value left
  in the error variable of \<^verbatim>\<open>main\<close>.\<close>

definition scenario_C :: "'u Device \<Rightarrow> (nat \<Rightarrow> double) \<Rightarrow> nat \<times> 'u \<Rightarrow> (bool \<times> nat \<times> 'u) option" where
  "scenario_C rt t s = (case s of (n, u) \<Rightarrow>
     case dv_malloc_host rt kProofBytes u of ((e, pinned), u) \<Rightarrow>
     if \<not> e then None
     else case dv_malloc rt kProofBytes u of ((e, d), u) \<Rightarrow> let n = chk e n in
     case dv_h2d rt d hsrc u of (e, u) \<Rightarrow> let n = chk e n; u = snd (dv_sync rt u) in
     case dv_h2d rt d hsrc u of (e, u) \<Rightarrow> let n = chk e n; u = snd (dv_sync rt u);
       n = chk (dlt 0 (rate_over kProofBytes (dsub (t 3) (t 2))) \<and> dlt 0 (rate_over kProofBytes (dsub (t 5) (t 4)))) n
     in Some (e, n, dv_free_host rt pinned (dv_free rt d u)))"

text \<open>Four streams, each with a quarter of the buffer.\<close>

definition kChunk :: nat where
  "kChunk = kProofBytes div 4"

definition open_stream :: "'u Device \<Rightarrow> (nat \<times> nat) list \<times> 'u \<Rightarrow> (nat \<times> nat) list \<times> 'u" where
  "open_stream rt s = (case s of (sb, u) \<Rightarrow>
     case dv_stream_create rt u of (st, u) \<Rightarrow> case dv_malloc rt kChunk u of ((e, b), u) \<Rightarrow> (sb @ [(st, b)], u))"

definition use_stream :: "'u Device \<Rightarrow> nat \<times> nat \<times> nat \<Rightarrow> nat \<times> 'u \<Rightarrow> nat \<times> 'u" where
  "use_stream rt isb s = (case isb of (i, st, b) \<Rightarrow> case s of (moved, u) \<Rightarrow>
     (moved + kChunk * 2, dv_d2h_async rt b kChunk st (dv_h2d_async rt b (take kChunk (drop (i * kChunk) hsrc)) st u)))"

definition close_stream :: "'u Device \<Rightarrow> nat \<times> nat \<Rightarrow> 'u \<Rightarrow> 'u" where
  "close_stream rt sb u = dv_free rt (snd sb) (dv_stream_destroy rt (fst sb) u)"

section \<open>The engine scenarios\<close>

definition proof_options :: "DomainRef \<Rightarrow> FlowOptions" where
  "proof_options dref = default_options\<lparr>o_owner_worker := Id 1, o_owner_boot := Generation 1, o_source := Id 1,
     o_source_boot := Generation 1, o_domain := dref\<rparr>"

definition derived :: "MeasurementKind \<Rightarrow> double \<Rightarrow> Measurement" where
  "derived kind v = default_measurement\<lparr>m_kind := kind, m_value := v, m_provenance := MP_DERIVED\<rparr>"

text \<open>The literals 1.30 and 0.6.\<close>

definition d_1_30 :: double where
  "d_1_30 = 0x3FF4CCCCCCCCCCCD"

definition d_0_6 :: double where
  "d_0_6 = 0x3FE3333333333333"

definition only_theoretical :: "double \<Rightarrow> BandwidthKind \<Rightarrow> MeasurementProvenance \<Rightarrow> CapacityProfile" where
  "only_theoretical v k p = default_capacity\<lparr>theoretical := default_rate\<lparr>rate_bps := v, rate_kind := k, rate_prov := p\<rparr>\<rparr>"

text \<open>Create the domain, enrol worker and source 1, then declare, admit and start a flow.\<close>

definition proof_engine :: "DomainKind \<Rightarrow> CapacityProfile \<Rightarrow> (FlowOptions \<Rightarrow> FlowOptions) \<Rightarrow> u64 \<Rightarrow> u64
    \<Rightarrow> (DomainRef \<times> FlowRef) \<times> CongestionFabric" where
  "proof_engine kind cap upd t0 t1 = (case create_domain kind cap (new_fabric default_limits) of (dref, e) \<Rightarrow>
     case declare_flow (upd (proof_options dref)) t0 (enrol 1 e) of (fl, e) \<Rightarrow>
     ((dref, fl), snd (start_flow fl (Generation 1) t1 (snd (admit_flow fl e)))))"

definition pressure_checks :: "double \<Rightarrow> u64 \<Rightarrow> (nat \<Rightarrow> u64) \<Rightarrow> nat \<Rightarrow> nat" where
  "pressure_checks bps completed now n =
    (case proof_engine DK_GPU_HOST_TRANSFER (only_theoretical bps BK_MEASURED_SERVICE MP_MEASURED)
       (\<lambda>o'. o'\<lparr>o_traffic_class := TC_BULK_TRANSFER, o_submitted_bytes := completed, o_expected_bytes := completed\<rparr>) (now 0) (now 1) of ((dref, fl), e) \<Rightarrow>
     let e = published (ref_id dref) (derived MK_OFFERED_BYTES_PER_SEC (dmul bps d_1_30)) e;
         e = published (ref_id dref) (derived MK_COMPLETED_BYTES_PER_SEC (dmul bps d_0_6)) e;
         (a, e) = recompute_domain (ref_id dref) (now 2) e;
         n = chk (CongestionState_to_u8 (as_state a) \<ge> CongestionState_to_u8 CS_SATURATED) n
     in chk (intent_is_restrictive (ba_intent (eval_backpressure (ref_id dref) e))) n)"

definition scenario_B :: "'u Device \<Rightarrow> (nat \<Rightarrow> double) \<Rightarrow> (nat \<Rightarrow> u64) \<Rightarrow> nat \<times> 'u \<Rightarrow> nat \<times> 'u" where
  "scenario_B rt t now s = (case s of (n, u) \<Rightarrow>
     case (open_stream rt ^^ 4) ([], u) of (sbs, u) \<Rightarrow>
     case fold (use_stream rt) (List.enumerate 0 sbs) (0, u) of (moved, u) \<Rightarrow>
     let u = snd (dv_sync rt u) in
     case dv_last_error rt u of (e, u) \<Rightarrow>
     let n = chk e n;
         bps = rate_over moved (dsub (t 7) (t 6));
         n = pressure_checks bps (of_nat moved) now n
     in (n, fold (close_stream rt) sbs u))"

definition scenario_D :: "(nat \<Rightarrow> u64) \<Rightarrow> nat \<Rightarrow> nat" where
  "scenario_D now n =
    (case proof_engine DK_GPU_COPY_ENGINE (only_theoretical d_100e6 BK_THEORETICAL MP_REPORTED)
       (\<lambda>o'. o'\<lparr>o_submitted_bytes := 1000\<rparr>) (now 0) (now 1) of ((dref, fl), e) \<Rightarrow>
     let e = snd (flow_progress fl (Generation 1) 400 (now 2) e);
         (fenced, e) = fence_worker (Id 1) (Generation 1) e;
         n = chk fenced n;
         n = chk (case flow_of e (ref_id fl) of None \<Rightarrow> False | Some f \<Rightarrow> fl_state f = FS_STALE) n;
         (progressed, e) = flow_progress fl (Generation 1) 10 (now 3) e;
         n = chk (\<not> progressed) n;
         (fresh, e) = register_worker (Id 1) (Generation 3) e;
         n = chk fresh n;
         (fresh_source, e) = register_source (Id 1) (Generation 3) e;
         n = chk fresh_source n;
         (fl2, e) = declare_flow ((proof_options dref)\<lparr>o_submitted_bytes := 1000, o_owner_boot := Generation 3, o_source_boot := Generation 3\<rparr>) (now 4) e
     in chk (id_valid (ref_id fl2)) n)"

definition scenario_E :: "(nat \<Rightarrow> u64) \<Rightarrow> nat \<Rightarrow> nat" where
  "scenario_E now n =
    (case proof_engine DK_GPU_HOST_TRANSFER (only_theoretical d_100e6 BK_THEORETICAL MP_REPORTED)
       (\<lambda>o'. o'\<lparr>o_submitted_bytes := 1000\<rparr>) (now 0) (now 1) of ((dref, fl), e) \<Rightarrow>
     let (fenced, e) = fence_worker (Id 1) (Generation 1) e;
         n = chk fenced n;
         f = flow_of e (ref_id fl);
         n = chk (case f of None \<Rightarrow> False | Some f \<Rightarrow> fl_state f = FS_STALE) n;
         n = chk (case f of None \<Rightarrow> True | Some f \<Rightarrow> bc_value (completed_bytes f) \<noteq> 1000) n;
         e = recover_dynamic_evidence e
     in chk True n)"

text \<open>The exit code and the number of failed checks. The last check is meant for the device reset, but runs before it, on
  the error left by the last checked transfer. \<open>now j\<close> is the clock of the engine scenario \<open>j\<close>.\<close>

definition proof_main :: "'u Device \<Rightarrow> (nat \<Rightarrow> double) \<Rightarrow> (nat \<Rightarrow> nat \<Rightarrow> u64) \<Rightarrow> 'u \<Rightarrow> (int \<times> nat) option" where
  "proof_main rt t now u =
    (case dv_count rt u of (e, dev) \<Rightarrow> let n = chk (dev \<ge> 1) (chk e 0) in
     case dv_major rt u of (e, major) \<Rightarrow> let n = chk (major = 12) (chk e n) in
     case scenario_C rt t (scenario_A rt (n, u)) of
       None \<Rightarrow> None
     | Some (e, s) \<Rightarrow> (case scenario_B rt t (now 0) s of (n, u) \<Rightarrow>
         let n = chk e (scenario_E (now 2) (scenario_D (now 1) n))
         in Some (if n = 0 then 0 else 1, n)))"

section \<open>Rates of a transfer\<close>

lemma rate_between:
  assumes "measurable dt" "b = 25 \<or> b = 26"
  shows "isfinite (rate_over (2 ^ b) dt)" "2 ^ 52 \<le> dmag (rate_over (2 ^ b) dt)" "dmag (rate_over (2 ^ b) dt) \<le> 1079 * 2 ^ 52"
    "dlt 0 (rate_over (2 ^ b) dt)"
proof -
  have "rate_over (2 ^ b) dt = ddiv (double_of_u64 (of_nat (2 ^ b))) dt"
    using measurable_key [OF assms(1)] by (simp add: rate_over_def dlt_def)
  then show "isfinite (rate_over (2 ^ b) dt)" "2 ^ 52 \<le> dmag (rate_over (2 ^ b) dt)" "dmag (rate_over (2 ^ b) dt) \<le> 1079 * 2 ^ 52"
      "dlt 0 (rate_over (2 ^ b) dt)"
    using quotient_between [OF assms(1), of b] assms(2) by auto
qed

text \<open>Thirty per cent more is more, and stays finite; six tenths is not more.\<close>

lemma pressure_rates:
  assumes "isfinite r" "0 \<le> dkey r" "2 ^ 52 \<le> dmag r" "dmag r \<le> 1079 * 2 ^ 52"
  shows "isfinite (dmul r d_1_30)" "dlt r (dmul r d_1_30)" "isfinite (dmul r d_0_6)" "dlt (dmul r d_0_6) (dmul r d_1_30)"
proof -
  let ?v = "vmag (dmag r)" and ?w = "vmag (dmag d_1_30)"
  have k: "isfinite d_1_30" "0 \<le> dkey d_1_30" "isfinite d_0_6" "0 \<le> dkey d_0_6" "dkey d_0_6 \<le> dkey d_one"
    by (simp_all add: d_1_30_def d_0_6_def d_one_def double_eval)
  have "?w = (2 ^ 52 + 0x4CCCCCCCCCCCD) * 2 ^ 1022" by (simp add: d_1_30_def dmag_def vmag_def)
  moreover have "5 * 2 ^ 50 \<le> (2 ^ 52 + 0x4CCCCCCCCCCCD :: nat)" "2 ^ 52 + 0x4CCCCCCCCCCCD \<le> (2 ^ 53 :: nat)" by simp_all
  ultimately have "5 * 2 ^ 50 * 2 ^ 1022 \<le> ?w" "?w \<le> 2 ^ 53 * 2 ^ 1022" by (simp_all only: mult_le_mono1)
  then have w: "5 * 2 ^ 1072 \<le> ?w" "?w \<le> 2 ^ 1 * 2 ^ 1074" by (simp_all only: mult.assoc power_add [symmetric] arith_simps one_plus_numeral)
  have "2 ^ (dmag r div 2 ^ 52 - 1) * 2 ^ 52 \<le> ?v" using assms(3) by (simp add: vmag_def)
  then have step: "2 ^ 2 * vmag (Suc (dmag r)) \<le> 5 * ?v" using vmag_step [OF assms(3)] by simp
  have "2 ^ 2 * vmag (Suc (dmag r)) * 2 ^ 1072 = vmag (Suc (dmag r)) * (2 ^ 2 * 2 ^ 1072)" by (simp only: ac_simps)
  also have "2 ^ 2 * 2 ^ 1072 = (2 ^ 1074 :: nat)" by (simp only: power_add [symmetric] arith_simps)
  finally have "vmag (Suc (dmag r)) * 2 ^ 1074 = 2 ^ 2 * vmag (Suc (dmag r)) * 2 ^ 1072" by (rule sym)
  also have "\<dots> \<le> 5 * ?v * 2 ^ 1072" using step by (rule mult_le_mono1)
  also have "\<dots> = ?v * (5 * 2 ^ 1072)" by (simp only: ac_simps)
  also have "\<dots> \<le> ?v * ?w" using w(1) by (rule mult_le_mono2)
  finally have up: "Suc (dmag r) \<le> rmag (?v * ?w) (2 ^ 1074)"
    using assms(4) by (intro ieee.code_le_rnd) (simp_all only: zero_less_power, simp_all add: inf_mag_def)
  have "?v * ?w \<le> ?v * (2 ^ 1 * 2 ^ 1074)" using w(2) by (rule mult_le_mono2)
  then have "?v * ?w \<le> vmag (dmag r + 2 ^ 52) * 2 ^ 1074" unfolding vmag_double [OF assms(3)] by (simp only: ac_simps power_one_right)
  then have hi: "rmag (?v * ?w) (2 ^ 1074) \<le> dmag r + 2 ^ 52"
    using assms(4) by (intro ieee.rnd_le_code) (simp only: zero_less_power, simp add: inf_mag_def, assumption)
  have key: "dkey (dmul r d_1_30) = int (rmag (?v * ?w) (2 ^ 1074))" by (rule dmul_nonneg_key [OF assms(1) k(1) assms(2) k(2)])
  then show f: "isfinite (dmul r d_1_30)" using hi assms(4) unfolding isfinite_dkey by (simp add: inf_mag_def)
  show lt: "dlt r (dmul r d_1_30)"
    using f assms(1) up key nonneg_dkey [OF assms(2)] unfolding dlt_def by (simp only: isfinite_not_nan simp_thms of_nat_less_iff Suc_le_eq)
  have s: "dkey (dmul r d_0_6) \<le> dkey r" "0 \<le> dkey (dmul r d_0_6)" using dmul_le_left [OF assms(1) k(3) assms(2) k(4,5)] by simp_all
  then show g: "isfinite (dmul r d_0_6)" using assms(1) by (simp add: isfinite_dkey)
  show "dlt (dmul r d_0_6) (dmul r d_1_30)" using s(1) lt g f by (simp add: dlt_def)
qed

section \<open>The engine scenarios pass\<close>

lemma theoretical_capacity:
  assumes "fin_nonneg v" "k \<noteq> BK_UNKNOWN"
  shows "capacity_valid (only_theoretical v k p)" "effective (only_theoretical v k p) = Some v"
proof -
  let ?c = "only_theoretical v k p"
  have known: "rate_known (theoretical ?c)" "rate_bps (theoretical ?c) = v" "\<not> rate_known (configured ?c)" "\<not> rate_known (measured_service ?c)"
      "rate_kind (reserved ?c) = BK_UNKNOWN" "\<not> rate_known (reserved ?c)"
    using assms by (simp_all add: only_theoretical_def rate_known_def is_finite_nonneg_iff default_capacity_def default_rate_def)
  have "dmin dinf v = v" using fin_nonnegD [OF assms(1)] dinf_props by (simp add: dmin_def dlt_def isfinite_dkey)
  then have acc: "tighten (measured_service ?c) (tighten (configured ?c) (tighten (theoretical ?c) (dinf, False))) = (v, True)"
    using known by (simp add: tighten_def)
  then show "effective ?c = Some v" using known fin_nonnegD [OF assms(1)] by (simp add: effective_def dlt_def)
  show "capacity_valid ?c"
    using known acc assms by (simp add: capacity_valid_def rate_check_def reservation_is_consistent_def effective_before_reservation_def
        only_theoretical_def is_finite_nonneg_iff default_capacity_def default_rate_def)
qed

text \<open>The fields of the options that \<^verbatim>\<open>declare_flow\<close> checks.\<close>

definition owner_options :: "FlowOptions \<Rightarrow> WorkerId \<times> WorkerBootId \<times> SourceId \<times> SourceBootId \<times> DomainRef" where
  "owner_options o' = (o_owner_worker o', o_owner_boot o', o_source o', o_source_boot o', o_domain o')"

lemma proof_engine_eval:
  assumes "capacity_valid cap" "owner_options (upd (proof_options (EntityRef (Id 1) (Generation 1)))) = owner_options (proof_options (EntityRef (Id 1) (Generation 1)))"
  obtains e d where "proof_engine kind cap upd t0 t1 = ((EntityRef (Id 1) (Generation 1), flow_ref 1 1), e)" "in_use e d" "d_capacity d = cap"
    "cf_flows e = [(Id 1, opened_with (upd (proof_options (EntityRef (Id 1) (Generation 1)))) t0 t1 1)]"
    "cf_worker_boot e = [(Id 1, Generation 1)]" "cf_source_boot e = [(Id 1, Generation 1)]" "cf_limits e = default_limits"
    "cf_domains e = [(Id 1, d)]" "cf_next_flow e = 2" "cf_active_flows e = 1"
proof -
  let ?o = "upd (proof_options (EntityRef (Id 1) (Generation 1)))"
  obtain d where d: "fst (create_domain kind cap (new_fabric default_limits)) = EntityRef (Id 1) (Generation 1)"
      "in_use (enrol 1 (snd (create_domain kind cap (new_fabric default_limits)))) d" "d_capacity d = cap"
      "enrol 1 (snd (create_domain kind cap (new_fabric default_limits))) = (new_fabric default_limits)\<lparr>cf_next_domain := 2,
       cf_domains := [(Id 1, d)], cf_worker_boot := [(Id 1, Generation 1)], cf_source_boot := [(Id 1, Generation 1)]\<rparr>"
    using started_engine [OF assms(1)] by metis
  let ?e = "enrol 1 (snd (create_domain kind cap (new_fabric default_limits)))"
  have fields: "cf_worker_boot ?e = [(Id 1, Generation 1)]" "cf_source_boot ?e = [(Id 1, Generation 1)]" "cf_flows ?e = []"
      "cf_limits ?e = default_limits" "cf_next_flow ?e = 1" "cf_active_flows ?e = 0" "cf_domains ?e = [(Id 1, d)]"
    unfolding d(4) by (simp_all add: new_fabric_def)
  have o: "ref_id (o_domain ?o) = Id 1" "o_owner_boot ?o = Generation 1" using assms(2) by (simp_all add: owner_options_def proof_options_def)
  have allowed: "declare_allowed ?o ?e"
    using fields assms(2) by (simp add: declare_allowed_def owner_options_def proof_options_def id_valid_def gen_valid_def um_find_def default_limits_def)
  have free: "next_flow_free ?e" "1 = cf_next_flow ?e" using fields by (simp_all add: next_flow_free_def um_find_def)
  show thesis
    by (rule open_eval [OF d(2) allowed o(1) free, of t0 t1])
      (use that d(1,3) fields o(2) in \<open>auto simp: proof_engine_def case_prod_beta um_assign_def\<close>)
qed

lemma derived_fields: "isfinite v \<Longrightarrow> measurement_valid (derived k v)" "m_kind (derived k v) = k" "v = m_value (derived k v)"
  by (simp_all add: derived_def measurement_valid_def default_measurement_def dle_def dkey_d_one)

lemma pressure_passes:
  assumes "isfinite r" "0 \<le> dkey r" "2 ^ 52 \<le> dmag r" "dmag r \<le> 1079 * 2 ^ 52"
  shows "pressure_checks r c now n = n"
proof -
  let ?cap = "only_theoretical r BK_MEASURED_SERVICE MP_MEASURED"
  let ?upd = "\<lambda>o'. o'\<lparr>o_traffic_class := TC_BULK_TRANSFER, o_submitted_bytes := c, o_expected_bytes := c\<rparr>"
  note p = pressure_rates [OF assms]
  have cap: "capacity_valid ?cap" "effective ?cap = Some r" using theoretical_capacity [of r] assms(1,2) by (simp_all add: fin_nonneg_def)
  have pos: "dlt 0 r" using assms nonneg_dkey [OF assms(2)] by (simp add: dlt_def)
  obtain e d where e: "proof_engine DK_GPU_HOST_TRANSFER ?cap ?upd (now 0) (now 1) = ((EntityRef (Id 1) (Generation 1), flow_ref 1 1), e)"
      "in_use e d" "d_capacity d = ?cap"
    using proof_engine_eval [OF cap(1), where upd = ?upd and kind = DK_GPU_HOST_TRANSFER and ?t0.0 = "now 0" and ?t1.0 = "now 1"]
    by (simp add: owner_options_def) metis
  obtain e1 d1 a where r: "recompute_domain (Id 1) (now 2) (published (Id 1) (derived MK_COMPLETED_BYTES_PER_SEC (dmul r d_0_6))
        (published (Id 1) (derived MK_OFFERED_BYTES_PER_SEC (dmul r d_1_30)) e)) = (a, e1)" "domain_of e1 (Id 1) = Some d1" "d_state d1 = as_state a"
      "d_offered_bps d1 = dmul r d_1_30" "d_serviced_bps d1 = dmul r d_0_6" "as_state a = CS_SATURATED"
    using loaded_pair [OF e(2,3) derived_fields(1) [OF p(1)] derived_fields(2) derived_fields(1) [OF p(3)] derived_fields(2) derived_fields(3) derived_fields(3),
        of "now 2"] cap(2) pos p(2) by metis
  have "intent_is_restrictive (ba_intent (eval_backpressure (Id 1) e1))"
    using r(2-) dsub_pos_iff(2) [OF p(1,3)] p(4) by (simp add: eval_backpressure_def domain_of_def Let_def)
  then show ?thesis
    unfolding pressure_checks_def e(1) prod.case Let_def using r(1,6) by (simp add: chk_def)
qed

lemma fenced_flow:
  assumes "cf_flows e = [(Id 1, f)]" "cf_worker_boot e = [(Id 1, Generation 1)]" "fl_owner_worker f = Id 1" "fl_owner_boot f = Generation 1"
    and "fl_state f = FS_ACTIVE" "cf_domains e = [(Id 1, d)]"
  obtains e1 where "fence_worker (Id 1) (Generation 1) e = (True, e1)" "cf_flows e1 = [(Id 1, f\<lparr>fl_state := FS_STALE\<rparr>)]"
    "cf_worker_boot e1 = [(Id 1, Generation 2)]" "cf_source_boot e1 = cf_source_boot e" "cf_limits e1 = cf_limits e"
    "cf_next_flow e1 = cf_next_flow e" "cf_active_flows e1 = cf_active_flows e" "um_find (cf_domains e1) (Id 1) \<noteq> None"
proof -
  have "um_find (fence_domains (Id 1) (Generation 1) False (cf_domains e)) (Id 1) \<noteq> None"
    using assms(6) by (cases "fence_domain (Id 1) (Generation 1) False d") (simp add: um_find_def)
  then show thesis
    using that [of "snd (fence_worker (Id 1) (Generation 1) e)"] assms
    by (simp add: fence_worker_def id_valid_def um_find_def um_map_def um_assign_def fence_flow_def flow_terminal_def flow_state_preds gen_next_def)
qed

lemmas proof_flow_simps = opened_with_def flow_of_options_def proof_options_def default_options_def flow_state_preds

lemma scenario_E_passes: "scenario_E now n = n"
proof -
  let ?cap = "only_theoretical d_100e6 BK_THEORETICAL MP_REPORTED" and ?upd = "\<lambda>o'. o'\<lparr>o_submitted_bytes := 1000\<rparr>"
  let ?f = "opened_with (?upd (proof_options (EntityRef (Id 1) (Generation 1)))) (now 0) (now 1) 1"
  have "capacity_valid ?cap" by (rule theoretical_capacity) (simp_all add: fin_nonneg_def d_100e6_def double_eval)
  then obtain e d where e: "proof_engine DK_GPU_HOST_TRANSFER ?cap ?upd (now 0) (now 1) = ((EntityRef (Id 1) (Generation 1), flow_ref 1 1), e)"
      "cf_flows e = [(Id 1, ?f)]" "cf_worker_boot e = [(Id 1, Generation 1)]" "cf_domains e = [(Id 1, d)]"
    using proof_engine_eval [where cap = ?cap and upd = ?upd and kind = DK_GPU_HOST_TRANSFER and ?t0.0 = "now 0" and ?t1.0 = "now 1"]
    by (simp add: owner_options_def) metis
  have f: "fl_owner_worker ?f = Id 1" "fl_owner_boot ?f = Generation 1" "fl_state ?f = FS_ACTIVE" "completed_bytes ?f = ByteCounter 0"
    by (simp_all add: proof_flow_simps)
  obtain e1 where e1: "fence_worker (Id 1) (Generation 1) e = (True, e1)" "cf_flows e1 = [(Id 1, ?f\<lparr>fl_state := FS_STALE\<rparr>)]"
    using fenced_flow [OF e(2,3) f(1-3) e(4)] by metis
  show ?thesis
    unfolding scenario_E_def e(1) prod.case e1(1) Let_def using e1(2) f(4) by (simp add: chk_def flow_of_def um_find_def flow_ref_id)
qed

lemma scenario_D_passes: "scenario_D now n = n"
proof -
  let ?cap = "only_theoretical d_100e6 BK_THEORETICAL MP_REPORTED" and ?upd = "\<lambda>o'. o'\<lparr>o_submitted_bytes := 1000\<rparr>"
  let ?r = "EntityRef (Id 1) (Generation 1)"
  let ?f = "opened_with (?upd (proof_options ?r)) (now 0) (now 1) 1"
  let ?g = "?f\<lparr>completed_bytes := ByteCounter 400, in_flight_bytes := ByteCounter 600, fl_last_progress_ms := now 2\<rparr>"
  have "capacity_valid ?cap" by (rule theoretical_capacity) (simp_all add: fin_nonneg_def d_100e6_def double_eval)
  then obtain e d where e: "proof_engine DK_GPU_COPY_ENGINE ?cap ?upd (now 0) (now 1) = ((?r, flow_ref 1 1), e)"
      "cf_flows e = [(Id 1, ?f)]" "cf_worker_boot e = [(Id 1, Generation 1)]" "cf_domains e = [(Id 1, d)]"
      "cf_source_boot e = [(Id 1, Generation 1)]" "cf_limits e = default_limits" "cf_next_flow e = 2" "cf_active_flows e = 1"
    using proof_engine_eval [where cap = ?cap and upd = ?upd and kind = DK_GPU_COPY_ENGINE and ?t0.0 = "now 0" and ?t1.0 = "now 1"]
    by (simp add: owner_options_def) metis
  have p: "progress_body (Generation 1) 400 (now 2) ?f = (True, ?g)"
    by (simp add: progress_body_def proof_flow_simps checked_add_def checked_sub_def Let_def)
  have refs: "fl_ref ?f = flow_ref 1 1" "fl_ref ?g = flow_ref 1 1" by (simp_all add: proof_flow_simps flow_ref_def)
  let ?e1 = "snd (flow_progress (flow_ref 1 1) (Generation 1) 400 (now 2) e)"
  have e1: "?e1 = e\<lparr>cf_flows := [(Id 1, ?g)]\<rparr>"
    using e(2) p refs by (simp add: flow_progress_def on_flow_def find_flow_def flow_ref_def um_find_def um_assign_def)
  have g: "fl_owner_worker ?g = Id 1" "fl_owner_boot ?g = Generation 1" "fl_state ?g = FS_ACTIVE" by (simp_all add: proof_flow_simps)
  obtain e2 where e2: "fence_worker (Id 1) (Generation 1) ?e1 = (True, e2)" "cf_flows e2 = [(Id 1, ?g\<lparr>fl_state := FS_STALE\<rparr>)]"
      "cf_worker_boot e2 = [(Id 1, Generation 2)]" "cf_source_boot e2 = [(Id 1, Generation 1)]" "cf_limits e2 = default_limits"
      "cf_next_flow e2 = 2" "cf_active_flows e2 = 1" "um_find (cf_domains e2) (Id 1) \<noteq> None"
    by (rule fenced_flow [of ?e1 ?g d]) (use e g e1 in simp_all)
  have stale: "flow_progress (flow_ref 1 1) (Generation 1) 10 (now 3) e2 = (False, e2)"
    using e2(2) refs by (simp add: flow_progress_def on_flow_def find_flow_def flow_ref_def um_find_def progress_body_def flow_state_preds um_assign_def)
  have w: "register_worker (Id 1) (Generation 3) e2 = (True, e2\<lparr>cf_worker_boot := [(Id 1, Generation 3)]\<rparr>)"
    using e2(3) by (simp add: register_worker_def id_valid_def gen_valid_def um_find_def um_assign_def)
  have r: "register_source (Id 1) (Generation 3) (e2\<lparr>cf_worker_boot := [(Id 1, Generation 3)]\<rparr>) =
      (True, e2\<lparr>cf_worker_boot := [(Id 1, Generation 3)], cf_source_boot := [(Id 1, Generation 3)]\<rparr>)" (is "_ = (True, ?e3)")
    using e2(4) by (simp add: register_source_def id_valid_def gen_valid_def um_find_def um_assign_def word_le_nat_alt)
  let ?o = "(proof_options ?r)\<lparr>o_submitted_bytes := 1000, o_owner_boot := Generation 3, o_source_boot := Generation 3\<rparr>"
  have "declare_allowed ?o ?e3"
    using e2 by (simp add: declare_allowed_def proof_options_def id_valid_def gen_valid_def default_limits_def word_le_nat_alt) (simp add: um_find_def)
  then have "ref_id (fst (declare_flow ?o (now 4) ?e3)) = Id 2"
    using e2(2,6) by (simp add: declare_flow_def Let_def um_emplace_def um_find_def flow_of_options_def)
  then show ?thesis
    unfolding scenario_D_def e(1) prod.case Let_def e2(1) stale w r
    using e2(2) by (simp add: chk_def flow_of_def um_find_def flow_ref_id id_valid_def case_prod_beta)
qed

section \<open>The whole program\<close>

text \<open>A device of compute capability 12 on which no call fails: \<open>mem u a\<close> is what the block \<open>a\<close> holds, a copy to the device
  stores, a copy on the device duplicates, and a copy to the host overwrites the first bytes of the buffer.\<close>

definition device_ok :: "'u Device \<Rightarrow> ('u \<Rightarrow> nat \<Rightarrow> u8 list) \<Rightarrow> bool" where
  "device_ok rt mem \<longleftrightarrow> (\<forall>u. fst (dv_count rt u) \<and> 1 \<le> snd (dv_count rt u) \<and> dv_major rt u = (True, 12) \<and>
     fst (dv_sync rt u) \<and> (\<forall>a. mem (snd (dv_sync rt u)) a = mem u a) \<and> fst (dv_last_error rt u) \<and>
     (\<forall>n. fst (fst (dv_malloc rt n u)) \<and> fst (fst (dv_malloc_host rt n u))) \<and>
     (\<forall>a bs. fst (dv_h2d rt a bs u) \<and> mem (snd (dv_h2d rt a bs u)) a = bs) \<and>
     (\<forall>a b n. fst (dv_d2d rt a b n u) \<and> mem (snd (dv_d2d rt a b n u)) a = take n (mem u b)) \<and>
     (\<forall>a n old. fst (fst (dv_d2h rt a n old u)) \<and> snd (fst (dv_d2h rt a n old u)) = take n (mem u a) @ drop n old))"

lemma hsrc_ends: "length hsrc = kProofBytes" "hsrc ! 0 = 120" "hsrc ! (kProofBytes - 1) = 120"
  by (simp_all add: hsrc_def kProofBytes_def)

lemma scenario_A_passes:
  assumes "device_ok rt mem"
  shows "fst (scenario_A rt (n, u)) = n"
  using assms hsrc_ends by (simp add: scenario_A_def device_ok_def chk_def case_prod_beta Let_def)

lemma scenario_C_passes:
  assumes "device_ok rt mem" "measurable (dsub (t 3) (t 2))" "measurable (dsub (t 5) (t 4))"
  shows "\<exists>u'. scenario_C rt t (n, u) = Some (True, n, u')"
proof -
  have "kProofBytes = 2 ^ 25" by (simp add: kProofBytes_def)
  then have "dlt 0 (rate_over kProofBytes (dsub (t 3) (t 2)))" "dlt 0 (rate_over kProofBytes (dsub (t 5) (t 4)))"
    using rate_between(4) [OF assms(2), of 25] rate_between(4) [OF assms(3), of 25] by (simp_all only: simp_thms)
  then show ?thesis using assms(1) by (simp add: scenario_C_def device_ok_def chk_def case_prod_beta Let_def)
qed

lemma streams_opened: "length (fst ((open_stream rt ^^ k) s)) = length (fst s) + k"
  by (induction k) (simp_all add: open_stream_def case_prod_beta)

lemma bytes_moved: "fst (fold (use_stream rt) xs s) = fst s + length xs * (kChunk * 2)"
  by (induction xs arbitrary: s) (simp_all add: use_stream_def case_prod_beta)

lemma scenario_B_passes:
  assumes "device_ok rt mem" "measurable (dsub (t 7) (t 6))"
  shows "fst (scenario_B rt t now (n, u)) = n"
proof -
  let ?o = "(open_stream rt ^^ 4) ([], u)"
  let ?m = "fold (use_stream rt) (List.enumerate 0 (fst ?o)) (0, snd ?o)"
  have m: "fst ?m = 2 ^ 26" using streams_opened [of 4 rt "([], u)"] by (simp add: bytes_moved kChunk_def kProofBytes_def)
  have "0 \<le> dkey (rate_over (2 ^ 26) (dsub (t 7) (t 6)))" using rate_between(4) [OF assms(2), of 26] by (simp add: dlt_def)
  then have "pressure_checks (rate_over (2 ^ 26) (dsub (t 7) (t 6))) c now n = n" for c
    using rate_between [OF assms(2), of 26] by (intro pressure_passes) simp_all
  then show ?thesis
    using m assms(1) unfolding scenario_B_def by (simp add: case_prod_beta Let_def device_ok_def chk_def)
qed

text \<open>C40: on such a device the program reports success, when each timed transfer took between about a nanosecond and thirty
  years: every check passes, whatever the speed of the device and the times at which the engine is called.\<close>

theorem cuda_proof_passes:
  assumes "device_ok rt mem" "measurable (dsub (t 3) (t 2))" "measurable (dsub (t 5) (t 4))" "measurable (dsub (t 7) (t 6))"
  shows "proof_main rt t now u = Some (0, 0)"
proof -
  obtain s where s: "scenario_C rt t (scenario_A rt (0, u)) = Some (True, 0, s)"
    using scenario_C_passes [OF assms(1-3)] scenario_A_passes [OF assms(1), of 0 u] by (metis prod.collapse)
  have "fst (dv_count rt u)" "1 \<le> snd (dv_count rt u)" and major: "dv_major rt u = (True, 12)"
    using assms(1) unfolding device_ok_def by (simp_all only: simp_thms)
  then obtain c where c: "dv_count rt u = (True, c)" "1 \<le> c" by (cases "dv_count rt u") simp
  obtain u' where b: "scenario_B rt t (now 0) (0, s) = (0, u')"
    using scenario_B_passes [OF assms(1,4)] by (metis prod.collapse)
  have first: "chk (1 \<le> c) (chk True 0) = 0" "chk (12 = (12 :: int)) (chk True 0) = 0" using c(2) by (simp_all add: chk_def)
  show ?thesis
    unfolding proof_main_def c major prod.case Let_def first s option.case b scenario_D_passes scenario_E_passes by (simp add: chk_def)
qed

text \<open>A device that keeps its blocks in a function, and a stopwatch whose readings are a second apart.\<close>

definition block_device :: "(nat \<Rightarrow> u8 list) Device" where
  "block_device = \<lparr>dv_count = (\<lambda>u. (True, 1)), dv_major = (\<lambda>u. (True, 12)), dv_malloc = (\<lambda>n u. ((True, 0), u)),
     dv_malloc_host = (\<lambda>n u. ((True, 0), u)), dv_h2d = (\<lambda>a bs u. (True, u(a := bs))), dv_d2d = (\<lambda>a b n u. (True, u(a := take n (u b)))),
     dv_d2h = (\<lambda>a n old u. ((True, take n (u a) @ drop n old), u)), dv_sync = (\<lambda>u. (True, u)), dv_last_error = (\<lambda>u. (True, u)),
     dv_stream_create = (\<lambda>u. (0, u)), dv_h2d_async = (\<lambda>a bs st u. u(a := bs)), dv_d2h_async = (\<lambda>a n st u. u),
     dv_stream_destroy = (\<lambda>st u. u), dv_free = (\<lambda>a u. u), dv_free_host = (\<lambda>a u. u)\<rparr>"

lemma block_device_ok: "device_ok block_device (\<lambda>u. u)"
  by (simp add: device_ok_def block_device_def)

lemma measurable_second: "measurable (dsub d_one 0)"
proof -
  have "dkey (dsub d_one 0) = dkey d_one" by (simp add: dkey_dsub srnd_dval)
  moreover have "\<not> isnan (dsub d_one 0)" by (simp add: dsub_not_nan)
  ultimately show ?thesis by (simp add: measurable_def dle_def dkey_d_one) (simp add: double_eval)
qed

theorem cuda_proof_passes_witness:
  "proof_main block_device (\<lambda>i. if odd i then d_one else 0) (\<lambda>i j. 5) (\<lambda>a. []) = Some (0, 0)"
  using cuda_proof_passes [OF block_device_ok, of "\<lambda>i. if odd i then d_one else 0"] measurable_second by simp

end
